(* ===== verification/Nettool_Prelude.thy ===== *)
theory Nettool_Prelude
  imports Main "HOL-Library.Word" "HOL-Library.Product_Lexorder" "HOL-Library.Multiset"
begin

text \<open>
  The vocabulary shared by every component theory: Rust's fixed-width integers as words,
  its \<open>Result\<close> type extended with the outcome of a panic, checked and saturating integer
  arithmetic, slices (with their panicking and their optional access), byte-order
  conversion and UTF-8 strings.

  Conventions.  \<open>usize\<close> offsets and lengths are \<open>nat\<close>; a length of a Rust slice is below
  \<open>isize::MAX\<close>, so adding small constants to one cannot wrap, and the operations the
  source guards with \<open>checked_add\<close> keep that guard against \<open>usize_max\<close>.  A Rust \<open>&str\<close>
  is the list of its UTF-8 bytes, as \<open>string\<close>; its characters are obtained with
  \<open>utf8_chars\<close>.
\<close>

unbundle bit_operations_syntax

named_theorems outcome_simps \<open>unfolding of the result combinators\<close>
named_theorems slice_simps \<open>slices of concatenations and of patched buffers\<close>
named_theorems bytes_simps \<open>byte-order conversion\<close>

section \<open>Machine integers\<close>

type_synonym u8 = "8 word"
type_synonym u16 = "16 word"
type_synonym u32 = "32 word"
type_synonym u64 = "64 word"
type_synonym u128 = "128 word"
type_synonym bytes = "8 word list"

definition usize_max :: nat where
  "usize_max = 2 ^ 64 - 1"

definition sat_add :: "'a::len word \<Rightarrow> 'a word \<Rightarrow> 'a word" where
  "sat_add a b = (if unat a + unat b < 2 ^ LENGTH('a) then a + b else - 1)"

definition sat_sub :: "'a::len word \<Rightarrow> 'a word \<Rightarrow> 'a word" where
  "sat_sub a b = (if b \<le> a then a - b else 0)"

definition sat_mul :: "'a::len word \<Rightarrow> 'a word \<Rightarrow> 'a word" where
  "sat_mul a b = (if unat a * unat b < 2 ^ LENGTH('a) then a * b else - 1)"

definition checked_add :: "'a::len word \<Rightarrow> 'a word \<Rightarrow> 'a word option" where
  "checked_add a b = (if unat a + unat b < 2 ^ LENGTH('a) then Some (a + b) else None)"

definition checked_sub :: "'a::len word \<Rightarrow> 'a word \<Rightarrow> 'a word option" where
  "checked_sub a b = (if b \<le> a then Some (a - b) else None)"

definition checked_mul :: "'a::len word \<Rightarrow> 'a word \<Rightarrow> 'a word option" where
  "checked_mul a b = (if unat a * unat b < 2 ^ LENGTH('a) then Some (a * b) else None)"

definition usize_checked_add :: "nat \<Rightarrow> nat \<Rightarrow> nat option" where
  "usize_checked_add a b = (if a + b \<le> usize_max then Some (a + b) else None)"

definition usize_sat_add :: "nat \<Rightarrow> nat \<Rightarrow> nat" where
  "usize_sat_add a b = min (a + b) usize_max"

definition usize_sat_mul :: "nat \<Rightarrow> nat \<Rightarrow> nat" where
  "usize_sat_mul a b = min (a * b) usize_max"

text \<open>\<open>T::try_from(usize)\<close> and \<open>T::try_from(usize).unwrap_or(T::MAX)\<close>.\<close>

definition try_from_nat :: "nat \<Rightarrow> 'a::len word option" where
  "try_from_nat n = (if n < 2 ^ LENGTH('a) then Some (of_nat n) else None)"

definition clamp_from_nat :: "nat \<Rightarrow> 'a::len word" where
  "clamp_from_nat n = (if n < 2 ^ LENGTH('a) then of_nat n else - 1)"

lemma unat_max_word: "unat (- 1 :: 'a::len word) = 2 ^ LENGTH('a) - 1"
  by (simp add: unsigned_minus_1_eq_mask mask_eq_exp_minus_1)

lemma unat_add_noovf:
  "unat a + unat b < 2 ^ LENGTH('a) \<Longrightarrow> unat (a + b) = unat (a :: 'a::len word) + unat b"
  by (simp add: unat_word_ariths)

lemma unat_mult_noovf:
  "unat a * unat b < 2 ^ LENGTH('a) \<Longrightarrow> unat (a * b) = unat (a :: 'a::len word) * unat b"
  by (simp add: unat_word_ariths)

lemma unat_sat_add:
  "unat (sat_add a b) = min (unat a + unat b) (2 ^ LENGTH('a) - 1)" for a b :: "'a::len word"
  by (auto simp: sat_add_def unat_add_noovf unat_max_word)

lemma unat_sat_sub: "unat (sat_sub a b) = unat a - unat b"
  by (auto simp: sat_sub_def unat_sub word_le_nat_alt)

lemma unat_sat_mul:
  "unat (sat_mul a b) = min (unat a * unat b) (2 ^ LENGTH('a) - 1)" for a b :: "'a::len word"
  by (auto simp: sat_mul_def unat_mult_noovf unat_max_word)

lemma checked_add_SomeD:
  "checked_add a b = Some c \<Longrightarrow> unat c = unat a + unat b \<and> c = a + b"
  by (auto simp: checked_add_def unat_add_noovf split: if_splits)

lemma checked_sub_SomeD:
  "checked_sub a b = Some c \<Longrightarrow> unat c = unat a - unat b \<and> b \<le> a \<and> c = a - b"
  by (auto simp: checked_sub_def unat_sub split: if_splits)

lemma unat_clamp_from_nat:
  "unat (clamp_from_nat n :: 'a::len word) = min n (2 ^ LENGTH('a) - 1)"
  by (auto simp: clamp_from_nat_def unat_of_nat unat_max_word)

lemma try_from_nat_SomeD:
  "try_from_nat n = Some (w :: 'a::len word) \<Longrightarrow> unat w = n"
  by (auto simp: try_from_nat_def unat_of_nat split: if_splits)

lemma unat_ucast_up:
  assumes "LENGTH('a) \<le> LENGTH('b)"
  shows "unat (ucast (w :: 'a::len word) :: 'b::len word) = unat w"
proof -
  have "unat w < 2 ^ LENGTH('a)" by (rule unsigned_less)
  also have "(2 :: nat) ^ LENGTH('a) \<le> 2 ^ LENGTH('b)" using assms by (simp add: power_increasing)
  finally show ?thesis by (simp add: unsigned_ucast_eq take_bit_nat_eq_self)
qed

lemma unat_u8_bound: "unat (b :: u8) < 256"
  using unsigned_less [of b, where ?'a = nat] by simp

section \<open>Results\<close>

text \<open>
  \<open>Ok\<close> and \<open>Err\<close> are Rust's \<open>Result\<close>; \<open>Panic\<close> is the abort of an out-of-range index
  or slice, a mismatched \<open>copy_from_slice\<close> or a failed \<open>expect\<close>.  A component is free of
  panics when no input makes its model return \<open>Panic\<close>.
\<close>

datatype ('e, 'a) outcome = Ok 'a | Err 'e | Panic

fun and_then :: "('e, 'a) outcome \<Rightarrow> ('a \<Rightarrow> ('e, 'b) outcome) \<Rightarrow> ('e, 'b) outcome" where
  "and_then (Ok x) f = f x"
| "and_then (Err e) f = Err e"
| "and_then Panic f = Panic"

fun map_err :: "('e \<Rightarrow> 'f) \<Rightarrow> ('e, 'a) outcome \<Rightarrow> ('f, 'a) outcome" where
  "map_err f (Ok x) = Ok x"
| "map_err f (Err e) = Err (f e)"
| "map_err f Panic = Panic"

definition ok_or :: "'e \<Rightarrow> 'a option \<Rightarrow> ('e, 'a) outcome" where
  "ok_or e x = (case x of None \<Rightarrow> Err e | Some y \<Rightarrow> Ok y)"

text \<open>The \<open>Result\<close> of a call that cannot panic.\<close>

fun from_result :: "'e + 'a \<Rightarrow> ('e, 'a) outcome" where
  "from_result (Inl e) = Err e"
| "from_result (Inr x) = Ok x"

fun is_ok :: "('e, 'a) outcome \<Rightarrow> bool" where
  "is_ok (Ok x) = True"
| "is_ok (Err e) = False"
| "is_ok Panic = False"

lemma and_then_cong [fundef_cong]:
  "m = m' \<Longrightarrow> (\<And>x. m' = Ok x \<Longrightarrow> f x = g x) \<Longrightarrow> and_then m f = and_then m' g"
  by (cases m') auto

lemma and_then_eq_Ok [outcome_simps]:
  "and_then m f = Ok y \<longleftrightarrow> (\<exists>x. m = Ok x \<and> f x = Ok y)"
  by (cases m) auto

lemma and_then_eq_Err [outcome_simps]:
  "and_then m f = Err e \<longleftrightarrow> m = Err e \<or> (\<exists>x. m = Ok x \<and> f x = Err e)"
  by (cases m) auto

lemma and_then_eq_Panic [outcome_simps]:
  "and_then m f = Panic \<longleftrightarrow> m = Panic \<or> (\<exists>x. m = Ok x \<and> f x = Panic)"
  by (cases m) auto

lemma and_then_no_panic [intro]:
  "m \<noteq> Panic \<Longrightarrow> (\<And>x. m = Ok x \<Longrightarrow> f x \<noteq> Panic) \<Longrightarrow> and_then m f \<noteq> Panic"
  by (cases m) auto

lemma ok_or_simps [simp]: "ok_or e None = Err e" "ok_or e (Some x) = Ok x"
  by (simp_all add: ok_or_def)

lemma ok_or_eq_Ok [outcome_simps]: "ok_or e x = Ok y \<longleftrightarrow> x = Some y"
  by (simp add: ok_or_def split: option.split)

lemma ok_or_not_Panic [simp]: "ok_or e x \<noteq> Panic"
  by (simp add: ok_or_def split: option.split)

lemma map_err_eq_Ok [outcome_simps]: "map_err f m = Ok y \<longleftrightarrow> m = Ok y"
  by (cases m) auto

lemma from_result_eq_Ok [outcome_simps]: "from_result r = Ok x \<longleftrightarrow> r = Inr x"
  by (cases r) simp_all

lemma from_result_not_Panic [simp]: "from_result r \<noteq> Panic"
  by (cases r) simp_all

lemma map_err_eq_Panic [outcome_simps]: "map_err f m = Panic \<longleftrightarrow> m = Panic"
  by (cases m) auto

section \<open>Slices\<close>

text \<open>\<open>xs.get(a..b)\<close>, \<open>xs.get(a..)\<close>, \<open>xs.get(..b)\<close>: absent when out of range.\<close>

definition get_range :: "'a list \<Rightarrow> nat \<Rightarrow> nat \<Rightarrow> 'a list option" where
  "get_range xs a b = (if a \<le> b \<and> b \<le> length xs then Some (take (b - a) (drop a xs)) else None)"

definition get_from :: "'a list \<Rightarrow> nat \<Rightarrow> 'a list option" where
  "get_from xs a = (if a \<le> length xs then Some (drop a xs) else None)"

definition get_to :: "'a list \<Rightarrow> nat \<Rightarrow> 'a list option" where
  "get_to xs b = (if b \<le> length xs then Some (take b xs) else None)"

text \<open>\<open>xs[i]\<close>, \<open>xs[a..b]\<close>, \<open>xs[a..]\<close>, \<open>xs[..b]\<close>: a panic when out of range.\<close>

definition index_at :: "'a list \<Rightarrow> nat \<Rightarrow> ('e, 'a) outcome" where
  "index_at xs i = (if i < length xs then Ok (xs ! i) else Panic)"

definition slice_range :: "'a list \<Rightarrow> nat \<Rightarrow> nat \<Rightarrow> ('e, 'a list) outcome" where
  "slice_range xs a b = (if a \<le> b \<and> b \<le> length xs then Ok (take (b - a) (drop a xs)) else Panic)"

definition slice_from :: "'a list \<Rightarrow> nat \<Rightarrow> ('e, 'a list) outcome" where
  "slice_from xs a = (if a \<le> length xs then Ok (drop a xs) else Panic)"

definition slice_to :: "'a list \<Rightarrow> nat \<Rightarrow> ('e, 'a list) outcome" where
  "slice_to xs b = (if b \<le> length xs then Ok (take b xs) else Panic)"

text \<open>\<open>xs[a..b].copy_from_slice(ys)\<close> and \<open>xs[i] = y\<close> on an owned buffer.\<close>

definition patch :: "'a list \<Rightarrow> nat \<Rightarrow> 'a list \<Rightarrow> 'a list" where
  "patch xs a ys = take a xs @ ys @ drop (a + length ys) xs"

definition copy_from_slice :: "'a list \<Rightarrow> nat \<Rightarrow> nat \<Rightarrow> 'a list \<Rightarrow> ('e, 'a list) outcome" where
  "copy_from_slice xs a b ys =
     (if a \<le> b \<and> b \<le> length xs \<and> length ys = b - a then Ok (patch xs a ys) else Panic)"

definition store_at :: "'a list \<Rightarrow> nat \<Rightarrow> 'a \<Rightarrow> ('e, 'a list) outcome" where
  "store_at xs i y = (if i < length xs then Ok (xs[i := y]) else Panic)"

text \<open>A run of \<open>xs[a..b].copy_from_slice(ys)\<close> statements on one buffer.\<close>

fun copy_fields :: "'a list \<Rightarrow> (nat \<times> nat \<times> 'a list) list \<Rightarrow> ('e, 'a list) outcome" where
  "copy_fields xs [] = Ok xs"
| "copy_fields xs ((a, b, ys) # rest) =
     and_then (copy_from_slice xs a b ys) (\<lambda>xs'. copy_fields xs' rest)"

lemma get_range_SomeD:
  "get_range xs a b = Some ys \<Longrightarrow>
     a \<le> b \<and> b \<le> length xs \<and> length ys = b - a \<and> ys = take (b - a) (drop a xs)"
  by (auto simp: get_range_def split: if_splits)

lemma get_from_SomeD: "get_from xs a = Some ys \<Longrightarrow> a \<le> length xs \<and> ys = drop a xs"
  by (auto simp: get_from_def split: if_splits)

lemma get_to_SomeD: "get_to xs b = Some ys \<Longrightarrow> b \<le> length xs \<and> ys = take b xs \<and> length ys = b"
  by (auto simp: get_to_def split: if_splits)

lemma index_at_Ok [simp]: "i < length xs \<Longrightarrow> index_at xs i = Ok (xs ! i)"
  by (simp add: index_at_def)

lemma slice_from_Ok [simp]: "a \<le> length xs \<Longrightarrow> slice_from xs a = Ok (drop a xs)"
  by (simp add: slice_from_def)

lemma slice_to_Ok [simp]: "b \<le> length xs \<Longrightarrow> slice_to xs b = Ok (take b xs)"
  by (simp add: slice_to_def)

lemma slice_range_Ok [simp]:
  "a \<le> b \<Longrightarrow> b \<le> length xs \<Longrightarrow> slice_range xs a b = Ok (take (b - a) (drop a xs))"
  by (simp add: slice_range_def)

lemma copy_from_slice_Ok [simp]:
  "a \<le> b \<Longrightarrow> b \<le> length xs \<Longrightarrow> length ys = b - a \<Longrightarrow>
     copy_from_slice xs a b ys = Ok (patch xs a ys)"
  by (simp add: copy_from_slice_def)

lemma store_at_Ok [simp]: "i < length xs \<Longrightarrow> store_at xs i y = Ok (xs[i := y])"
  by (simp add: store_at_def)

lemma length_patch [simp]: "a + length ys \<le> length xs \<Longrightarrow> length (patch xs a ys) = length xs"
  by (simp add: patch_def)

lemma nth_patch:
  "a + length ys \<le> length xs \<Longrightarrow> i < length xs \<Longrightarrow>
     patch xs a ys ! i = (if a \<le> i \<and> i < a + length ys then ys ! (i - a) else xs ! i)"
  by (auto simp: patch_def nth_append)

lemma take_drop_patch_same [slice_simps]:
  "a + length ys \<le> length xs \<Longrightarrow> n = length ys \<Longrightarrow> take n (drop a (patch xs a ys)) = ys"
  by (simp add: patch_def)

lemma take_drop_patch_before [slice_simps]:
  "a + length ys \<le> length xs \<Longrightarrow> i + n \<le> a \<Longrightarrow>
     take n (drop i (patch xs a ys)) = take n (drop i xs)"
  by (simp add: patch_def take_drop)

lemma take_drop_patch_after [slice_simps]:
  assumes "a + length ys \<le> length xs" "a + length ys \<le> i"
  shows "take n (drop i (patch xs a ys)) = take n (drop i xs)"
proof -
  have "drop i (patch xs a ys) = drop i xs"
    using assms by (simp add: patch_def)
  then show ?thesis by simp
qed

text \<open>Cutting a list at increasing positions.\<close>

lemma drop_split: "drop a xs = take n (drop a xs) @ drop (a + n) xs"
  by (metis add.commute append_take_drop_id drop_drop)

text \<open>Fields that follow one another without gaps overwrite a prefix of the rest of the buffer.\<close>

fun adjacent_fields :: "nat \<Rightarrow> (nat \<times> nat \<times> 'a list) list \<Rightarrow> bool" where
  "adjacent_fields k [] \<longleftrightarrow> True"
| "adjacent_fields k ((a, b, ys) # rest) \<longleftrightarrow> a = k \<and> b = k + length ys \<and> adjacent_fields b rest"

lemma copy_fields_adjacent:
  "adjacent_fields (length pre) fs \<Longrightarrow> length (concat (map (\<lambda>f. snd (snd f)) fs)) \<le> length zs \<Longrightarrow>
     copy_fields (pre @ zs) fs =
       Ok (pre @ concat (map (\<lambda>f. snd (snd f)) fs) @ drop (length (concat (map (\<lambda>f. snd (snd f)) fs))) zs)"
proof (induction fs arbitrary: pre zs)
  case Nil
  then show ?case by simp
next
  case (Cons f fs)
  obtain a b ys where f: "f = (a, b, ys)" by (cases f)
  have c: "a = length pre" "b = length pre + length ys" "adjacent_fields (length pre + length ys) fs"
    "length (concat (map (\<lambda>f. snd (snd f)) fs)) \<le> length zs - length ys" "length ys \<le> length zs"
    using Cons.prems f by auto
  show ?case using f c Cons.IH [of "pre @ ys" "drop (length ys) zs"]
    by (simp add: patch_def add.commute)
qed

lemma copy_fields_fill:
  assumes "adjacent_fields 0 fs" "n = length (concat (map (\<lambda>f. snd (snd f)) fs))"
  shows "copy_fields (replicate n z) fs = Ok (concat (map (\<lambda>f. snd (snd f)) fs))"
  using copy_fields_adjacent [of "[]" fs "replicate n z"] assms by simp

section \<open>Byte order\<close>

text \<open>
  \<open>be_nat\<close> reads a byte list as an unsigned big-endian number and \<open>nat_to_be n\<close> writes
  the low \<open>n\<close> bytes of one; \<open>from_be_bytes\<close> and \<open>to_be_bytes\<close> are the word versions, the
  little-endian ones read and write the reversed list.
\<close>

definition be_nat :: "bytes \<Rightarrow> nat" where
  "be_nat bs = foldl (\<lambda>acc b. acc * 256 + unat b) 0 bs"

fun nat_to_be :: "nat \<Rightarrow> nat \<Rightarrow> bytes" where
  "nat_to_be 0 x = []"
| "nat_to_be (Suc n) x = nat_to_be n (x div 256) @ [of_nat x]"

definition from_be_bytes :: "bytes \<Rightarrow> 'a::len word" where
  "from_be_bytes bs = of_nat (be_nat bs)"

definition to_be_bytes :: "nat \<Rightarrow> 'a::len word \<Rightarrow> bytes" where
  "to_be_bytes n w = nat_to_be n (unat w)"

definition from_le_bytes :: "bytes \<Rightarrow> 'a::len word" where
  "from_le_bytes bs = from_be_bytes (rev bs)"

definition to_le_bytes :: "nat \<Rightarrow> 'a::len word \<Rightarrow> bytes" where
  "to_le_bytes n w = rev (to_be_bytes n w)"

lemma be_nat_simps [simp]: "be_nat [] = 0" "be_nat (bs @ [b]) = be_nat bs * 256 + unat b"
  by (simp_all add: be_nat_def)

lemma length_nat_to_be [simp]: "length (nat_to_be n x) = n"
  by (induction n arbitrary: x) auto

lemma nat_to_be_numeral:
  "nat_to_be (numeral k) x = nat_to_be (pred_numeral k) (x div 256) @ [of_nat x]"
  unfolding numeral_eq_Suc [of k] by (rule nat_to_be.simps)

lemmas byte_literal_simps = to_le_bytes_def to_be_bytes_def nat_to_be_numeral

lemma length_to_be_bytes [simp]: "length (to_be_bytes n w) = n"
  by (simp add: to_be_bytes_def)

lemma length_to_le_bytes [simp]: "length (to_le_bytes n w) = n"
  by (simp add: to_le_bytes_def)

lemma be_nat_nat_to_be: "be_nat (nat_to_be n x) = x mod 256 ^ n"
proof (induction n arbitrary: x)
  case 0
  then show ?case by simp
next
  case (Suc n)
  have "be_nat (nat_to_be (Suc n) x) = (x div 256) mod 256 ^ n * 256 + x mod 256"
    using Suc by (simp add: unat_of_nat)
  also have "\<dots> = x mod (256 * 256 ^ n)"
    by (simp add: mod_mult2_eq)
  finally show ?case by simp
qed

lemma be_nat_bound: "be_nat bs < 256 ^ length bs"
proof (induction bs rule: rev_induct)
  case Nil
  then show ?case by simp
next
  case (snoc b bs)
  then show ?case using unat_u8_bound [of b] by simp
qed

lemma nat_to_be_be_nat [bytes_simps]: "n = length bs \<Longrightarrow> nat_to_be n (be_nat bs) = bs"
proof (induction bs arbitrary: n rule: rev_induct)
  case Nil
  then show ?case by simp
next
  case (snoc b bs)
  have "(be_nat bs * 256 + unat b) div 256 = be_nat bs"
    using unat_u8_bound [of b] by simp
  moreover have "of_nat (be_nat bs * 256 + unat b) = b"
    using unat_u8_bound [of b] by (simp add: word_unat_eq_iff unat_of_nat unat_word_ariths mod_simps)
  ultimately show ?case using snoc by simp
qed

lemma from_be_bytes_to_be_bytes [bytes_simps]:
  assumes "LENGTH('a) \<le> 8 * n"
  shows "from_be_bytes (to_be_bytes n w) = (w :: 'a::len word)"
proof -
  have "unat w < 2 ^ LENGTH('a)" by (rule unsigned_less)
  also have "(2 :: nat) ^ LENGTH('a) \<le> 2 ^ (8 * n)" using assms by (simp add: power_increasing)
  also have "(2 :: nat) ^ (8 * n) = 256 ^ n" by (simp add: power_mult)
  finally show ?thesis
    by (simp add: from_be_bytes_def to_be_bytes_def be_nat_nat_to_be)
qed

lemma from_le_bytes_to_le_bytes [bytes_simps]:
  "LENGTH('a) \<le> 8 * n \<Longrightarrow> from_le_bytes (to_le_bytes n w) = (w :: 'a::len word)"
  by (simp add: from_le_bytes_def to_le_bytes_def from_be_bytes_to_be_bytes)

lemma unat_from_be_bytes:
  assumes "8 * length bs \<le> LENGTH('a)"
  shows "unat (from_be_bytes bs :: 'a::len word) = be_nat bs"
proof -
  have "be_nat bs < 256 ^ length bs" by (rule be_nat_bound)
  also have "(256 :: nat) ^ length bs = 2 ^ (8 * length bs)" by (simp add: power_mult)
  also have "\<dots> \<le> 2 ^ LENGTH('a)" using assms by (simp add: power_increasing)
  finally show ?thesis by (simp add: from_be_bytes_def unat_of_nat)
qed

lemma to_be_bytes_from_be_bytes [bytes_simps]:
  "n = length bs \<Longrightarrow> 8 * n \<le> LENGTH('a) \<Longrightarrow>
     to_be_bytes n (from_be_bytes bs :: 'a::len word) = bs"
  by (simp add: to_be_bytes_def unat_from_be_bytes nat_to_be_be_nat)

section \<open>Strings\<close>

text \<open>
  \<open>str_bytes\<close> is \<open>as_bytes\<close>.  \<open>utf8_chars\<close> decodes the Unicode scalar values of a
  (valid) UTF-8 string; \<open>char_is_control\<close> and \<open>char_is_whitespace\<close> are the character
  classes of \<open>char::is_control\<close> and \<open>char::is_whitespace\<close>, and \<open>str_blank s\<close> is
  \<open>s.trim().is_empty()\<close>.
\<close>

definition str_bytes :: "string \<Rightarrow> bytes" where
  "str_bytes s = map (\<lambda>c. of_nat (of_char c)) s"

fun utf8_decode :: "nat list \<Rightarrow> nat list" where
  "utf8_decode [] = []"
| "utf8_decode (a # rest) =
     (if a < 0x80 then a # utf8_decode rest
      else if a < 0xE0 then
        (case rest of
           b # rest' \<Rightarrow> ((a mod 32) * 64 + b mod 64) # utf8_decode rest'
         | [] \<Rightarrow> [])
      else if a < 0xF0 then
        (case rest of
           b # c # rest' \<Rightarrow> ((a mod 16) * 4096 + (b mod 64) * 64 + c mod 64) # utf8_decode rest'
         | _ \<Rightarrow> [])
      else
        (case rest of
           b # c # d # rest' \<Rightarrow>
             ((a mod 8) * 262144 + (b mod 64) * 4096 + (c mod 64) * 64 + d mod 64)
               # utf8_decode rest'
         | _ \<Rightarrow> []))"

definition utf8_chars :: "string \<Rightarrow> nat list" where
  "utf8_chars s = utf8_decode (map of_char s)"

text \<open>\<open>std::str::from_utf8\<close> accepts exactly the well-formed sequences of the Unicode standard.\<close>

definition utf8_tail :: "nat \<Rightarrow> bool" where
  "utf8_tail b \<longleftrightarrow> 0x80 \<le> b \<and> b \<le> 0xBF"

fun utf8_valid :: "nat list \<Rightarrow> bool" where
  "utf8_valid [] = True"
| "utf8_valid (a # rest) =
     (if a < 0x80 then utf8_valid rest
      else if 0xC2 \<le> a \<and> a \<le> 0xDF then
        (case rest of b # rest' \<Rightarrow> utf8_tail b \<and> utf8_valid rest' | _ \<Rightarrow> False)
      else if 0xE0 \<le> a \<and> a \<le> 0xEF then
        (case rest of
           b # c # rest' \<Rightarrow>
             utf8_tail b \<and> (a = 0xE0 \<longrightarrow> 0xA0 \<le> b) \<and> (a = 0xED \<longrightarrow> b \<le> 0x9F)
             \<and> utf8_tail c \<and> utf8_valid rest'
         | _ \<Rightarrow> False)
      else if 0xF0 \<le> a \<and> a \<le> 0xF4 then
        (case rest of
           b # c # d # rest' \<Rightarrow>
             utf8_tail b \<and> (a = 0xF0 \<longrightarrow> 0x90 \<le> b) \<and> (a = 0xF4 \<longrightarrow> b \<le> 0x8F)
             \<and> utf8_tail c \<and> utf8_tail d \<and> utf8_valid rest'
         | _ \<Rightarrow> False)
      else False)"

definition char_is_control :: "nat \<Rightarrow> bool" where
  "char_is_control c \<longleftrightarrow> c \<le> 0x1F \<or> (0x7F \<le> c \<and> c \<le> 0x9F)"

definition char_is_whitespace :: "nat \<Rightarrow> bool" where
  "char_is_whitespace c \<longleftrightarrow>
     (0x09 \<le> c \<and> c \<le> 0x0D) \<or> c = 0x20 \<or> c = 0x85 \<or> c = 0xA0 \<or> c = 0x1680
     \<or> (0x2000 \<le> c \<and> c \<le> 0x200A) \<or> c = 0x2028 \<or> c = 0x2029 \<or> c = 0x202F
     \<or> c = 0x205F \<or> c = 0x3000"

definition str_blank :: "string \<Rightarrow> bool" where
  "str_blank s \<longleftrightarrow> list_all char_is_whitespace (utf8_chars s)"

text \<open>\<open>str::split\<close> on an ASCII character, \<open>is_ascii_alphanumeric\<close> and \<open>is_ascii_hexdigit\<close>.\<close>

fun split_char :: "char \<Rightarrow> string \<Rightarrow> string list" where
  "split_char sep [] = [[]]"
| "split_char sep (c # cs) =
     (if c = sep then [] # split_char sep cs
      else case split_char sep cs of [] \<Rightarrow> [[c]] | l # ls \<Rightarrow> (c # l) # ls)"

definition ascii_alnum :: "char \<Rightarrow> bool" where
  "ascii_alnum c \<longleftrightarrow>
     (let n = of_char c :: nat in 48 \<le> n \<and> n \<le> 57 \<or> 65 \<le> n \<and> n \<le> 90 \<or> 97 \<le> n \<and> n \<le> 122)"

definition ascii_hexdigit :: "char \<Rightarrow> bool" where
  "ascii_hexdigit c \<longleftrightarrow>
     (let n = of_char c :: nat in 48 \<le> n \<and> n \<le> 57 \<or> 65 \<le> n \<and> n \<le> 70 \<or> 97 \<le> n \<and> n \<le> 102)"

lemma length_str_bytes [simp]: "length (str_bytes s) = length s"
  by (simp add: str_bytes_def)

lemma str_bytes_inject [simp]: "str_bytes s = str_bytes t \<longleftrightarrow> s = t"
proof
  assume eq: "str_bytes s = str_bytes t"
  have inj: "c = d" if "of_nat (of_char c) = (of_nat (of_char d) :: u8)" for c d :: char
  proof -
    have "(of_char c :: nat) mod 256 = of_char d mod 256"
      using that by (simp add: word_of_nat_eq_iff take_bit_eq_mod)
    then show ?thesis by (simp add: of_char_mod_256)
  qed
  show "s = t"
    using eq unfolding str_bytes_def
    by (rule map_injective) (auto intro: injI inj)
qed simp

section \<open>Hash maps and decimal text\<close>

text \<open>
  A \<open>HashMap\<close> is an association list with distinct keys.  The order in which it is iterated is not
  specified by the standard library: an operation that depends on it takes the order as an argument,
  about which only that it is a permutation is assumed.
\<close>

definition iteration_order :: "('a list \<Rightarrow> 'a list) \<Rightarrow> bool" where
  "iteration_order iter \<longleftrightarrow> (\<forall>xs. mset (iter xs) = mset xs)"

lemma iteration_order_set [simp]: "iteration_order iter \<Longrightarrow> set (iter xs) = set xs"
  by (metis iteration_order_def set_mset_mset)

lemma iteration_order_Nil [simp]: "iteration_order iter \<Longrightarrow> iter xs = [] \<longleftrightarrow> xs = []"
  by (metis iteration_order_def mset_zero_iff)

text \<open>Decimal digits of \<open>to_string\<close>.\<close>

fun decimal :: "nat \<Rightarrow> string" where
  "decimal n =
     (if n < 10 then [char_of (48 + n)] else decimal (n div 10) @ [char_of (48 + n mod 10)])"

declare decimal.simps [simp del]

lemma length_decimal: "n < 10 ^ k \<Longrightarrow> 0 < k \<Longrightarrow> length (decimal n) \<le> k"
proof (induction k arbitrary: n)
  case 0
  then show ?case by simp
next
  case (Suc k)
  show ?case
  proof (cases "n < 10")
    case True
    then show ?thesis by (simp add: decimal.simps)
  next
    case False
    then have "k \<noteq> 0" using Suc.prems by (cases k) auto
    moreover have "n div 10 < 10 ^ k" using Suc.prems by (simp add: div_less_iff_less_mult mult.commute)
    ultimately have "length (decimal (n div 10)) \<le> k" using Suc.IH by simp
    then show ?thesis using False by (subst decimal.simps) simp
  qed
qed

lemma sat_add_one_unat: "unat (a :: u64) < 2 ^ 64 - 1 \<Longrightarrow> unat (sat_add a 1) = unat a + 1"
  by (simp add: unat_sat_add)

lemma sat_add_0 [simp]: "sat_add (x :: u64) 0 = x"
  using unsigned_less [of x, where ?'a = nat] by (simp add: sat_add_def)

lemma sat_add_ne_0: "sat_add (x :: u64) 1 \<noteq> 0"
proof -
  have "unat (sat_add x 1) \<noteq> 0" by (simp add: unat_sat_add)
  then show ?thesis by auto
qed

lemma unat_sat_add_of_bool:
  "unat (c :: u64) < 2 ^ 64 - 1 \<Longrightarrow> unat (sat_add c (of_bool b)) = unat c + of_bool b"
  by (cases b) (simp_all add: sat_add_one_unat)

section \<open>Reachability and invariants\<close>

text \<open>
  The states a component can be in: \<open>reachable init step\<close> holds of the states a run of labelled
  steps leads to.  \<open>invariant_system\<close> is the contract the state machines of the components
  meet; its facts are used through one interpretation per component.
\<close>

inductive reachable :: "('s \<Rightarrow> bool) \<Rightarrow> ('s \<Rightarrow> 'l \<Rightarrow> 's \<Rightarrow> bool) \<Rightarrow> 's \<Rightarrow> bool"
  for init :: "'s \<Rightarrow> bool" and step :: "'s \<Rightarrow> 'l \<Rightarrow> 's \<Rightarrow> bool" where
  reachable_init: "init s \<Longrightarrow> reachable init step s"
| reachable_step: "reachable init step s \<Longrightarrow> step s l t \<Longrightarrow> reachable init step t"

locale invariant_system =
  fixes init :: "'s \<Rightarrow> bool"
    and step :: "'s \<Rightarrow> 'l \<Rightarrow> 's \<Rightarrow> bool"
    and inv :: "'s \<Rightarrow> bool"
  assumes inv_init: "init s \<Longrightarrow> inv s"
    and inv_step: "inv s \<Longrightarrow> step s l t \<Longrightarrow> inv t"
begin

lemma reachable_inv: "reachable init step s \<Longrightarrow> inv s"
  by (induction rule: reachable.induct) (auto intro: inv_init inv_step)

lemma run_inv:
  "foldl (\<lambda>S l. {t. \<exists>s \<in> S. step s l t}) {s. init s} ls \<subseteq> {s. inv s}"
proof (induction ls rule: rev_induct)
  case Nil
  then show ?case by (auto intro: inv_init)
next
  case (snoc l ls)
  then show ?case by (auto intro: inv_step)
qed

end

end
