(* ===== verification/Error_Model.thy ===== *)
theory Error_Model
  imports Nettool_Prelude
begin

text \<open>
  The error crate (src/crates/error/src/lib.rs): the closed enumeration of error codes, their
  stable machine-readable names, and the error value every fallible operation of the tool kit
  returns.
\<close>

datatype error_code =
    InvalidArgument
  | ProbeFailed
  | Unsupported
  | StorageFailed
  | AgentUnavailable
  | ActionUnsupported
  | ResourceConflict
  | InvalidState
  | RollbackFailed
  | PersistenceFailed
  | SpeedFailed
  | ProtocolInvalid
  | ControlFrameTooLarge
  | ProtocolUnsupportedFlag
  | ProtocolIncompatible
  | NodeTransportFailed
  | NodeTlsFailed
  | NodeNotPaired
  | AuthorizationExpired
  | DataPlaneUnauthorized
  | OperationConflict
  | RandomFailed
  | PreflightFailed
  | BackendNotBuilt
  | LosslessCaptureNotCertified
  | HelperUnauthorized
  | HelperNotConfigured
  | HelperTransportFailed
  | HelperExecutionFailed
  | CaptureFormatInvalid
  | CaptureReadFailed

text \<open>\<open>ErrorCode::as_str\<close>.\<close>

fun as_str :: "error_code \<Rightarrow> string" where
  "as_str InvalidArgument = ''CLI.INVALID_ARGUMENT''"
| "as_str ProbeFailed = ''DATAPLANE.PROBE_FAILED''"
| "as_str Unsupported = ''PLATFORM.UNSUPPORTED''"
| "as_str StorageFailed = ''STORAGE.DATABASE_FAILED''"
| "as_str AgentUnavailable = ''AGENT.UNAVAILABLE''"
| "as_str ActionUnsupported = ''ACTION.UNSUPPORTED''"
| "as_str ResourceConflict = ''RESOURCE.CONFLICT''"
| "as_str InvalidState = ''ACTION.INVALID_STATE''"
| "as_str RollbackFailed = ''SAFE_APPLY.ROLLBACK_FAILED''"
| "as_str PersistenceFailed = ''HELPER.PERSISTENCE_FAILED''"
| "as_str SpeedFailed = ''SPEED.ENGINE_FAILED''"
| "as_str ProtocolInvalid = ''PROTOCOL.INVALID_MESSAGE''"
| "as_str ControlFrameTooLarge = ''PROTOCOL.CONTROL_FRAME_TOO_LARGE''"
| "as_str ProtocolUnsupportedFlag = ''PROTOCOL.UNSUPPORTED_FLAG''"
| "as_str ProtocolIncompatible = ''PROTOCOL.MAJOR_INCOMPATIBLE''"
| "as_str NodeTransportFailed = ''NODE.TRANSPORT_FAILED''"
| "as_str NodeTlsFailed = ''NODE.TLS_FAILED''"
| "as_str NodeNotPaired = ''NODE.NOT_PAIRED''"
| "as_str AuthorizationExpired = ''NODE.AUTHORIZATION_EXPIRED''"
| "as_str DataPlaneUnauthorized = ''NODE.DATA_PLANE_UNAUTHORIZED''"
| "as_str OperationConflict = ''OPERATION.ID_CONFLICT''"
| "as_str RandomFailed = ''SECURITY.RANDOM_FAILED''"
| "as_str PreflightFailed = ''DATAPLANE.PREFLIGHT_FAILED''"
| "as_str BackendNotBuilt = ''DATAPLANE.BACKEND_NOT_BUILT''"
| "as_str LosslessCaptureNotCertified = ''LOSSLESS_CAPTURE_NOT_CERTIFIED''"
| "as_str HelperUnauthorized = ''HELPER.UNAUTHORIZED''"
| "as_str HelperNotConfigured = ''HELPER.NOT_CONFIGURED''"
| "as_str HelperTransportFailed = ''HELPER.TRANSPORT_FAILED''"
| "as_str HelperExecutionFailed = ''HELPER.EXECUTION_FAILED''"
| "as_str CaptureFormatInvalid = ''CAPTURE.FORMAT_INVALID''"
| "as_str CaptureReadFailed = ''CAPTURE.READ_FAILED''"

text \<open>\<open>NetToolError\<close>, its constructor \<open>NetToolError::new\<close> and its \<open>Display\<close>; the details are a
  \<open>BTreeMap\<close>, an association list in key order.\<close>

record nettool_error =
  code :: error_code
  message :: string
  retryable :: bool
  details :: "(string \<times> string) list"

definition new_error :: "error_code \<Rightarrow> string \<Rightarrow> bool \<Rightarrow> nettool_error" where
  "new_error c m r = \<lparr>code = c, message = m, retryable = r, details = []\<rparr>"

definition error_display :: "nettool_error \<Rightarrow> string" where
  "error_display e = as_str (code e) @ '': '' @ message e"

type_synonym 'a result = "(nettool_error, 'a) outcome"

lemma new_error_sel [simp]:
  "code (new_error c m r) = c" "message (new_error c m r) = m"
  "retryable (new_error c m r) = r" "details (new_error c m r) = []"
  by (simp_all add: new_error_def)

text \<open>The names are stable identifiers: distinct codes never share one, and none contains the
  separator the display form puts after it.\<close>

lemma as_str_no_colon: "CHR '':'' \<notin> set (as_str c)"
  by (cases c) simp_all

definition all_error_codes :: "error_code list" where
  "all_error_codes =
     [InvalidArgument, ProbeFailed, Unsupported, StorageFailed, AgentUnavailable,
      ActionUnsupported, ResourceConflict, InvalidState, RollbackFailed, PersistenceFailed,
      SpeedFailed, ProtocolInvalid, ControlFrameTooLarge, ProtocolUnsupportedFlag, ProtocolIncompatible,
      NodeTransportFailed, NodeTlsFailed, NodeNotPaired, AuthorizationExpired, DataPlaneUnauthorized,
      OperationConflict, RandomFailed, PreflightFailed, BackendNotBuilt, LosslessCaptureNotCertified,
      HelperUnauthorized, HelperNotConfigured, HelperTransportFailed, HelperExecutionFailed, CaptureFormatInvalid,
      CaptureReadFailed]"

lemma all_error_codes_complete: "c \<in> set all_error_codes"
  by (cases c) (simp_all add: all_error_codes_def)

lemma distinct_as_str: "distinct (map as_str all_error_codes)"
  by code_simp

lemma as_str_inject [simp]: "as_str c = as_str d \<longleftrightarrow> c = d"
  using distinct_as_str all_error_codes_complete [of c] all_error_codes_complete [of d]
  by (auto simp: distinct_map dest: inj_onD)

lemma as_str_prefix: "takeWhile (\<lambda>ch. ch \<noteq> CHR '':'') (error_display e) = as_str (code e)"
proof -
  have "\<And>ch. ch \<in> set (as_str (code e)) \<Longrightarrow> ch \<noteq> CHR '':''"
    using as_str_no_colon by metis
  then show ?thesis by (simp add: error_display_def takeWhile_append2)
qed

text \<open>
  The display form of an error is unambiguous: two errors that print the same have the same
  code and the same message, so a client can recover the stable code from the printed text.
\<close>

theorem error_display_unambiguous:
  "error_display e = error_display f \<longleftrightarrow> code e = code f \<and> message e = message f"
proof
  assume eq: "error_display e = error_display f"
  then have "as_str (code e) = as_str (code f)" by (metis as_str_prefix)
  with eq show "code e = code f \<and> message e = message f" by (simp add: error_display_def)
qed (simp add: error_display_def)

end
