(* ===== verification/Node_Protocol.thy ===== *)
theory Node_Protocol
  imports Error_Model "HOL-Library.Sublist"
begin

text \<open>
  The node control protocol (src/crates/node-protocol/src): the NTCP frame codec of frame.rs, the
  version and capability negotiation of negotiation.rs, the connection state machine of state.rs
  and the trust decision of trust.rs.  The Protobuf codec of \<open>Envelope\<close> is generated by the
  prost crate and the digest is the sha2 crate's: both are arguments of the definitions.
\<close>

section \<open>Control frames (frame.rs)\<close>

definition frame_magic :: bytes where
  "frame_magic = str_bytes ''NTCP''"

definition FRAMING_VERSION :: u8 where
  "FRAMING_VERSION = 1"

definition CONTROL_HEADER_BYTES :: nat where
  "CONTROL_HEADER_BYTES = 12"

definition MAX_CONTROL_PAYLOAD_BYTES :: nat where
  "MAX_CONTROL_PAYLOAD_BYTES = 1024 * 1024"

definition frame_error :: "error_code \<Rightarrow> string \<Rightarrow> nettool_error" where
  "frame_error c m = new_error c m False"

definition encode_frame :: "('e \<Rightarrow> bytes) \<Rightarrow> 'e \<Rightarrow> bytes result" where
  "encode_frame encode_to_vec envelope =
     (let payload = encode_to_vec envelope in
      if length payload > MAX_CONTROL_PAYLOAD_BYTES then
        Err (frame_error ControlFrameTooLarge ''control payload exceeds 1 MiB'')
      else
        and_then
          (ok_or (frame_error ControlFrameTooLarge ''control payload length overflow'')
             (try_from_nat (length payload) :: u32 option))
          (\<lambda>len. Ok (frame_magic @ [FRAMING_VERSION] @ [0] @ [0, 0]
                     @ to_be_bytes 4 len @ payload)))"

definition decode_frame :: "(bytes \<Rightarrow> string + 'e) \<Rightarrow> bytes \<Rightarrow> 'e result" where
  "decode_frame decode frame =
     (if length frame < CONTROL_HEADER_BYTES then
        Err (frame_error ProtocolInvalid ''control frame header is truncated'')
      else and_then (slice_to frame 4) (\<lambda>magic.
      if magic \<noteq> frame_magic then
        Err (frame_error ProtocolInvalid ''control frame magic is invalid'')
      else and_then (index_at frame 4) (\<lambda>version.
      if version \<noteq> FRAMING_VERSION then
        Err (frame_error ProtocolIncompatible ''control framing version is unsupported'')
      else and_then (index_at frame 5) (\<lambda>flags.
      if flags \<noteq> 0 then
        Err (frame_error ProtocolUnsupportedFlag ''control frame contains unsupported flags'')
      else and_then (index_at frame 6) (\<lambda>reserved0. and_then (index_at frame 7) (\<lambda>reserved1.
      if reserved0 \<noteq> 0 \<or> reserved1 \<noteq> 0 then
        Err (frame_error ProtocolInvalid ''control frame reserved field must be zero'')
      else and_then (slice_range frame 8 12) (\<lambda>length_bytes.
      let payload_length = unat (from_be_bytes length_bytes :: u32) in
      if payload_length > MAX_CONTROL_PAYLOAD_BYTES then
        Err (frame_error ControlFrameTooLarge ''control payload exceeds 1 MiB'')
      else if length frame \<noteq> CONTROL_HEADER_BYTES + payload_length then
        Err (frame_error ProtocolInvalid ''control payload length does not match frame'')
      else and_then (slice_from frame CONTROL_HEADER_BYTES) (\<lambda>payload.
        map_err
          (\<lambda>reason. frame_error ProtocolInvalid (''invalid control protobuf: '' @ reason))
          (from_result (decode payload))))))))))"

text \<open>The layout of a frame, and the two directions of the codec against it.\<close>

definition control_frame :: "bytes \<Rightarrow> bytes" where
  "control_frame payload =
     frame_magic @ [FRAMING_VERSION, 0, 0, 0]
     @ to_be_bytes 4 (of_nat (length payload) :: u32) @ payload"

definition decode_payload :: "(bytes \<Rightarrow> string + 'e) \<Rightarrow> bytes \<Rightarrow> 'e result" where
  "decode_payload decode payload =
     map_err (\<lambda>reason. frame_error ProtocolInvalid (''invalid control protobuf: '' @ reason))
       (from_result (decode payload))"

lemmas frame_defs =
  frame_magic_def FRAMING_VERSION_def CONTROL_HEADER_BYTES_def MAX_CONTROL_PAYLOAD_BYTES_def

lemma length_frame_magic [simp]: "length frame_magic = 4"
  by (simp add: frame_magic_def)

lemma encode_frame_eq:
  "encode_frame enc e =
     (if length (enc e) > MAX_CONTROL_PAYLOAD_BYTES
      then Err (frame_error ControlFrameTooLarge ''control payload exceeds 1 MiB'')
      else Ok (control_frame (enc e)))"
  by (auto simp: encode_frame_def control_frame_def MAX_CONTROL_PAYLOAD_BYTES_def
      try_from_nat_def Let_def)

lemma u32_length_bytes:
  "length payload \<le> MAX_CONTROL_PAYLOAD_BYTES \<Longrightarrow>
     unat (from_be_bytes (to_be_bytes 4 (of_nat (length payload) :: u32)) :: u32) = length payload"
  by (simp add: from_be_bytes_to_be_bytes MAX_CONTROL_PAYLOAD_BYTES_def unat_of_nat)

lemma control_frame_parts:
  "length (control_frame p) = 12 + length p"
  "take 4 (control_frame p) = frame_magic"
  "control_frame p ! 4 = FRAMING_VERSION" "control_frame p ! 5 = 0"
  "control_frame p ! 6 = 0" "control_frame p ! 7 = 0"
  "take 4 (drop 8 (control_frame p)) = to_be_bytes 4 (of_nat (length p) :: u32)"
  "drop 12 (control_frame p) = p"
  by (simp_all add: control_frame_def nth_append)

lemma decode_control_frame:
  assumes "length p \<le> MAX_CONTROL_PAYLOAD_BYTES"
  shows "decode_frame dec (control_frame p) = decode_payload dec p"
  using assms
  by (simp add: decode_frame_def decode_payload_def control_frame_parts CONTROL_HEADER_BYTES_def
      u32_length_bytes Let_def)

lemma frame_split:
  assumes "12 \<le> length frame"
  shows "frame = take 4 frame @ [frame ! 4, frame ! 5, frame ! 6, frame ! 7]
                 @ take 4 (drop 8 frame) @ drop 12 frame"
proof -
  have "drop 4 frame = frame ! 4 # drop 5 frame" "drop 5 frame = frame ! 5 # drop 6 frame"
    "drop 6 frame = frame ! 6 # drop 7 frame" "drop 7 frame = frame ! 7 # drop 8 frame"
    using assms Cons_nth_drop_Suc [of 4 frame] Cons_nth_drop_Suc [of 5 frame]
      Cons_nth_drop_Suc [of 6 frame] Cons_nth_drop_Suc [of 7 frame] by simp_all
  moreover have "drop 8 frame = take 4 (drop 8 frame) @ drop 12 frame"
    using append_take_drop_id [of 4 "drop 8 frame"] by simp
  moreover have "frame = take 4 frame @ drop 4 frame"
    by simp
  ultimately show ?thesis by (metis append_Cons append_Nil)
qed

lemma decode_frame_cases:
  obtains (reject) err where "decode_frame dec frame = Err err"
  | (frame) p where "frame = control_frame p" "length p \<le> MAX_CONTROL_PAYLOAD_BYTES"
      "decode_frame dec frame = decode_payload dec p"
proof (cases "\<exists>err. decode_frame dec frame = Err err")
  case True
  then show ?thesis using reject by blast
next
  case False
  define n where "n = unat (from_be_bytes (take 4 (drop 8 frame)) :: u32)"
  note [simp] = CONTROL_HEADER_BYTES_def n_def [symmetric]
  have len: "12 \<le> length frame"
    by (rule ccontr) (use False in \<open>simp add: decode_frame_def not_le\<close>)
  have magic: "take 4 frame = frame_magic"
    by (rule ccontr) (use False len in \<open>simp add: decode_frame_def\<close>)
  have version: "frame ! 4 = FRAMING_VERSION"
    by (rule ccontr) (use False len magic in \<open>simp add: decode_frame_def\<close>)
  have flags: "frame ! 5 = 0"
    by (rule ccontr) (use False len magic version in \<open>simp add: decode_frame_def\<close>)
  have reserved: "frame ! 6 = 0 \<and> frame ! 7 = 0"
    by (rule ccontr) (use False len magic version flags in \<open>simp add: decode_frame_def\<close>)
  have bound: "n \<le> MAX_CONTROL_PAYLOAD_BYTES"
    by (rule ccontr) (use False len magic version flags reserved in \<open>simp add: decode_frame_def\<close>)
  have total: "length frame = 12 + n"
    by (rule ccontr)
      (use False len magic version flags reserved bound in \<open>simp add: decode_frame_def Let_def\<close>)
  note parts = magic version flags reserved bound total
  have "to_be_bytes 4 (of_nat (unat (from_be_bytes (take 4 (drop 8 frame)) :: u32)) :: u32)
      = take 4 (drop 8 frame)"
    using len by (simp add: to_be_bytes_from_be_bytes del: n_def [symmetric])
  then have "control_frame (drop 12 frame) =
      take 4 frame @ [frame ! 4, frame ! 5, frame ! 6, frame ! 7]
        @ take 4 (drop 8 frame) @ drop 12 frame"
    using parts by (simp add: control_frame_def)
  then have form: "frame = control_frame (drop 12 frame)"
    using frame_split [OF len] by simp
  have small: "length (drop 12 frame) \<le> MAX_CONTROL_PAYLOAD_BYTES"
    using bound total by simp
  show ?thesis
    using frame [OF form small] decode_control_frame [OF small, of dec] form by metis
qed

text \<open>
  C31.  Frame round trip: with a Protobuf codec that decodes what it encodes, every envelope of at
  most 1 MiB is encoded into a frame that \<open>decode_frame\<close> maps back to the envelope.
\<close>

theorem frame_round_trip:
  assumes codec: "\<And>e. decode (encode_to_vec e) = Inr e"
    and size: "length (encode_to_vec envelope) \<le> MAX_CONTROL_PAYLOAD_BYTES"
  shows "\<exists>frame. encode_frame encode_to_vec envelope = Ok frame
           \<and> length frame = CONTROL_HEADER_BYTES + length (encode_to_vec envelope)
           \<and> decode_frame decode frame = Ok envelope"
  using assms
  by (simp add: encode_frame_eq decode_control_frame decode_payload_def control_frame_parts
      CONTROL_HEADER_BYTES_def)

theorem frame_round_trip_witness:
  "\<exists>frame. encode_frame (\<lambda>e :: bytes. e) [1, 2, 3] = Ok frame
     \<and> length frame = 15
     \<and> decode_frame Inr frame = Ok [1, 2, 3 :: u8]"
  using frame_round_trip [of Inr "\<lambda>e :: bytes. e" "[1, 2, 3]"]
  by (simp add: MAX_CONTROL_PAYLOAD_BYTES_def CONTROL_HEADER_BYTES_def)

text \<open>
  C11.  \<open>decode_frame\<close> accepts exactly the well-formed frames: it returns an envelope if and only
  if the input is the magic, version 1, zero flags and reserved bytes, the big-endian length of a
  payload of at most 1 MiB, and that payload, and the payload decodes to the envelope.  No input
  makes it panic.
\<close>

theorem decode_frame_exact:
  "(decode_frame decode frame = Ok envelope \<longleftrightarrow>
      (\<exists>payload. length payload \<le> MAX_CONTROL_PAYLOAD_BYTES
         \<and> frame = str_bytes ''NTCP'' @ [1, 0, 0, 0]
                    @ to_be_bytes 4 (of_nat (length payload) :: u32) @ payload
         \<and> decode payload = Inr envelope))
   \<and> decode_frame decode frame \<noteq> Panic"
proof (cases rule: decode_frame_cases [of decode frame])
  case (reject err)
  have "\<not> (\<exists>payload. length payload \<le> MAX_CONTROL_PAYLOAD_BYTES \<and> frame = control_frame payload
            \<and> decode payload = Inr envelope)"
    using reject by (auto simp: decode_control_frame decode_payload_def)
  with reject show ?thesis by (simp add: control_frame_def frame_defs)
next
  case (frame p)
  have "q = p" if "control_frame q = control_frame p" for q
    using that by (metis control_frame_parts(8))
  with frame show ?thesis
    by (auto simp: decode_payload_def outcome_simps control_frame_def frame_defs)
qed

section \<open>Version and capability negotiation (negotiation.rs)\<close>

record protocol_range =
  major :: u32
  min_minor :: u32
  max_minor :: u32



definition incompatible :: "string \<Rightarrow> nettool_error" where
  "incompatible m = new_error ProtocolIncompatible m False"

definition negotiate_version :: "protocol_range \<Rightarrow> protocol_range \<Rightarrow> (u32 \<times> u32) result" where
  "negotiate_version local remote =
     (if major local \<noteq> major remote then
        Err (incompatible ''node protocol major is incompatible'')
      else if min_minor local > max_minor local \<or> min_minor remote > max_minor remote then
        Err (incompatible ''node protocol minor range is invalid'')
      else
        let minimum = max (min_minor local) (min_minor remote);
            maximum = min (max_minor local) (max_minor remote) in
        if minimum > maximum then Err (incompatible ''nodes have no common protocol minor'')
        else Ok (major local, maximum))"













lemma greatest_in_range:
  fixes a b v :: "'a::linorder"
  shows "(a \<le> v \<and> v \<le> b) \<and> (\<forall>w. a \<le> w \<and> w \<le> b \<longrightarrow> w \<le> v) \<longleftrightarrow> a \<le> b \<and> v = b"
  by (auto intro: order.trans antisym)








definition in_minor_range :: "protocol_range \<Rightarrow> u32 \<Rightarrow> bool" where
  "in_minor_range p m \<longleftrightarrow> min_minor p \<le> m \<and> m \<le> max_minor p"

text \<open>
  Version negotiation succeeds with \<open>(major, minor)\<close> exactly when both nodes speak that major
  and \<open>minor\<close> is the greatest minor in both ranges; every other outcome is the stable
  incompatibility error.
\<close>

theorem negotiate_version_correct:
  "(negotiate_version local remote = Ok (mj, mn) \<longleftrightarrow>
      major local = mj \<and> major remote = mj \<and> in_minor_range local mn \<and> in_minor_range remote mn
      \<and> (\<forall>m. in_minor_range local m \<and> in_minor_range remote m \<longrightarrow> m \<le> mn))
   \<and> ((\<exists>v. negotiate_version local remote = Ok v)
      \<or> (\<exists>m. negotiate_version local remote = Err (incompatible m)))"
proof -
  let ?mx = "min (max_minor local) (max_minor remote)"
    and ?mn = "max (min_minor local) (min_minor remote)"
  have sup: "in_minor_range local m \<and> in_minor_range remote m \<longleftrightarrow> ?mn \<le> m \<and> m \<le> ?mx" for m
    by (auto simp: in_minor_range_def)
  have "(in_minor_range local mn \<and> in_minor_range remote mn)
      \<and> (\<forall>m. in_minor_range local m \<and> in_minor_range remote m \<longrightarrow> m \<le> mn)
      \<longleftrightarrow> ?mn \<le> ?mx \<and> mn = ?mx"
    unfolding sup by (rule greatest_in_range)
  moreover have "negotiate_version local remote = Ok (mj, mn) \<longleftrightarrow>
      major local = mj \<and> major remote = mj \<and> ?mn \<le> ?mx \<and> mn = ?mx"
    by (auto simp: negotiate_version_def Let_def not_less min_less_iff_disj less_max_iff_disj)
  moreover have "(\<exists>v. negotiate_version local remote = Ok v)
      \<or> (\<exists>m. negotiate_version local remote = Err (incompatible m))"
    by (auto simp: negotiate_version_def Let_def)
  ultimately show ?thesis by blast
qed

theorem negotiate_version_correct_witness:
  "negotiate_version \<lparr>major = 1, min_minor = 0, max_minor = 3\<rparr>
     \<lparr>major = 1, min_minor = 1, max_minor = 2\<rparr> = Ok (1, 2)
   \<and> in_minor_range \<lparr>major = 1, min_minor = 0, max_minor = 3\<rparr> 2
   \<and> in_minor_range \<lparr>major = 1, min_minor = 1, max_minor = 2\<rparr> 2"
proof -
  have "negotiate_version \<lparr>major = 1, min_minor = 0, max_minor = 3\<rparr>
     \<lparr>major = 1, min_minor = 1, max_minor = 2\<rparr> = Ok (1, 2)"
    by code_simp
  then show ?thesis
    using negotiate_version_correct [of "\<lparr>major = 1, min_minor = 0, max_minor = 3\<rparr>"
        "\<lparr>major = 1, min_minor = 1, max_minor = 2\<rparr>" 1 2] by blast
qed

section \<open>Connection state machine (state.rs)\<close>

datatype node_connection_state =
    Disconnected
  | Connecting
  | TlsHandshake
  | Hello
  | Authenticating
  | CapabilityNegotiation
  | Ready
  | Preparing
  | TestReady
  | Running
  | Finalizing
  | Completed
  | Failed
  | Canceled

record node_state_machine =
  state :: node_connection_state

fun allowed :: "node_connection_state \<Rightarrow> node_connection_state \<Rightarrow> bool" where
  "allowed Disconnected next = (next = Connecting)"
| "allowed Connecting next = (next = TlsHandshake \<or> next = Failed)"
| "allowed TlsHandshake next = (next = Hello \<or> next = Failed)"
| "allowed Hello next = (next = Authenticating \<or> next = Failed)"
| "allowed Authenticating next = (next = CapabilityNegotiation \<or> next = Failed)"
| "allowed CapabilityNegotiation next = (next = Ready \<or> next = Failed)"
| "allowed Ready next = (next = Preparing \<or> next = Failed)"
| "allowed Preparing next = (next = TestReady \<or> next = Failed \<or> next = Canceled)"
| "allowed TestReady next = (next = Running \<or> next = Failed \<or> next = Canceled)"
| "allowed Running next = (next = Finalizing \<or> next = Failed \<or> next = Canceled)"
| "allowed Finalizing next = (next = Completed \<or> next = Failed \<or> next = Canceled)"
| "allowed Completed next = (next = Ready)"
| "allowed Failed next = (next = Disconnected)"
| "allowed Canceled next = (next = Disconnected)"

text \<open>The derived \<open>Debug\<close> names the error message prints.\<close>

fun state_debug :: "node_connection_state \<Rightarrow> string" where
  "state_debug Disconnected = ''Disconnected''"
| "state_debug Connecting = ''Connecting''"
| "state_debug TlsHandshake = ''TlsHandshake''"
| "state_debug Hello = ''Hello''"
| "state_debug Authenticating = ''Authenticating''"
| "state_debug CapabilityNegotiation = ''CapabilityNegotiation''"
| "state_debug Ready = ''Ready''"
| "state_debug Preparing = ''Preparing''"
| "state_debug TestReady = ''TestReady''"
| "state_debug Running = ''Running''"
| "state_debug Finalizing = ''Finalizing''"
| "state_debug Completed = ''Completed''"
| "state_debug Failed = ''Failed''"
| "state_debug Canceled = ''Canceled''"

definition new_machine :: node_state_machine where
  "new_machine = \<lparr>state = Disconnected\<rparr>"

definition transition ::
  "node_state_machine \<Rightarrow> node_connection_state \<Rightarrow> unit result \<times> node_state_machine" where
  "transition self next =
     (if \<not> allowed (state self) next then
        (Err (new_error InvalidState
            (''invalid node state transition: '' @ state_debug (state self) @ '' -> ''
             @ state_debug next) False), self)
      else (Ok (), self\<lparr>state := next\<rparr>))"

text \<open>
  A run of the machine, with the states entered since the machine was last disconnected.  A
  rejected request leaves both as they are.
\<close>

definition node_init :: "node_state_machine \<times> node_connection_state list \<Rightarrow> bool" where
  "node_init s \<longleftrightarrow> s = (new_machine, [])"

definition node_step ::
  "node_state_machine \<times> node_connection_state list \<Rightarrow> node_connection_state
     \<Rightarrow> node_state_machine \<times> node_connection_state list \<Rightarrow> bool" where
  "node_step s next t \<longleftrightarrow>
     (case transition (fst s) next of
        (Ok _, m) \<Rightarrow> t = (m, if next = Disconnected then [] else snd s @ [next])
      | (_, m) \<Rightarrow> t = (m, snd s))"

text \<open>The states every connection passes on its way to a state, in order.\<close>

definition connection_path :: "node_connection_state list" where
  "connection_path =
     [Connecting, TlsHandshake, Hello, Authenticating, CapabilityNegotiation, Ready, Preparing,
      TestReady, Running, Finalizing, Completed]"

definition required_path :: "node_connection_state \<Rightarrow> node_connection_state list" where
  "required_path s =
     (if s \<in> set connection_path then takeWhile (\<lambda>x. x \<noteq> s) connection_path @ [s] else [])"

definition node_inv :: "node_state_machine \<times> node_connection_state list \<Rightarrow> bool" where
  "node_inv s \<longleftrightarrow> subseq (required_path (state (fst s))) (snd s)"

lemma required_path_allowed:
  "allowed s n \<Longrightarrow> n = Disconnected \<or> required_path n = []
     \<or> required_path n = required_path s @ [n] \<or> (s = Completed \<and> n = Ready)"
  by (cases s) (auto simp: required_path_def connection_path_def)

interpretation node: invariant_system node_init node_step node_inv
proof
  show "node_inv s" if "node_init s" for s
    using that by (simp add: node_init_def node_inv_def new_machine_def required_path_def
        connection_path_def)
next
  fix s l t
  assume inv: "node_inv s" and step: "node_step s l t"
  have ready: "subseq (required_path Ready) (h @ [Ready])" if "subseq (required_path Completed) h" for h
  proof -
    have "required_path Ready = required_path CapabilityNegotiation @ [Ready]"
      and "subseq (required_path CapabilityNegotiation) (required_path Completed)"
      by (simp_all add: required_path_def connection_path_def)
    then show ?thesis
      using that by (metis subseq_order.trans list_emb_append_mono subseq_order.order_refl)
  qed
  show "node_inv t"
  proof (cases "allowed (state (fst s)) l")
    case True
    have t: "t = (\<lparr>state = l\<rparr>, if l = Disconnected then [] else snd s @ [l])"
      using step True by (cases "fst s") (simp add: node_step_def transition_def)
    have none: "required_path Disconnected = []"
      by (simp add: required_path_def connection_path_def)
    from required_path_allowed [OF True] show ?thesis
      using inv none ready unfolding t node_inv_def
      by (auto intro: list_emb_append_mono)
  next
    case False
    then show ?thesis
      using step inv by (simp add: node_step_def transition_def node_inv_def)
  qed
qed

text \<open>
  C32.  A node runs a test only over a connection that was set up completely: whenever the machine
  is in \<open>Running\<close>, the states entered since it was last disconnected include, in this order, the
  TCP connection, the TLS handshake, the Hello exchange, authentication of the peer, capability
  negotiation, readiness, and the preparation of the test.
\<close>

theorem running_after_complete_setup:
  assumes "reachable node_init node_step (m, entered)" "state m = Running"
  shows "subseq [Connecting, TlsHandshake, Hello, Authenticating, CapabilityNegotiation, Ready,
                 Preparing, TestReady, Running] entered"
  using node.reachable_inv [OF assms(1)] assms(2)
  by (simp add: node_inv_def required_path_def connection_path_def)

theorem running_after_complete_setup_witness:
  "reachable node_init node_step (\<lparr>state = Running\<rparr>, take 9 connection_path)
   \<and> subseq [Connecting, TlsHandshake, Hello, Authenticating, CapabilityNegotiation, Ready,
             Preparing, TestReady, Running] (take 9 connection_path)"
proof -
  note go = reachable_step [where init = node_init and step = node_step]
  have "reachable node_init node_step (\<lparr>state = Disconnected\<rparr>, [])"
    by (rule reachable_init) (simp add: node_init_def new_machine_def)
  note go [OF this, of Connecting "(\<lparr>state = Connecting\<rparr>, take 1 connection_path)"]
  note go [OF this, of TlsHandshake "(\<lparr>state = TlsHandshake\<rparr>, take 2 connection_path)"]
  note go [OF this, of Hello "(\<lparr>state = Hello\<rparr>, take 3 connection_path)"]
  note go [OF this, of Authenticating "(\<lparr>state = Authenticating\<rparr>, take 4 connection_path)"]
  note go [OF this, of CapabilityNegotiation
      "(\<lparr>state = CapabilityNegotiation\<rparr>, take 5 connection_path)"]
  note go [OF this, of Ready "(\<lparr>state = Ready\<rparr>, take 6 connection_path)"]
  note go [OF this, of Preparing "(\<lparr>state = Preparing\<rparr>, take 7 connection_path)"]
  note go [OF this, of TestReady "(\<lparr>state = TestReady\<rparr>, take 8 connection_path)"]
  note go [OF this, of Running "(\<lparr>state = Running\<rparr>, take 9 connection_path)"]
  then have r: "reachable node_init node_step (\<lparr>state = Running\<rparr>, take 9 connection_path)"
    by (simp add: node_step_def transition_def connection_path_def)
  with running_after_complete_setup [OF r] show ?thesis by simp
qed

section \<open>Trust decision (trust.rs)\<close>

datatype trust_decision = PairingRequired | Trusted | IdentityChanged

definition hex_upper :: "nat \<Rightarrow> char" where
  "hex_upper d = (if d < 10 then char_of (48 + d) else char_of (55 + d))"

text \<open>The format \<open>{byte:02X}\<close>, and \<open>join(":")\<close>.\<close>

definition format_02X :: "u8 \<Rightarrow> string" where
  "format_02X b = [hex_upper (unat b div 16), hex_upper (unat b mod 16)]"

fun join :: "string \<Rightarrow> string list \<Rightarrow> string" where
  "join sep [] = []"
| "join sep [x] = x"
| "join sep (x # y # xs) = x @ sep @ join sep (y # xs)"

definition fingerprint_sha256 :: "(bytes \<Rightarrow> bytes) \<Rightarrow> bytes \<Rightarrow> string" where
  "fingerprint_sha256 sha256 public_key_der = join '':'' (map format_02X (sha256 public_key_der))"

definition to_ascii_lower :: "char \<Rightarrow> char" where
  "to_ascii_lower c =
     (let n = of_char c :: nat in if 65 \<le> n \<and> n \<le> 90 then char_of (n + 32) else c)"

definition eq_ignore_ascii_case :: "string \<Rightarrow> string \<Rightarrow> bool" where
  "eq_ignore_ascii_case s t \<longleftrightarrow> map to_ascii_lower s = map to_ascii_lower t"

definition verify_identity :: "string option \<Rightarrow> string \<Rightarrow> trust_decision" where
  "verify_identity stored_fingerprint presented_fingerprint =
     (case stored_fingerprint of
        None \<Rightarrow> PairingRequired
      | Some stored \<Rightarrow>
          if eq_ignore_ascii_case stored presented_fingerprint then Trusted else IdentityChanged)"

definition lower_hex :: "nat \<Rightarrow> char" where
  "lower_hex d = to_ascii_lower (hex_upper d)"

lemma distinct_lower_hex: "distinct (map lower_hex [0..<16])"
  by code_simp

lemma lower_hex_inject: "d < 16 \<Longrightarrow> e < 16 \<Longrightarrow> lower_hex d = lower_hex e \<Longrightarrow> d = e"
  using distinct_lower_hex by (auto simp: distinct_map dest: inj_onD)

lemma lower_format_02X_inject:
  assumes "map to_ascii_lower (format_02X a) = map to_ascii_lower (format_02X b)"
  shows "a = b"
proof -
  have bound: "unat a div 16 < 16" "unat b div 16 < 16"
    using unat_u8_bound [of a] unat_u8_bound [of b] by auto
  have "unat a div 16 = unat b div 16" "unat a mod 16 = unat b mod 16"
    using assms bound
    by (auto simp: format_02X_def lower_hex_def [symmetric] intro: lower_hex_inject)
  then show ?thesis by (metis div_mod_decomp word_unat_eq_iff)
qed

lemma length_format_02X [simp]: "length (format_02X b) = 2"
  by (simp add: format_02X_def)

lemma length_join_02X:
  "length (join '':'' (map format_02X ds)) = (if ds = [] then 0 else 3 * length ds - 1)"
  by (induction ds rule: induct_list012) auto

lemma lower_join_02X_inject:
  "map to_ascii_lower (join '':'' (map format_02X as)) =
     map to_ascii_lower (join '':'' (map format_02X bs)) \<Longrightarrow> as = bs"
proof (induction as arbitrary: bs)
  case Nil
  then have "length (join '':'' (map format_02X bs)) = 0" by simp
  then show ?case using length_join_02X [of bs] by (cases bs) auto
next
  case (Cons a as)
  have len: "length (a # as) = length bs"
    using map_eq_imp_length_eq [OF Cons.prems]
    unfolding length_join_02X by (auto split: if_splits)
  then obtain b bs' where bs: "bs = b # bs'" by (cases bs) auto
  show ?case
  proof (cases as)
    case Nil
    then show ?thesis using Cons.prems len bs by (auto dest: lower_format_02X_inject)
  next
    case (Cons a2 as2)
    then obtain b2 bs2 where "bs' = b2 # bs2" using len bs by (cases bs') auto
    then show ?thesis
      using Cons.prems Cons.IH [of bs'] bs Cons by (auto dest: lower_format_02X_inject)
  qed
qed

text \<open>
  The trust decision compares complete digests: a stored fingerprint matches a presented one
  exactly when the digests of the two public keys are equal, an unknown node always requires
  pairing, and a node whose digest changed is never trusted.
\<close>

theorem verify_identity_compares_digests:
  "verify_identity (Some (fingerprint_sha256 sha256 stored_key)) (fingerprint_sha256 sha256 key) =
     (if sha256 stored_key = sha256 key then Trusted else IdentityChanged)
   \<and> verify_identity None (fingerprint_sha256 sha256 key) = PairingRequired"
  by (auto simp: verify_identity_def fingerprint_sha256_def eq_ignore_ascii_case_def
      dest: lower_join_02X_inject)

end
