(* ===== verification/Net_Types.thy ===== *)
theory Net_Types
  imports Nettool_Prelude
begin

text \<open>
  Network types the components share: IP addresses as \<open>std::net::IpAddr\<close> has them, with the
  derived order (every IPv4 address before every IPv6 address, then numerically, which is the
  order of the octets) and their octets in network byte order.
\<close>

datatype ip_addr = V4 u32 | V6 u128

fun ip_addr_less_eq :: "ip_addr \<Rightarrow> ip_addr \<Rightarrow> bool" where
  "ip_addr_less_eq (V4 a) (V4 b) = (a \<le> b)"
| "ip_addr_less_eq (V4 a) (V6 b) = True"
| "ip_addr_less_eq (V6 a) (V4 b) = False"
| "ip_addr_less_eq (V6 a) (V6 b) = (a \<le> b)"

instantiation ip_addr :: linorder
begin

definition less_eq_ip_addr :: "ip_addr \<Rightarrow> ip_addr \<Rightarrow> bool" where
  "less_eq_ip_addr a b = ip_addr_less_eq a b"

definition less_ip_addr :: "ip_addr \<Rightarrow> ip_addr \<Rightarrow> bool" where
  "less_ip_addr a b = (ip_addr_less_eq a b \<and> \<not> ip_addr_less_eq b a)"

instance
proof
  fix x y z :: ip_addr
  show "(x < y) = (x \<le> y \<and> \<not> y \<le> x)" by (simp add: less_eq_ip_addr_def less_ip_addr_def)
  show "x \<le> x" by (cases x) (simp_all add: less_eq_ip_addr_def)
  show "x \<le> y \<Longrightarrow> y \<le> z \<Longrightarrow> x \<le> z"
    by (cases x; cases y; cases z) (simp_all add: less_eq_ip_addr_def)
  show "x \<le> y \<Longrightarrow> y \<le> x \<Longrightarrow> x = y"
    by (cases x; cases y) (simp_all add: less_eq_ip_addr_def)
  show "x \<le> y \<or> y \<le> x" by (cases x; cases y) (auto simp: less_eq_ip_addr_def)
qed

end

text \<open>\<open>Ipv4Addr::octets\<close> and \<open>Ipv6Addr::octets\<close>, and the constructors from octets.\<close>

fun ip_octets :: "ip_addr \<Rightarrow> bytes" where
  "ip_octets (V4 a) = to_be_bytes 4 a"
| "ip_octets (V6 a) = to_be_bytes 16 a"

definition ipv4_from_octets :: "bytes \<Rightarrow> ip_addr" where
  "ipv4_from_octets bs = V4 (from_be_bytes bs)"

definition ipv6_from_octets :: "bytes \<Rightarrow> ip_addr" where
  "ipv6_from_octets bs = V6 (from_be_bytes bs)"

fun is_ipv4 :: "ip_addr \<Rightarrow> bool" where
  "is_ipv4 (V4 _) = True"
| "is_ipv4 (V6 _) = False"

lemma ipv4_round_trip [bytes_simps]: "ipv4_from_octets (to_be_bytes 4 a) = V4 a"
  by (simp add: ipv4_from_octets_def from_be_bytes_to_be_bytes)

lemma ipv6_round_trip [bytes_simps]: "ipv6_from_octets (to_be_bytes 16 a) = V6 a"
  by (simp add: ipv6_from_octets_def from_be_bytes_to_be_bytes)

lemma length_ip_octets: "length (ip_octets a) = (if is_ipv4 a then 4 else 16)"
  by (cases a) simp_all

end
