(* ===== verification/Flow.thy ===== *)
theory Flow
  imports Net_Types Error_Model "HOL-Library.AList"
begin

text \<open>
  Flows (src/crates/packet/src/flow.rs): the canonical five-tuple key shared by both directions,
  the stable mapping of flows to worker shards, and the bounded worker-local flow table.  The
  \<open>HashMap\<close> of the table is an association list with distinct keys; the order in which it is
  iterated is not specified by the standard library and is an argument (\<open>iter\<close>) of the operation
  that depends on it.
\<close>

section \<open>Canonical keys\<close>

definition MAX_FLOW_TABLE_ENTRIES :: nat where
  "MAX_FLOW_TABLE_ENTRIES = 1000000"

record flow_tuple =
  source_ip :: ip_addr
  destination_ip :: ip_addr
  source_port :: u16
  destination_port :: u16
  tuple_protocol :: u8

datatype flow_direction = Forward | Reverse

record flow_key =
  first_ip :: ip_addr
  first_port :: u16
  second_ip :: ip_addr
  second_port :: u16
  key_protocol :: u8

definition canonical :: "flow_tuple \<Rightarrow> flow_key \<times> flow_direction" where
  "canonical tuple =
     (let source = (source_ip tuple, source_port tuple);
          destination = (destination_ip tuple, destination_port tuple) in
      if source \<le> destination then
        (\<lparr>first_ip = source_ip tuple, first_port = source_port tuple,
          second_ip = destination_ip tuple, second_port = destination_port tuple,
          key_protocol = tuple_protocol tuple\<rparr>, Forward)
      else
        (\<lparr>first_ip = destination_ip tuple, first_port = destination_port tuple,
          second_ip = source_ip tuple, second_port = source_port tuple,
          key_protocol = tuple_protocol tuple\<rparr>, Reverse))"

section \<open>Sharding\<close>

record flow_sharder =
  shard_count :: nat

definition new_sharder :: "nat \<Rightarrow> flow_sharder option" where
  "new_sharder n = (if n = 0 then None else Some \<lparr>shard_count = n\<rparr>)"

definition hash_bytes :: "u64 \<Rightarrow> bytes \<Rightarrow> u64" where
  "hash_bytes hash bs = foldl (\<lambda>hash byte. (hash XOR ucast byte) * 0x100000001b3) hash bs"

fun hash_ip :: "u64 \<Rightarrow> ip_addr \<Rightarrow> u64" where
  "hash_ip hash (V4 a) = hash_bytes (hash_bytes hash [4]) (ip_octets (V4 a))"
| "hash_ip hash (V6 a) = hash_bytes (hash_bytes hash [6]) (ip_octets (V6 a))"

definition flow_hash :: "flow_key \<Rightarrow> u64" where
  "flow_hash key =
     (let hash = hash_ip 0xcbf29ce484222325 (first_ip key);
          hash = hash_bytes hash (to_be_bytes 2 (first_port key));
          hash = hash_ip hash (second_ip key);
          hash = hash_bytes hash (to_be_bytes 2 (second_port key)) in
      hash_bytes hash [key_protocol key])"

definition shard_for :: "flow_sharder \<Rightarrow> flow_key \<Rightarrow> nat" where
  "shard_for self key = unat (flow_hash key mod clamp_from_nat (shard_count self))"

section \<open>The flow table\<close>

datatype flow_disposition = Existing | Created | CreatedAfterEviction

record flow_table_stats =
  lookups :: u64
  creations :: u64
  evictions :: u64

record 't flow_entry =
  flow_value :: 't
  last_seen_nanoseconds :: u64

type_synonym 't flow_entries = "(flow_key \<times> 't flow_entry) list"

record 't flow_table =
  entries :: "'t flow_entries"
  maximum_flows :: nat
  idle_timeout_nanoseconds :: u64
  table_stats :: flow_table_stats

text \<open>\<open>reserved\<close> is the outcome of the allocator's \<open>try_reserve\<close>.\<close>

definition new_flow_table :: "bool \<Rightarrow> nat \<Rightarrow> u64 \<Rightarrow> 't flow_table result" where
  "new_flow_table reserved max_flows idle_timeout =
     (if max_flows = 0 \<or> max_flows > MAX_FLOW_TABLE_ENTRIES \<or> idle_timeout = 0 then
        Err (new_error InvalidArgument
          ''flow table bounds must be between 1 and 1000000 and idle timeout must be greater than zero''
          False)
      else if \<not> reserved then
        Err (new_error ResourceConflict ''flow table capacity cannot be reserved'' False)
      else
        Ok \<lparr>entries = [], maximum_flows = max_flows, idle_timeout_nanoseconds = idle_timeout,
            table_stats = \<lparr>lookups = 0, creations = 0, evictions = 0\<rparr>\<rparr>)"

definition count_lookup :: "'t flow_table \<Rightarrow> 't flow_table" where
  "count_lookup self =
     self\<lparr>table_stats := table_stats self\<lparr>lookups := sat_add (lookups (table_stats self)) 1\<rparr>\<rparr>"

definition count_evictions :: "u64 \<Rightarrow> 't flow_table \<Rightarrow> 't flow_table" where
  "count_evictions n self =
     self\<lparr>table_stats := table_stats self\<lparr>evictions := sat_add (evictions (table_stats self)) n\<rparr>\<rparr>"

definition count_creation :: "'t flow_table \<Rightarrow> 't flow_table" where
  "count_creation self =
     self\<lparr>table_stats := table_stats self\<lparr>creations := sat_add (creations (table_stats self)) 1\<rparr>\<rparr>"

definition touch :: "flow_key \<Rightarrow> u64 \<Rightarrow> 't flow_entry \<Rightarrow> 't flow_table \<Rightarrow> 't flow_table" where
  "touch key now entry self =
     self\<lparr>entries := AList.update key (entry\<lparr>last_seen_nanoseconds := now\<rparr>) (entries self)\<rparr>"

text \<open>\<open>get_mut\<close> returns the value and the table with the entry marked as seen.\<close>

definition get_mut :: "'t flow_table \<Rightarrow> flow_key \<Rightarrow> u64 \<Rightarrow> 't option \<times> 't flow_table" where
  "get_mut self key now =
     (let self = count_lookup self in
      case map_of (entries self) key of
        None \<Rightarrow> (None, self)
      | Some entry \<Rightarrow> (Some (flow_value entry), touch key now entry self))"

text \<open>
  \<open>value_mut\<close> lends the value of an entry; \<open>set_value\<close> is the table after the borrower stored \<open>v\<close>
  through the reference.
\<close>

definition value_mut :: "'t flow_table \<Rightarrow> flow_key \<Rightarrow> 't option" where
  "value_mut self key = map_option flow_value (map_of (entries self) key)"

definition set_value :: "'t flow_table \<Rightarrow> flow_key \<Rightarrow> 't \<Rightarrow> 't flow_table" where
  "set_value self key v =
     (case map_of (entries self) key of
        None \<Rightarrow> self
      | Some entry \<Rightarrow>
          self\<lparr>entries := AList.update key (entry\<lparr>flow_value := v\<rparr>) (entries self)\<rparr>)"

definition is_live :: "u64 \<Rightarrow> u64 \<Rightarrow> 't flow_entry \<Rightarrow> bool" where
  "is_live now timeout entry \<longleftrightarrow> sat_sub now (last_seen_nanoseconds entry) < timeout"

definition expire_idle :: "'t flow_table \<Rightarrow> u64 \<Rightarrow> nat \<times> 't flow_table" where
  "expire_idle self now =
     (let before = length (entries self);
          retained = filter (\<lambda>(key, entry). is_live now (idle_timeout_nanoseconds self) entry)
                       (entries self);
          removed = before - length retained in
      (removed, count_evictions (clamp_from_nat removed) (self\<lparr>entries := retained\<rparr>)))"

text \<open>\<open>Iterator::min_by_key\<close> returns the first of the minimal elements.\<close>

fun min_by_key :: "('a \<Rightarrow> 'k::linorder) \<Rightarrow> 'a list \<Rightarrow> 'a option" where
  "min_by_key f [] = None"
| "min_by_key f (x # xs) =
     (case min_by_key f xs of
        None \<Rightarrow> Some x
      | Some y \<Rightarrow> if f x \<le> f y then Some x else Some y)"

definition evict_least_recently_seen ::
  "('t flow_entries \<Rightarrow> 't flow_entries) \<Rightarrow> 't flow_table \<Rightarrow> bool \<times> 't flow_table" where
  "evict_least_recently_seen iter self =
     (case min_by_key (\<lambda>(key, entry). last_seen_nanoseconds entry) (iter (entries self)) of
        None \<Rightarrow> (False, self)
      | Some (victim, _) \<Rightarrow>
          (True, count_evictions 1 (self\<lparr>entries := AList.delete victim (entries self)\<rparr>)))"

definition get_or_insert_with ::
  "('t flow_entries \<Rightarrow> 't flow_entries) \<Rightarrow> 't flow_table \<Rightarrow> flow_key \<Rightarrow> u64 \<Rightarrow> 't
     \<Rightarrow> flow_disposition \<times> 't flow_table" where
  "get_or_insert_with iter self key now created =
     (let self = count_lookup self in
      case map_of (entries self) key of
        Some entry \<Rightarrow> (Existing, touch key now entry self)
      | None \<Rightarrow>
          (let (idle_evictions, self) = expire_idle self now;
               (capacity_eviction, self) =
                 (if length (entries self) \<ge> maximum_flows self
                  then evict_least_recently_seen iter self else (False, self));
               self = count_creation self;
               self = self\<lparr>entries := AList.update key
                 \<lparr>flow_value = created, last_seen_nanoseconds = now\<rparr> (entries self)\<rparr> in
           (if idle_evictions > 0 \<or> capacity_eviction then CreatedAfterEviction else Created,
            self)))"

definition table_len :: "'t flow_table \<Rightarrow> nat" where
  "table_len self = length (entries self)"

definition table_is_empty :: "'t flow_table \<Rightarrow> bool" where
  "table_is_empty self = (entries self = [])"

section \<open>Keys and shards\<close>

definition reverse_tuple :: "flow_tuple \<Rightarrow> flow_tuple" where
  "reverse_tuple t =
     \<lparr>source_ip = destination_ip t, destination_ip = source_ip t,
      source_port = destination_port t, destination_port = source_port t,
      tuple_protocol = tuple_protocol t\<rparr>"

fun tuple_of :: "flow_key \<times> flow_direction \<Rightarrow> flow_tuple" where
  "tuple_of (k, Forward) =
     \<lparr>source_ip = first_ip k, destination_ip = second_ip k, source_port = first_port k,
      destination_port = second_port k, tuple_protocol = key_protocol k\<rparr>"
| "tuple_of (k, Reverse) =
     \<lparr>source_ip = second_ip k, destination_ip = first_ip k, source_port = second_port k,
      destination_port = first_port k, tuple_protocol = key_protocol k\<rparr>"

text \<open>
  Canonical keys: both directions of a conversation have the same key, key and direction
  together determine the original five tuple, and the two directions are told apart unless both
  endpoints are the same.
\<close>

theorem canonical_correct:
  "fst (canonical (reverse_tuple t)) = fst (canonical t)
   \<and> tuple_of (canonical t) = t
   \<and> (snd (canonical (reverse_tuple t)) = snd (canonical t)
        \<longleftrightarrow> (source_ip t, source_port t) = (destination_ip t, destination_port t))"
proof -
  obtain s d sp dp p where t: "t = \<lparr>source_ip = s, destination_ip = d, source_port = sp,
      destination_port = dp, tuple_protocol = p\<rparr>"
    by (cases t)
  consider "(s, sp) = (d, dp)" | "(s, sp) < (d, dp)" | "(d, dp) < (s, sp)"
    by (metis linorder_neqE)
  then show ?thesis
  proof cases
    case 1
    then show ?thesis by (auto simp: t canonical_def reverse_tuple_def)
  next
    case 2
    then have "\<not> (d, dp) \<le> (s, sp)" "(s, sp) \<le> (d, dp)" "(s, sp) \<noteq> (d, dp)" by auto
    then show ?thesis by (auto simp: t canonical_def reverse_tuple_def)
  next
    case 3
    then have "\<not> (s, sp) \<le> (d, dp)" "(d, dp) \<le> (s, sp)" "(s, sp) \<noteq> (d, dp)" by auto
    then show ?thesis by (auto simp: t canonical_def reverse_tuple_def)
  qed
qed

text \<open>
  Every flow is owned by an existing shard: for a sharder of \<open>n\<close> shards (a 64-bit count) the
  shard index is below \<open>n\<close>, and both directions of a conversation are owned by the same one.
\<close>

theorem shard_for_in_range:
  assumes "new_sharder n = Some sharder" "n < 2 ^ 64"
  shows "shard_for sharder (fst (canonical t)) < n
    \<and> shard_for sharder (fst (canonical (reverse_tuple t))) = shard_for sharder (fst (canonical t))"
proof -
  have n: "0 < n" "shard_count sharder = n"
    using assms(1) by (auto simp: new_sharder_def split: if_splits)
  have c: "unat (clamp_from_nat n :: u64) = n"
    using assms(2) by (simp add: unat_clamp_from_nat)
  have "shard_for sharder key < n" for key
    using n c by (simp add: shard_for_def unat_mod)
  moreover have "fst (canonical (reverse_tuple t)) = fst (canonical t)"
    by (auto simp: canonical_def reverse_tuple_def Let_def)
  ultimately show ?thesis by simp
qed

definition sample_tuple :: flow_tuple where
  "sample_tuple =
     \<lparr>source_ip = V4 0x0a000002, destination_ip = V4 0x0a000001, source_port = 443,
      destination_port = 51000, tuple_protocol = 6\<rparr>"

theorem shard_for_in_range_witness:
  "shard_for \<lparr>shard_count = 4\<rparr> (fst (canonical sample_tuple)) < 4
   \<and> shard_for \<lparr>shard_count = 4\<rparr> (fst (canonical (reverse_tuple sample_tuple)))
      = shard_for \<lparr>shard_count = 4\<rparr> (fst (canonical sample_tuple))"
  using shard_for_in_range [of 4 "\<lparr>shard_count = 4\<rparr>" sample_tuple] by (simp add: new_sharder_def)

section \<open>The table is bounded\<close>

definition flow_table_inv :: "'t flow_table \<Rightarrow> bool" where
  "flow_table_inv t \<longleftrightarrow>
     distinct (map fst (entries t)) \<and> length (entries t) \<le> maximum_flows t
     \<and> 0 < maximum_flows t \<and> maximum_flows t \<le> MAX_FLOW_TABLE_ENTRIES
     \<and> idle_timeout_nanoseconds t \<noteq> 0"

lemma min_by_key_None [simp]: "min_by_key f xs = None \<longleftrightarrow> xs = []"
  by (cases xs) (auto split: option.splits)

lemma min_by_key_SomeD:
  "min_by_key f xs = Some x \<Longrightarrow> x \<in> set xs \<and> (\<forall>y \<in> set xs. f x \<le> f y)"
  by (induction xs arbitrary: x) (fastforce split: option.splits if_splits)+

lemma table_counters [simp]:
  "entries (count_lookup t) = entries t" "entries (count_evictions n t) = entries t"
  "entries (count_creation t) = entries t"
  "maximum_flows (count_lookup t) = maximum_flows t"
  "maximum_flows (count_evictions n t) = maximum_flows t"
  "maximum_flows (count_creation t) = maximum_flows t"
  "idle_timeout_nanoseconds (count_lookup t) = idle_timeout_nanoseconds t"
  "idle_timeout_nanoseconds (count_evictions n t) = idle_timeout_nanoseconds t"
  "idle_timeout_nanoseconds (count_creation t) = idle_timeout_nanoseconds t"
  by (simp_all add: count_lookup_def count_evictions_def count_creation_def)

text \<open>The entries a creation keeps: the live ones, less the least recently seen if they fill the
  table.\<close>

definition live_entries :: "u64 \<Rightarrow> 't flow_table \<Rightarrow> 't flow_entries" where
  "live_entries now t =
     filter (\<lambda>(key, entry). is_live now (idle_timeout_nanoseconds t) entry) (entries t)"

definition kept_entries ::
  "('t flow_entries \<Rightarrow> 't flow_entries) \<Rightarrow> u64 \<Rightarrow> 't flow_table \<Rightarrow> 't flow_entries" where
  "kept_entries iter now t =
     (let live = live_entries now t in
      if length live < maximum_flows t then live
      else case min_by_key (\<lambda>(key, entry). last_seen_nanoseconds entry) (iter live) of
             None \<Rightarrow> live | Some (victim, _) \<Rightarrow> AList.delete victim live)"

lemma entries_expire_idle: "entries (snd (expire_idle t now)) = live_entries now t"
  by (simp add: expire_idle_def Let_def live_entries_def)

lemma expire_idle_frame [simp]:
  "maximum_flows (snd (expire_idle t now)) = maximum_flows t"
  "idle_timeout_nanoseconds (snd (expire_idle t now)) = idle_timeout_nanoseconds t"
  by (simp_all add: expire_idle_def Let_def)

lemma evict_frame [simp]:
  "maximum_flows (snd (evict_least_recently_seen iter t)) = maximum_flows t"
  "idle_timeout_nanoseconds (snd (evict_least_recently_seen iter t)) = idle_timeout_nanoseconds t"
  by (simp_all add: evict_least_recently_seen_def split: option.splits)

lemma entries_get_or_insert_absent:
  assumes "map_of (entries t) key = None"
  shows "entries (snd (get_or_insert_with iter t key now v)) =
           AList.update key \<lparr>flow_value = v, last_seen_nanoseconds = now\<rparr> (kept_entries iter now t)"
proof -
  have "entries (snd (expire_idle (count_lookup t) now)) = live_entries now t"
    by (simp add: entries_expire_idle live_entries_def)
  then show ?thesis
    using assms
    by (auto simp: get_or_insert_with_def Let_def kept_entries_def evict_least_recently_seen_def
        prod.case_eq_if not_less split: option.splits)
qed

lemma entries_get_or_insert_present:
  "map_of (entries t) key = Some e \<Longrightarrow>
     get_or_insert_with iter t key now v = (Existing, touch key now e (count_lookup t))"
  by (simp add: get_or_insert_with_def)

lemma get_or_insert_frame [simp]:
  "maximum_flows (snd (get_or_insert_with iter t key now v)) = maximum_flows t"
  "idle_timeout_nanoseconds (snd (get_or_insert_with iter t key now v))
     = idle_timeout_nanoseconds t"
  by (auto simp: get_or_insert_with_def Let_def touch_def prod.case_eq_if split: option.splits)

lemma distinct_live: "distinct (map fst (entries t)) \<Longrightarrow> distinct (map fst (live_entries now t))"
  by (simp add: live_entries_def distinct_map_filter)

lemma length_delete_present:
  assumes "distinct (map fst xs)" "(k, e) \<in> set xs"
  shows "length (AList.delete k xs) < length xs"
  using assms(2) by (auto simp: AList.delete_eq intro!: length_filter_less)

lemma kept_entries_props:
  assumes "iteration_order iter" "flow_table_inv t"
  shows "distinct (map fst (kept_entries iter now t))"
    and "length (kept_entries iter now t) < maximum_flows t"
    and "set (kept_entries iter now t) \<subseteq> set (live_entries now t)"
proof -
  let ?live = "live_entries now t"
  have d: "distinct (map fst ?live)"
    using assms(2) by (simp add: flow_table_inv_def distinct_live)
  have len: "length ?live \<le> maximum_flows t" "0 < maximum_flows t"
    using assms(2) le_trans [OF length_filter_le] by (auto simp: flow_table_inv_def live_entries_def)
  have victim: "length (AList.delete k ?live) < maximum_flows t"
    if "min_by_key (\<lambda>(key, entry). last_seen_nanoseconds entry) (iter ?live) = Some (k, e)" for k e
    using length_delete_present [OF d] min_by_key_SomeD [OF that] assms(1) len by fastforce
  show "distinct (map fst (kept_entries iter now t))"
    using d by (auto simp: kept_entries_def Let_def distinct_delete split: option.splits)
  show "length (kept_entries iter now t) < maximum_flows t"
    using len victim assms(1)
    by (auto simp: kept_entries_def Let_def split: option.splits)
  show "set (kept_entries iter now t) \<subseteq> set ?live"
    by (auto simp: kept_entries_def Let_def AList.delete_eq split: option.splits)
qed

lemma length_update:
  "length (AList.update k v xs) = (if k \<in> fst ` set xs then length xs else Suc (length xs))"
  by (induction xs) auto

lemma flow_table_inv_touch:
  "flow_table_inv t \<Longrightarrow> map_of (entries t) key = Some e \<Longrightarrow> flow_table_inv (touch key now e t)"
  by (auto simp: flow_table_inv_def touch_def distinct_update length_update dest: map_of_SomeD
      intro: rev_image_eqI)

lemma flow_table_inv_counters [simp]:
  "flow_table_inv (count_lookup t) = flow_table_inv t"
  "flow_table_inv (count_evictions n t) = flow_table_inv t"
  "flow_table_inv (count_creation t) = flow_table_inv t"
  by (simp_all add: flow_table_inv_def)

lemma flow_table_inv_new:
  "new_flow_table reserved m idle = Ok t \<Longrightarrow> flow_table_inv t"
  by (auto simp: new_flow_table_def flow_table_inv_def split: if_splits)

lemma flow_table_inv_get_mut: "flow_table_inv t \<Longrightarrow> flow_table_inv (snd (get_mut t key now))"
  by (auto simp: get_mut_def Let_def flow_table_inv_touch split: option.splits)

lemma flow_table_inv_set_value: "flow_table_inv t \<Longrightarrow> flow_table_inv (set_value t key v)"
  by (auto simp: flow_table_inv_def set_value_def distinct_update length_update
      dest: map_of_SomeD split: option.splits intro: rev_image_eqI)

lemma flow_table_inv_expire_idle: "flow_table_inv t \<Longrightarrow> flow_table_inv (snd (expire_idle t now))"
  using le_trans [OF length_filter_le]
  by (auto simp: flow_table_inv_def entries_expire_idle distinct_live)
    (auto simp: live_entries_def)

lemma flow_table_inv_get_or_insert:
  assumes "iteration_order iter" "flow_table_inv t"
  shows "flow_table_inv (snd (get_or_insert_with iter t key now v))"
proof (cases "map_of (entries t) key")
  case None
  have "length (AList.update key e (kept_entries iter now t)) \<le> maximum_flows t" for e
    using kept_entries_props(2) [OF assms, of now] by (simp add: length_update)
  then show ?thesis
    using assms kept_entries_props(1) [OF assms, of now]
    by (simp add: flow_table_inv_def entries_get_or_insert_absent [OF None] distinct_update)
next
  case (Some e)
  then show ?thesis
    using assms by (simp add: entries_get_or_insert_present flow_table_inv_touch)
qed

text \<open>The operations of a table, as steps with an arbitrary iteration order.\<close>

datatype 't flow_op =
    GetMut flow_key u64
  | SetValue flow_key 't
  | GetOrInsert flow_key u64 't
  | ExpireIdle u64

inductive flow_step :: "'t flow_table \<Rightarrow> 't flow_op \<Rightarrow> 't flow_table \<Rightarrow> bool" where
  step_get_mut: "flow_step t (GetMut key now) (snd (get_mut t key now))"
| step_set_value: "flow_step t (SetValue key v) (set_value t key v)"
| step_get_or_insert: "iteration_order iter \<Longrightarrow>
    flow_step t (GetOrInsert key now v) (snd (get_or_insert_with iter t key now v))"
| step_expire_idle: "flow_step t (ExpireIdle now) (snd (expire_idle t now))"

definition flow_init :: "nat \<Rightarrow> 't flow_table \<Rightarrow> bool" where
  "flow_init m t \<longleftrightarrow> (\<exists>idle. new_flow_table True m idle = Ok t)"

lemma maximum_flows_step: "flow_step t op t' \<Longrightarrow> maximum_flows t' = maximum_flows t"
  by (cases rule: flow_step.cases)
    (auto simp: get_mut_def set_value_def touch_def Let_def split: option.splits)

interpretation flow: invariant_system "flow_init m" flow_step
  "\<lambda>t. flow_table_inv t \<and> maximum_flows t = m"
proof
  show "flow_table_inv t \<and> maximum_flows t = m" if "flow_init m t" for t :: "'a flow_table"
    using that
    by (auto simp: flow_init_def flow_table_inv_new) (auto simp: new_flow_table_def split: if_splits)
next
  fix t t' :: "'a flow_table" and l
  assume inv: "flow_table_inv t \<and> maximum_flows t = m" and step: "flow_step t l t'"
  from step inv have "flow_table_inv t'"
    by (cases rule: flow_step.cases) (auto intro: flow_table_inv_get_mut flow_table_inv_set_value
        flow_table_inv_get_or_insert flow_table_inv_expire_idle)
  then show "flow_table_inv t' \<and> maximum_flows t' = m"
    using inv maximum_flows_step [OF step] by simp
qed

text \<open>
  C8.  The flow table is bounded in every reachable state: however flows are looked up, created,
  updated or expired, and whatever the iteration order of the hash map, the table never holds more
  flows than its configured maximum, which is itself at most one million, and holds every key at
  most once.
\<close>

theorem flow_table_bounded:
  assumes "reachable (flow_init m) flow_step t"
  shows "table_len t \<le> m \<and> m \<le> 1000000 \<and> distinct (map fst (entries t))"
  using flow.reachable_inv [OF assms]
  by (simp add: flow_table_inv_def table_len_def MAX_FLOW_TABLE_ENTRIES_def)

definition sample_key :: "u16 \<Rightarrow> flow_key" where
  "sample_key p =
     \<lparr>first_ip = V4 1, first_port = p, second_ip = V4 2, second_port = 80, key_protocol = 6\<rparr>"

definition sample_table :: "nat flow_table" where
  "sample_table =
     \<lparr>entries = [(sample_key 1, \<lparr>flow_value = 7, last_seen_nanoseconds = 5\<rparr>)], maximum_flows = 1,
      idle_timeout_nanoseconds = 1000,
      table_stats = \<lparr>lookups = 1, creations = 1, evictions = 0\<rparr>\<rparr>"

lemma iteration_order_id [simp]: "iteration_order (\<lambda>xs. xs)"
  by (simp add: iteration_order_def)

lemma sample_table_reachable: "reachable (flow_init 1) flow_step sample_table"
proof -
  define t0 :: "nat flow_table" where
    "t0 = \<lparr>entries = [], maximum_flows = 1, idle_timeout_nanoseconds = 1000,
           table_stats = \<lparr>lookups = 0, creations = 0, evictions = 0\<rparr>\<rparr>"
  have init: "flow_init 1 t0"
    unfolding flow_init_def
    by (rule exI [of _ 1000]) (simp add: new_flow_table_def MAX_FLOW_TABLE_ENTRIES_def t0_def)
  have "snd (get_or_insert_with (\<lambda>xs. xs) t0 (sample_key 1) 5 7) = sample_table"
    by (simp add: t0_def get_or_insert_with_def count_lookup_def expire_idle_def
        count_evictions_def count_creation_def sample_table_def sat_add_def clamp_from_nat_def)
  then have "flow_step t0 (GetOrInsert (sample_key 1) 5 7) sample_table"
    using step_get_or_insert [of "\<lambda>xs. xs" t0 "sample_key 1" 5 7] by simp
  then show ?thesis
    using init by (blast intro: reachable_init reachable_step)
qed

theorem flow_table_bounded_witness:
  "reachable (flow_init 1) flow_step sample_table
   \<and> table_len sample_table \<le> 1 \<and> distinct (map fst (entries sample_table))"
  using flow_table_bounded [OF sample_table_reachable] sample_table_reachable by simp

section \<open>What a creation evicts\<close>

lemma map_of_live:
  assumes "distinct (map fst (entries t))"
  shows "map_of (live_entries now t) k = Some e \<longleftrightarrow>
           map_of (entries t) k = Some e \<and> is_live now (idle_timeout_nanoseconds t) e"
  using assms distinct_live [OF assms, of now]
  by (auto simp: live_entries_def)

lemma map_of_kept_SomeD:
  assumes "iteration_order iter" "flow_table_inv t" "map_of (kept_entries iter now t) k = Some e"
  shows "map_of (entries t) k = Some e \<and> is_live now (idle_timeout_nanoseconds t) e"
proof -
  have d: "distinct (map fst (entries t))"
    using assms(2) by (simp add: flow_table_inv_def)
  have "(k, e) \<in> set (live_entries now t)"
    using kept_entries_props(3) [OF assms(1,2)] map_of_SomeD [OF assms(3)] by blast
  then show ?thesis
    using map_of_live [OF d] distinct_live [OF d] by fastforce
qed

lemma kept_entries_victim:
  assumes "iteration_order iter" "flow_table_inv t"
    and "map_of (live_entries now t) k = Some e" "map_of (kept_entries iter now t) k = None"
  shows "length (live_entries now t) = maximum_flows t
    \<and> (\<forall>k' e'. map_of (live_entries now t) k' = Some e' \<longrightarrow>
          last_seen_nanoseconds e \<le> last_seen_nanoseconds e')
    \<and> (\<forall>k'. k' \<noteq> k \<longrightarrow> map_of (kept_entries iter now t) k' = map_of (live_entries now t) k')"
proof -
  let ?live = "live_entries now t"
  have d: "distinct (map fst ?live)"
    using assms(2) by (simp add: flow_table_inv_def distinct_live)
  have full: "\<not> length ?live < maximum_flows t"
    using assms(3,4) by (auto simp: kept_entries_def)
  have len: "length ?live \<le> maximum_flows t"
    using assms(2) le_trans [OF length_filter_le] by (auto simp: flow_table_inv_def live_entries_def)
  have "?live \<noteq> []" using assms(3) by auto
  then obtain kv ev where m:
    "min_by_key (\<lambda>(key, entry). last_seen_nanoseconds entry) (iter ?live) = Some (kv, ev)"
    using assms(1) by (metis (no_types, lifting) iteration_order_Nil min_by_key_None not_None_eq
        surj_pair)
  then have kept: "kept_entries iter now t = AList.delete kv ?live"
    using full by (simp add: kept_entries_def Let_def)
  have k: "k = kv"
    using assms(3,4) by (auto simp: kept delete_conv' split: if_splits)
  have min: "(kv, ev) \<in> set ?live"
    "\<And>k' e'. (k', e') \<in> set ?live \<Longrightarrow> last_seen_nanoseconds ev \<le> last_seen_nanoseconds e'"
    using min_by_key_SomeD [OF m] assms(1) by fastforce+
  have "ev = e"
    using assms(3) min(1) d k by (metis map_of_is_SomeI option.inject)
  then show ?thesis
    using full len min(2) k by (auto simp: kept delete_conv' dest: map_of_SomeD)
qed

text \<open>
  C34.  Creating a flow stores it with the given value and evicts nothing but idle flows and, when
  the live flows fill the table, one least recently seen flow: every other flow keeps its value and
  its timestamp.
\<close>

theorem get_or_insert_evicts:
  assumes "iteration_order iter" "flow_table_inv t" "map_of (entries t) key = None"
    and t': "t' = snd (get_or_insert_with iter t key now v)"
  shows "map_of (entries t') key = Some \<lparr>flow_value = v, last_seen_nanoseconds = now\<rparr>
    \<and> (\<forall>k e. k \<noteq> key \<longrightarrow> map_of (entries t') k = Some e \<longrightarrow> map_of (entries t) k = Some e)
    \<and> (\<forall>k e. map_of (entries t) k = Some e \<longrightarrow> map_of (entries t') k = None \<longrightarrow>
         is_live now (idle_timeout_nanoseconds t) e \<longrightarrow>
         length (live_entries now t) = maximum_flows t
         \<and> (\<forall>k' e'. map_of (live_entries now t) k' = Some e' \<longrightarrow>
               last_seen_nanoseconds e \<le> last_seen_nanoseconds e'
               \<and> (k' \<noteq> k \<longrightarrow> map_of (entries t') k' = Some e')))"
proof -
  have d: "distinct (map fst (entries t))"
    using assms(2) by (simp add: flow_table_inv_def)
  have live_key: "map_of (live_entries now t) key = None"
    using assms(3) map_of_live [OF d] by (metis not_None_eq)
  have e: "map_of (entries t') = (map_of (kept_entries iter now t))
      (key \<mapsto> \<lparr>flow_value = v, last_seen_nanoseconds = now\<rparr>)"
    by (simp add: t' entries_get_or_insert_absent [OF assms(3)] update_conv')
  have drop: "length (live_entries now t) = maximum_flows t
      \<and> (\<forall>k' e'. map_of (live_entries now t) k' = Some e' \<longrightarrow>
            last_seen_nanoseconds e \<le> last_seen_nanoseconds e'
            \<and> (k' \<noteq> k \<longrightarrow> map_of (entries t') k' = Some e'))"
    if "map_of (entries t) k = Some e" "map_of (entries t') k = None"
      "is_live now (idle_timeout_nanoseconds t) e" for k e
  proof -
    have "map_of (live_entries now t) k = Some e" "map_of (kept_entries iter now t) k = None"
      using that map_of_live [OF d] e by (auto split: if_splits)
    from kept_entries_victim [OF assms(1,2) this] show ?thesis
      using e live_key by (metis (no_types, lifting) fun_upd_apply option.distinct(1))
  qed
  show ?thesis
    using e drop map_of_kept_SomeD [OF assms(1,2)] by auto
qed

theorem get_or_insert_evicts_witness:
  "map_of (entries (snd (get_or_insert_with (\<lambda>xs. xs) sample_table (sample_key 2) 9 3)))
     (sample_key 2) = Some \<lparr>flow_value = 3, last_seen_nanoseconds = 9\<rparr>"
  using get_or_insert_evicts [of "\<lambda>xs. xs" sample_table "sample_key 2" _ 9 3, OF _ _ _ refl]
  by (simp add: flow_table_inv_def sample_table_def sample_key_def MAX_FLOW_TABLE_ENTRIES_def)

section \<open>The table as a store of flow state\<close>

text \<open>
  What a worker relies on: \<open>ensures s k n v s'\<close> makes sure that \<open>k\<close> has a value, creating it from
  \<open>v\<close> if needed and possibly dropping others; \<open>store\<close> writes back a borrowed value.
\<close>

locale flow_store =
  fixes lookup :: "'st \<Rightarrow> 'k \<Rightarrow> 'v option"
    and ensures :: "'st \<Rightarrow> 'k \<Rightarrow> 'n \<Rightarrow> 'v \<Rightarrow> 'st \<Rightarrow> bool"
    and store :: "'st \<Rightarrow> 'k \<Rightarrow> 'v \<Rightarrow> 'st"
    and inv :: "'st \<Rightarrow> bool"
  assumes ensures_inv: "inv s \<Longrightarrow> ensures s k n v s' \<Longrightarrow> inv s'"
    and store_inv: "inv s \<Longrightarrow> inv (store s k v)"
    and ensures_hit: "inv s \<Longrightarrow> ensures s k n v s' \<Longrightarrow>
          lookup s' k = Some (case lookup s k of None \<Rightarrow> v | Some w \<Rightarrow> w)"
    and ensures_other: "inv s \<Longrightarrow> ensures s k n v s' \<Longrightarrow> j \<noteq> k \<Longrightarrow>
          lookup s' j = None \<or> lookup s' j = lookup s j"
    and store_same: "lookup s k \<noteq> None \<Longrightarrow> lookup (store s k v) k = Some v"
    and store_other: "j \<noteq> k \<Longrightarrow> lookup (store s k v) j = lookup s j"
begin

text \<open>A visit: ensure the flow, update its value, write it back.\<close>

definition visit :: "'st \<Rightarrow> 'k \<Rightarrow> 'n \<Rightarrow> 'v \<Rightarrow> ('v \<Rightarrow> 'v) \<Rightarrow> 'st \<Rightarrow> bool" where
  "visit s k n v f t \<longleftrightarrow>
     (\<exists>s' w. ensures s k n v s' \<and> lookup s' k = Some w \<and> t = store s' k (f w))"

lemma visit_inv: "inv s \<Longrightarrow> visit s k n v f t \<Longrightarrow> inv t"
  by (auto simp: visit_def intro: ensures_inv store_inv)

lemma visit_value:
  assumes "inv s" "visit s k n v f t"
  shows "lookup t k = Some (f (case lookup s k of None \<Rightarrow> v | Some w \<Rightarrow> w))"
proof -
  from assms(2) obtain s' w where s': "ensures s k n v s'" "lookup s' k = Some w"
    "t = store s' k (f w)"
    by (auto simp: visit_def)
  then show ?thesis
    using ensures_hit [OF assms(1) s'(1)] store_same [of s' k "f w"] by simp
qed

lemma visit_other:
  "inv s \<Longrightarrow> visit s k n v f t \<Longrightarrow> j \<noteq> k \<Longrightarrow> lookup t j = None \<or> lookup t j = lookup s j"
  by (auto simp: visit_def store_other dest: ensures_other)

end

definition flow_ensures :: "'t flow_table \<Rightarrow> flow_key \<Rightarrow> u64 \<Rightarrow> 't \<Rightarrow> 't flow_table \<Rightarrow> bool" where
  "flow_ensures t key now v t' \<longleftrightarrow>
     (\<exists>iter. iteration_order iter \<and> t' = snd (get_or_insert_with iter t key now v))"

lemma value_mut_set_value:
  "value_mut (set_value t k v) j = (if j = k \<and> value_mut t k \<noteq> None then Some v else value_mut t j)"
  by (auto simp: value_mut_def set_value_def update_conv' split: option.splits)

lemma value_mut_present:
  "map_of (entries t) k = Some e \<Longrightarrow>
     value_mut (snd (get_or_insert_with iter t k now v)) j = value_mut t j"
  by (simp add: entries_get_or_insert_present value_mut_def touch_def update_conv')

lemma value_mut_absent:
  assumes "iteration_order iter" "flow_table_inv t" "map_of (entries t) k = None"
  shows "value_mut (snd (get_or_insert_with iter t k now v)) k = Some v"
    and "j \<noteq> k \<Longrightarrow> value_mut (snd (get_or_insert_with iter t k now v)) j = None
           \<or> value_mut (snd (get_or_insert_with iter t k now v)) j = value_mut t j"
proof -
  note e = entries_get_or_insert_absent [OF assms(3), of iter now v]
  show "value_mut (snd (get_or_insert_with iter t k now v)) k = Some v"
    by (simp add: value_mut_def e update_conv')
  show "value_mut (snd (get_or_insert_with iter t k now v)) j = None
      \<or> value_mut (snd (get_or_insert_with iter t k now v)) j = value_mut t j" if "j \<noteq> k"
    using that map_of_kept_SomeD [OF assms(1,2), of now j]
    by (cases "map_of (kept_entries iter now t) j") (auto simp: value_mut_def e update_conv')
qed

interpretation table: flow_store value_mut flow_ensures set_value flow_table_inv
proof
  fix s s' :: "'a flow_table" and k n v
  assume inv: "flow_table_inv s" and ens: "flow_ensures s k n v s'"
  then obtain iter where i: "iteration_order iter" "s' = snd (get_or_insert_with iter s k n v)"
    by (auto simp: flow_ensures_def)
  show "flow_table_inv s'"
    using i inv by (simp add: flow_table_inv_get_or_insert)
  show "value_mut s' k = Some (case value_mut s k of None \<Rightarrow> v | Some w \<Rightarrow> w)"
  proof (cases "map_of (entries s) k")
    case None
    then show ?thesis using value_mut_absent(1) [OF i(1) inv None] i(2) by (simp add: value_mut_def)
  next
    case (Some e)
    then show ?thesis using value_mut_present [OF Some] i(2) by (simp add: value_mut_def)
  qed
  show "value_mut s' j = None \<or> value_mut s' j = value_mut s j" if "j \<noteq> k" for j
  proof (cases "map_of (entries s) k")
    case None
    then show ?thesis using value_mut_absent(2) [OF i(1) inv None that] i(2) by simp
  next
    case (Some e)
    then show ?thesis using value_mut_present [OF Some] i(2) by simp
  qed
qed (auto simp: flow_table_inv_set_value value_mut_set_value)

end
