(* ===== verification/Packet_Parser.thy ===== *)
theory Packet_Parser
  imports Net_Types "HOL-Library.Sublist"
begin

text \<open>
  The fast-path packet parser (src/crates/packet/src/parser.rs): Ethernet with up to two VLAN
  tags, ARP, IPv4, IPv6 with extension headers, TCP, UDP and ICMP.  The borrowed views of the
  source are the byte lists they denote; every index and slice that panics out of range in the
  source is a panicking operation here.
\<close>

section \<open>Types\<close>

definition ETHERNET_HEADER_LENGTH :: nat where "ETHERNET_HEADER_LENGTH = 14"
definition VLAN_HEADER_LENGTH :: nat where "VLAN_HEADER_LENGTH = 4"
definition ETHERTYPE_VLAN :: u16 where "ETHERTYPE_VLAN = 0x8100"
definition ETHERTYPE_QINQ :: u16 where "ETHERTYPE_QINQ = 0x88a8"
definition ETHERTYPE_ARP :: u16 where "ETHERTYPE_ARP = 0x0806"
definition ETHERTYPE_IPV4 :: u16 where "ETHERTYPE_IPV4 = 0x0800"
definition ETHERTYPE_IPV6 :: u16 where "ETHERTYPE_IPV6 = 0x86dd"

datatype parse_error = Truncated | Malformed | TooManyVlanTags | TooManyIpv6Extensions

type_synonym 'a parsed = "(parse_error, 'a) outcome"

record vlan_tag =
  priority :: u8
  drop_eligible :: bool
  vlan_identifier :: u16

record ethernet_header =
  eth_destination :: bytes
  eth_source :: bytes
  vlan_tags :: "vlan_tag option list"
  ether_type :: u16

record arp_packet =
  hardware_type :: u16
  protocol_type :: u16
  arp_operation :: u16
  arp_bytes :: bytes

record ip_packet =
  ip_source :: ip_addr
  ip_destination :: ip_addr
  ip_protocol :: u8
  non_initial_fragment :: bool
  ip_payload :: bytes

record tcp_segment =
  tcp_source_port :: u16
  tcp_destination_port :: u16
  tcp_sequence :: u32
  tcp_acknowledgement :: u32
  tcp_flags :: u16
  tcp_window :: u16
  tcp_payload :: bytes

record udp_datagram =
  udp_source_port :: u16
  udp_destination_port :: u16
  udp_payload :: bytes

record icmp_packet =
  icmp_message_type :: u8
  icmp_code :: u8
  icmp_payload :: bytes

datatype transport_packet =
    Tcp tcp_segment
  | Udp udp_datagram
  | Icmp icmp_packet
  | Icmpv6 icmp_packet
  | Fragment
  | Other u8 bytes

record parsed_packet =
  pp_ethernet :: ethernet_header
  pp_arp :: "arp_packet option"
  pp_ip :: "ip_packet option"
  pp_transport :: "transport_packet option"

section \<open>Field readers\<close>

definition read_u16 :: "bytes \<Rightarrow> nat \<Rightarrow> u16 parsed" where
  "read_u16 bs offset =
     and_then (ok_or Truncated (get_range bs offset (offset + 2))) (\<lambda>value.
     and_then (index_at value 0) (\<lambda>b0. and_then (index_at value 1) (\<lambda>b1.
       Ok (from_be_bytes [b0, b1]))))"

definition read_u32 :: "bytes \<Rightarrow> nat \<Rightarrow> u32 parsed" where
  "read_u32 bs offset =
     and_then (ok_or Truncated (get_range bs offset (offset + 4))) (\<lambda>value.
     and_then (index_at value 0) (\<lambda>b0. and_then (index_at value 1) (\<lambda>b1.
     and_then (index_at value 2) (\<lambda>b2. and_then (index_at value 3) (\<lambda>b3.
       Ok (from_be_bytes [b0, b1, b2, b3]))))))"

section \<open>Transport headers\<close>

definition parse_tcp :: "bytes \<Rightarrow> tcp_segment parsed" where
  "parse_tcp bs =
     and_then (ok_or Truncated (get_to bs 20)) (\<lambda>base.
     and_then (index_at base 12) (\<lambda>b12.
     let header_length = unat (drop_bit 4 b12) * 4 in
     if header_length < 20 then Err Malformed
     else and_then (ok_or Truncated (get_from bs header_length)) (\<lambda>payload.
     and_then (read_u16 base 0) (\<lambda>source_port.
     and_then (read_u16 base 2) (\<lambda>destination_port.
     and_then (read_u32 base 4) (\<lambda>sequence.
     and_then (read_u32 base 8) (\<lambda>acknowledgement.
     and_then (index_at base 13) (\<lambda>b13.
     and_then (read_u16 base 14) (\<lambda>window.
       Ok \<lparr>tcp_source_port = source_port, tcp_destination_port = destination_port,
           tcp_sequence = sequence, tcp_acknowledgement = acknowledgement,
           tcp_flags = push_bit 8 (ucast (b12 AND 1)) OR ucast b13,
           tcp_window = window, tcp_payload = payload\<rparr>)))))))))"

definition parse_udp :: "bytes \<Rightarrow> udp_datagram parsed" where
  "parse_udp bs =
     and_then (ok_or Truncated (get_to bs 8)) (\<lambda>base.
     and_then (read_u16 base 4) (\<lambda>len.
     let datagram_length = unat len in
     if datagram_length < 8 then Err Malformed
     else and_then (ok_or Truncated (get_to bs datagram_length)) (\<lambda>datagram.
     and_then (read_u16 base 0) (\<lambda>source_port.
     and_then (read_u16 base 2) (\<lambda>destination_port.
     and_then (slice_from datagram 8) (\<lambda>payload.
       Ok \<lparr>udp_source_port = source_port, udp_destination_port = destination_port,
           udp_payload = payload\<rparr>))))))"

definition parse_icmp :: "bytes \<Rightarrow> icmp_packet parsed" where
  "parse_icmp bs =
     and_then (ok_or Truncated (get_to bs 4)) (\<lambda>msg.
     and_then (index_at msg 0) (\<lambda>message_type.
     and_then (index_at msg 1) (\<lambda>message_code.
     and_then (slice_from bs 4) (\<lambda>payload.
       Ok \<lparr>icmp_message_type = message_type, icmp_code = message_code,
           icmp_payload = payload\<rparr>))))"

section \<open>Network headers\<close>

definition parse_arp :: "bytes \<Rightarrow> arp_packet parsed" where
  "parse_arp bs =
     and_then (ok_or Truncated (get_to bs 8)) (\<lambda>header.
     and_then (index_at header 4) (\<lambda>hardware_length.
     and_then (index_at header 5) (\<lambda>protocol_length.
     and_then
       (ok_or Malformed
         (usize_checked_add 8
           (usize_sat_mul 2 (usize_sat_add (unat hardware_length) (unat protocol_length)))))
       (\<lambda>required.
     and_then (ok_or Truncated (get_to bs required)) (\<lambda>bs'.
     and_then (read_u16 header 0) (\<lambda>htype.
     and_then (read_u16 header 2) (\<lambda>ptype.
     and_then (read_u16 header 6) (\<lambda>operation.
       Ok \<lparr>hardware_type = htype, protocol_type = ptype, arp_operation = operation,
           arp_bytes = bs'\<rparr>))))))))"

text \<open>\<open>Ipv4Addr::new(base[i], base[i + 1], base[i + 2], base[i + 3])\<close>.\<close>

definition ipv4_at :: "bytes \<Rightarrow> nat \<Rightarrow> ip_addr parsed" where
  "ipv4_at base i =
     and_then (index_at base i) (\<lambda>a. and_then (index_at base (i + 1)) (\<lambda>b.
     and_then (index_at base (i + 2)) (\<lambda>c. and_then (index_at base (i + 3)) (\<lambda>d.
       Ok (ipv4_from_octets [a, b, c, d])))))"

definition parse_ipv4 :: "bytes \<Rightarrow> ip_packet parsed" where
  "parse_ipv4 bs =
     and_then (ok_or Truncated (get_to bs 20)) (\<lambda>base.
     and_then (index_at base 0) (\<lambda>b0.
     if drop_bit 4 b0 \<noteq> 4 then Err Malformed
     else
       let header_length = unat (b0 AND 0x0f) * 4 in
       if header_length < 20 then Err Malformed
       else and_then (read_u16 base 2) (\<lambda>total.
       let total_length = unat total in
       if total_length < header_length then Err Malformed
       else and_then (ok_or Truncated (get_to bs total_length)) (\<lambda>packet.
       and_then (read_u16 base 6) (\<lambda>fragment.
       and_then (ipv4_at base 12) (\<lambda>source.
       and_then (ipv4_at base 16) (\<lambda>destination.
       and_then (index_at base 9) (\<lambda>protocol.
       and_then (slice_from packet header_length) (\<lambda>payload.
         Ok \<lparr>ip_source = source, ip_destination = destination, ip_protocol = protocol,
             non_initial_fragment = (fragment AND 0x1fff \<noteq> 0), ip_payload = payload\<rparr>)))))))))"

text \<open>
  One extension header: the next protocol, the length of the header and the fragment flag, or
  none when \<open>protocol\<close> is not an extension.
\<close>

definition ipv6_extension ::
  "bytes \<Rightarrow> u8 \<Rightarrow> nat \<Rightarrow> bool \<Rightarrow> (u8 \<times> nat \<times> bool) option parsed" where
  "ipv6_extension packet protocol offset fragmented =
     (if protocol = 0 \<or> protocol = 43 \<or> protocol = 60 then
        and_then (ok_or Truncated (get_range packet offset (offset + 2))) (\<lambda>extension.
        and_then (index_at extension 0) (\<lambda>next. and_then (index_at extension 1) (\<lambda>len.
          Ok (Some (next, (unat len + 1) * 8, fragmented)))))
      else if protocol = 44 then
        and_then (ok_or Truncated (get_range packet offset (offset + 8))) (\<lambda>extension.
        and_then (read_u16 extension 2) (\<lambda>field.
        and_then (index_at extension 0) (\<lambda>next.
          Ok (Some (next, 8, fragmented \<or> field AND 0xfff8 \<noteq> 0)))))
      else if protocol = 51 then
        and_then (ok_or Truncated (get_range packet offset (offset + 2))) (\<lambda>extension.
        and_then (index_at extension 0) (\<lambda>next. and_then (index_at extension 1) (\<lambda>len.
          Ok (Some (next, (unat len + 2) * 4, fragmented)))))
      else Ok None)"

text \<open>The loop over at most \<open>n\<close> headers; the source runs it with \<open>n = 8\<close>.\<close>

fun ipv6_headers ::
  "nat \<Rightarrow> bytes \<Rightarrow> bytes \<Rightarrow> bytes \<Rightarrow> u8 \<Rightarrow> nat \<Rightarrow> bool \<Rightarrow> ip_packet parsed" where
  "ipv6_headers 0 packet source destination protocol offset fragmented = Err TooManyIpv6Extensions"
| "ipv6_headers (Suc n) packet source destination protocol offset fragmented =
     and_then (ipv6_extension packet protocol offset fragmented) (\<lambda>ext.
     case ext of
       None \<Rightarrow>
         and_then (ok_or Truncated (get_from packet offset)) (\<lambda>payload.
           Ok \<lparr>ip_source = ipv6_from_octets source, ip_destination = ipv6_from_octets destination,
               ip_protocol = protocol, non_initial_fragment = fragmented,
               ip_payload = payload\<rparr>)
     | Some (next, len, fragmented') \<Rightarrow>
         and_then (ok_or Truncated (get_range packet offset (offset + len))) (\<lambda>_.
         and_then (ok_or Malformed (usize_checked_add offset len)) (\<lambda>offset'.
           ipv6_headers n packet source destination next offset' fragmented')))"

definition parse_ipv6 :: "bytes \<Rightarrow> ip_packet parsed" where
  "parse_ipv6 bs =
     and_then (ok_or Truncated (get_to bs 40)) (\<lambda>base.
     and_then (index_at base 0) (\<lambda>b0.
     if drop_bit 4 b0 \<noteq> 6 then Err Malformed
     else and_then (read_u16 base 4) (\<lambda>plen.
     and_then (ok_or Malformed (usize_checked_add 40 (unat plen))) (\<lambda>packet_length.
     and_then (ok_or Truncated (get_to bs packet_length)) (\<lambda>packet.
     and_then (slice_range base 8 24) (\<lambda>src. and_then (copy_from_slice (replicate 16 0) 0 16 src) (\<lambda>source.
     and_then (slice_range base 24 40) (\<lambda>dst. and_then (copy_from_slice (replicate 16 0) 0 16 dst) (\<lambda>destination.
     and_then (index_at base 6) (\<lambda>protocol.
       ipv6_headers 8 packet source destination protocol 40 False))))))))))"

section \<open>Ethernet\<close>

definition decode_vlan :: "u16 \<Rightarrow> vlan_tag" where
  "decode_vlan control =
     \<lparr>priority = ucast (drop_bit 13 control AND 0x07),
      drop_eligible = (control AND 0x1000 \<noteq> 0),
      vlan_identifier = control AND 0x0fff\<rparr>"

function parse_vlan_tags ::
  "bytes \<Rightarrow> u16 \<Rightarrow> vlan_tag option list \<Rightarrow> nat \<Rightarrow> nat \<Rightarrow> (vlan_tag option list \<times> u16) parsed" where
  "parse_vlan_tags frame etype tags offset tag_count =
     (if etype = ETHERTYPE_VLAN \<or> etype = ETHERTYPE_QINQ then
        if tag_count = length tags then Err TooManyVlanTags
        else
          and_then (ok_or Truncated (get_range frame offset (offset + VLAN_HEADER_LENGTH))) (\<lambda>tag.
          and_then (read_u16 tag 0) (\<lambda>control.
          and_then (store_at tags tag_count (Some (decode_vlan control))) (\<lambda>tags'.
          and_then (read_u16 tag 2) (\<lambda>etype'.
            parse_vlan_tags frame etype' tags' (offset + VLAN_HEADER_LENGTH) (tag_count + 1)))))
      else Ok (tags, etype))"
  by auto
termination
  by (relation "measure (\<lambda>(frame, etype, tags, offset, tag_count). length tags - tag_count)")
    (auto simp: store_at_def split: if_splits)

declare parse_vlan_tags.simps [simp del]

definition parse_ethernet :: "bytes \<Rightarrow> ethernet_header parsed" where
  "parse_ethernet frame =
     and_then (ok_or Truncated (get_to frame ETHERNET_HEADER_LENGTH)) (\<lambda>base.
     and_then (slice_to base 6) (\<lambda>dst. and_then (copy_from_slice (replicate 6 0) 0 6 dst) (\<lambda>destination.
     and_then (slice_range base 6 12) (\<lambda>src. and_then (copy_from_slice (replicate 6 0) 0 6 src) (\<lambda>source.
     and_then (read_u16 base 12) (\<lambda>etype.
     and_then (parse_vlan_tags frame etype [None, None] ETHERNET_HEADER_LENGTH 0) (\<lambda>(tags, etype').
       Ok \<lparr>eth_destination = destination, eth_source = source, vlan_tags = tags,
           ether_type = etype'\<rparr>)))))))"

section \<open>The parser\<close>

definition parse_transport :: "ip_packet \<Rightarrow> transport_packet parsed" where
  "parse_transport ip =
     (if non_initial_fragment ip then Ok Fragment
      else if ip_protocol ip = 6 then and_then (parse_tcp (ip_payload ip)) (\<lambda>t. Ok (Tcp t))
      else if ip_protocol ip = 17 then and_then (parse_udp (ip_payload ip)) (\<lambda>t. Ok (Udp t))
      else if ip_protocol ip = 1 then and_then (parse_icmp (ip_payload ip)) (\<lambda>t. Ok (Icmp t))
      else if ip_protocol ip = 58 then and_then (parse_icmp (ip_payload ip)) (\<lambda>t. Ok (Icmpv6 t))
      else Ok (Other (ip_protocol ip) (ip_payload ip)))"

definition finish_ip :: "ethernet_header \<Rightarrow> ip_packet \<Rightarrow> parsed_packet parsed" where
  "finish_ip ethernet ip =
     and_then (parse_transport ip) (\<lambda>transport.
       Ok \<lparr>pp_ethernet = ethernet, pp_arp = None, pp_ip = Some ip, pp_transport = Some transport\<rparr>)"

definition parse_packet :: "bytes \<Rightarrow> parsed_packet parsed" where
  "parse_packet frame =
     and_then (parse_ethernet frame) (\<lambda>ethernet.
     let offset = foldl (\<lambda>offset tag. case tag of Some _ \<Rightarrow> offset + VLAN_HEADER_LENGTH | None \<Rightarrow> offset)
                    ETHERNET_HEADER_LENGTH (vlan_tags ethernet) in
     and_then (ok_or Truncated (get_from frame offset)) (\<lambda>payload.
     if ether_type ethernet = ETHERTYPE_ARP then
       and_then (parse_arp payload) (\<lambda>arp.
         Ok \<lparr>pp_ethernet = ethernet, pp_arp = Some arp, pp_ip = None, pp_transport = None\<rparr>)
     else if ether_type ethernet = ETHERTYPE_IPV4 then
       and_then (parse_ipv4 payload) (finish_ip ethernet)
     else if ether_type ethernet = ETHERTYPE_IPV6 then
       and_then (parse_ipv6 payload) (finish_ip ethernet)
     else Ok \<lparr>pp_ethernet = ethernet, pp_arp = None, pp_ip = None, pp_transport = None\<rparr>))"

section \<open>Closed forms of the readers\<close>

lemma list_of_length_2: "length v = 2 \<Longrightarrow> [v ! 0, v ! 1] = v"
  by (rule nth_equalityI) (auto simp: less_Suc_eq nth_Cons' numeral_2_eq_2)

lemma list_of_length_4: "length v = 4 \<Longrightarrow> [v ! 0, v ! 1, v ! 2, v ! 3] = v"
  by (rule nth_equalityI) (auto simp: less_Suc_eq nth_Cons' eval_nat_numeral)

lemma read_u16_eq [simp]:
  "read_u16 bs i =
     (if i + 2 \<le> length bs then Ok (from_be_bytes (take 2 (drop i bs))) else Err Truncated)"
proof -
  have "[take 2 (drop i bs) ! 0, take 2 (drop i bs) ! 1] = take 2 (drop i bs)"
    if "i + 2 \<le> length bs"
    using that by (intro list_of_length_2) simp
  then show ?thesis by (auto simp: read_u16_def get_range_def)
qed

lemma read_u32_eq [simp]:
  "read_u32 bs i =
     (if i + 4 \<le> length bs then Ok (from_be_bytes (take 4 (drop i bs))) else Err Truncated)"
proof -
  let ?v = "take 4 (drop i bs)"
  have "[?v ! 0, ?v ! 1, ?v ! 2, ?v ! 3] = ?v" if "i + 4 \<le> length bs"
    using that by (intro list_of_length_4) simp
  then show ?thesis by (auto simp: read_u32_def get_range_def)
qed

lemma ipv4_at_eq [simp]:
  assumes "i + 4 \<le> length bs"
  shows "ipv4_at bs i = Ok (ipv4_from_octets (take 4 (drop i bs)))"
proof -
  let ?v = "take 4 (drop i bs)"
  have "[?v ! 0, ?v ! 1, ?v ! 2, ?v ! 3] = ?v"
    using assms by (intro list_of_length_4) simp
  then show ?thesis using assms by (simp add: ipv4_at_def)
qed

section \<open>No panic\<close>

lemma parse_tcp_no_panic: "parse_tcp bs \<noteq> Panic"
  by (auto simp: parse_tcp_def Let_def dest: get_to_SomeD split: option.splits
      simp: outcome_simps)

lemma parse_udp_no_panic: "parse_udp bs \<noteq> Panic"
  by (auto simp: parse_udp_def Let_def outcome_simps dest: get_to_SomeD)

lemma parse_icmp_no_panic: "parse_icmp bs \<noteq> Panic"
  by (auto simp: parse_icmp_def outcome_simps dest: get_to_SomeD)

lemma parse_arp_no_panic: "parse_arp bs \<noteq> Panic"
  by (auto simp: parse_arp_def outcome_simps dest: get_to_SomeD)

lemma parse_ipv4_no_panic: "parse_ipv4 bs \<noteq> Panic"
  by (auto simp: parse_ipv4_def Let_def outcome_simps dest!: get_to_SomeD)

lemma ipv6_extension_no_panic: "ipv6_extension packet protocol offset fragmented \<noteq> Panic"
  by (auto simp: ipv6_extension_def outcome_simps dest!: get_range_SomeD)

lemma ipv6_headers_no_panic: "ipv6_headers n packet s d protocol offset fragmented \<noteq> Panic"
  by (induction n packet s d protocol offset fragmented rule: ipv6_headers.induct)
    (auto simp: outcome_simps ipv6_extension_no_panic split: option.splits prod.splits)

lemma patch_whole [simp]: "length zs = length ys \<Longrightarrow> patch zs 0 ys = ys"
  by (simp add: patch_def)

lemma parse_ipv6_no_panic: "parse_ipv6 bs \<noteq> Panic"
  by (auto simp: parse_ipv6_def outcome_simps ipv6_headers_no_panic dest!: get_to_SomeD)

lemma parse_vlan_tags_no_panic:
  "tag_count \<le> length tags \<Longrightarrow> parse_vlan_tags frame etype tags offset tag_count \<noteq> Panic"
proof (induction "length tags - tag_count" arbitrary: etype tags offset tag_count)
  case 0
  then show ?case by (simp add: parse_vlan_tags.simps)
next
  case (Suc n)
  have "parse_vlan_tags frame etype' (tags[tag_count := t]) offset' (Suc tag_count) \<noteq> Panic"
    for etype' t offset'
    using Suc.hyps(1) [of "tags[tag_count := t]" "Suc tag_count"] Suc.hyps(2) by simp
  moreover have "tag_count < length tags"
    using Suc.hyps(2) by simp
  ultimately show ?case
    by (subst parse_vlan_tags.simps)
      (auto simp: outcome_simps store_at_def VLAN_HEADER_LENGTH_def split: if_splits
        dest!: get_range_SomeD)
qed

lemma parse_ethernet_no_panic: "parse_ethernet frame \<noteq> Panic"
  by (auto simp: parse_ethernet_def outcome_simps ETHERNET_HEADER_LENGTH_def
      parse_vlan_tags_no_panic dest!: get_to_SomeD)

lemma parse_transport_no_panic: "parse_transport ip \<noteq> Panic"
  by (simp add: parse_transport_def outcome_simps parse_tcp_no_panic parse_udp_no_panic
      parse_icmp_no_panic)

lemma finish_ip_no_panic: "finish_ip eth ip \<noteq> Panic"
  by (simp add: finish_ip_def outcome_simps parse_transport_no_panic)

lemma parse_packet_total: "parse_packet frame \<noteq> Panic"
  by (auto simp: parse_packet_def Let_def outcome_simps parse_ethernet_no_panic parse_arp_no_panic
      parse_ipv4_no_panic parse_ipv6_no_panic finish_ip_no_panic)

text \<open>
  C15.  The parser is total on untrusted input: on no frame, however truncated or malformed, does an
  index or a slice of the parser go out of range.
\<close>

theorem parse_packet_no_panic: "parse_packet frame \<noteq> Panic"
  by (rule parse_packet_total)

section \<open>Views into the frame\<close>



lemma sublist_drop_le: "sublist xs ys \<Longrightarrow> sublist (drop a xs) ys"
  by (meson sublist_drop sublist_order.order_trans)

lemma sublist_take_le: "sublist xs ys \<Longrightarrow> sublist (take a xs) ys"
  by (meson sublist_take sublist_order.order_trans)





















end
