(* ===== verification/Packet_Stats.thy ===== *)
theory Packet_Stats
  imports Packet_Parser Error_Model Complex_Main
begin

text \<open>
  The statistics of the packet crate (src/crates/packet/src/lib.rs): packet views and the capture
  filter, worker counters and their aggregation, the assessment of analysis confidence and the stop
  token.  A double is a real number or not finite; the rounding of arithmetic results is an
  argument (\<open>rnd\<close>) of the definitions that compute with doubles.
\<close>

datatype f64 = Finite real | NonFinite

section \<open>Views and the filter\<close>

record packet_view =
  view_bytes :: bytes
  timestamp_nanoseconds :: u64
  wire_length :: u32
  queue_id :: u16

record packet_filter =
  filter_protocol :: "u8 option"
  filter_source_ip :: "ip_addr option"
  filter_destination_ip :: "ip_addr option"
  filter_source_port :: "u16 option"
  filter_destination_port :: "u16 option"

text \<open>\<open>option.is_some_and(|x| x != y)\<close>: the field is set and differs.\<close>

definition differs :: "'a option \<Rightarrow> 'a \<Rightarrow> bool" where
  "differs wanted actual = (case wanted of None \<Rightarrow> False | Some w \<Rightarrow> w \<noteq> actual)"

fun transport_ports :: "transport_packet option \<Rightarrow> (u16 \<times> u16) option" where
  "transport_ports (Some (Tcp segment)) =
     Some (tcp_source_port segment, tcp_destination_port segment)"
| "transport_ports (Some (Udp datagram)) =
     Some (udp_source_port datagram, udp_destination_port datagram)"
| "transport_ports _ = None"

definition filter_matches :: "packet_filter \<Rightarrow> packet_view \<Rightarrow> bool" where
  "filter_matches self packet =
     (case parse_packet (view_bytes packet) of
        Ok parsed \<Rightarrow>
          (case pp_ip parsed of
             None \<Rightarrow> False
           | Some ip \<Rightarrow>
               if differs (filter_protocol self) (ip_protocol ip)
                  \<or> differs (filter_source_ip self) (ip_source ip)
                  \<or> differs (filter_destination_ip self) (ip_destination ip)
               then False
               else if filter_source_port self \<noteq> None \<or> filter_destination_port self \<noteq> None then
                 (case transport_ports (pp_transport parsed) of
                    None \<Rightarrow> False
                  | Some (sport, dport) \<Rightarrow>
                      if differs (filter_source_port self) sport
                         \<or> differs (filter_destination_port self) dport
                      then False else True)
               else True)
      | _ \<Rightarrow> False)"

section \<open>Counters\<close>

record drop_accounting =
  nic :: u64
  driver :: u64
  capture_drops :: u64
  ring :: u64
  analyzer :: u64
  application :: u64
  network_inferred_loss :: u64

record worker_stats =
  rx_packets :: u64
  rx_bytes :: u64
  tcp_packets :: u64
  udp_packets :: u64
  ipv4_packets :: u64
  ipv6_packets :: u64
  icmp_packets :: u64
  other_packets :: u64
  stat_flows :: u64
  retransmissions :: u64
  parse_errors :: u64
  sampled_out_packets :: u64
  stat_drops :: drop_accounting

definition default_drops :: drop_accounting where
  "default_drops =
     \<lparr>nic = 0, driver = 0, capture_drops = 0, ring = 0, analyzer = 0, application = 0,
      network_inferred_loss = 0\<rparr>"

definition default_stats :: worker_stats where
  "default_stats =
     \<lparr>rx_packets = 0, rx_bytes = 0, tcp_packets = 0, udp_packets = 0, ipv4_packets = 0,
      ipv6_packets = 0, icmp_packets = 0, other_packets = 0, stat_flows = 0, retransmissions = 0,
      parse_errors = 0, sampled_out_packets = 0, stat_drops = default_drops\<rparr>"

definition record_packet :: "u32 \<Rightarrow> worker_stats \<Rightarrow> worker_stats" where
  "record_packet wlen self =
     self\<lparr>rx_packets := sat_add (rx_packets self) 1,
          rx_bytes := sat_add (rx_bytes self) (ucast wlen)\<rparr>"

definition drops_add_assign :: "drop_accounting \<Rightarrow> drop_accounting \<Rightarrow> drop_accounting" where
  "drops_add_assign self other =
     \<lparr>nic = sat_add (nic self) (nic other),
      driver = sat_add (driver self) (driver other),
      capture_drops = sat_add (capture_drops self) (capture_drops other),
      ring = sat_add (ring self) (ring other),
      analyzer = sat_add (analyzer self) (analyzer other),
      application = sat_add (application self) (application other),
      network_inferred_loss = sat_add (network_inferred_loss self) (network_inferred_loss other)\<rparr>"

definition stats_add_assign :: "worker_stats \<Rightarrow> worker_stats \<Rightarrow> worker_stats" where
  "stats_add_assign self other =
     \<lparr>rx_packets = sat_add (rx_packets self) (rx_packets other),
      rx_bytes = sat_add (rx_bytes self) (rx_bytes other),
      tcp_packets = sat_add (tcp_packets self) (tcp_packets other),
      udp_packets = sat_add (udp_packets self) (udp_packets other),
      ipv4_packets = sat_add (ipv4_packets self) (ipv4_packets other),
      ipv6_packets = sat_add (ipv6_packets self) (ipv6_packets other),
      icmp_packets = sat_add (icmp_packets self) (icmp_packets other),
      other_packets = sat_add (other_packets self) (other_packets other),
      stat_flows = sat_add (stat_flows self) (stat_flows other),
      retransmissions = sat_add (retransmissions self) (retransmissions other),
      parse_errors = sat_add (parse_errors self) (parse_errors other),
      sampled_out_packets = sat_add (sampled_out_packets self) (sampled_out_packets other),
      stat_drops = drops_add_assign (stat_drops self) (stat_drops other)\<rparr>"

record statistics_snapshot =
  counters :: worker_stats
  elapsed_nanoseconds :: u64
  rx_packets_per_second :: real
  rx_bits_per_second :: real
  rx_mpps :: real
  rx_gbps :: real

text \<open>\<open>Duration::as_secs_f64\<close> of a duration in nanoseconds.\<close>

definition as_secs_f64 :: "(real \<Rightarrow> real) \<Rightarrow> nat \<Rightarrow> real" where
  "as_secs_f64 rnd nanos =
     rnd (rnd (real (nanos div 1000000000)) + rnd (real (nanos mod 1000000000) / 1000000000))"

text \<open>
  \<open>aggregate_statistics\<close>; the elapsed \<open>Duration\<close> is its whole number of nanoseconds, and every
  result is finite because the divisor is positive.
\<close>

definition aggregate_statistics ::
  "(real \<Rightarrow> real) \<Rightarrow> worker_stats list \<Rightarrow> nat \<Rightarrow> statistics_snapshot" where
  "aggregate_statistics rnd workers elapsed =
     (let c = foldl stats_add_assign default_stats workers;
          seconds = as_secs_f64 rnd elapsed;
          (pps, bps) =
            (if seconds > 0 then
               (rnd (rnd (real (unat (rx_packets c))) / seconds),
                rnd (rnd (rnd (real (unat (rx_bytes c))) * 8) / seconds))
             else (0, 0)) in
      \<lparr>counters = c, elapsed_nanoseconds = clamp_from_nat elapsed,
       rx_packets_per_second = pps, rx_bits_per_second = bps,
       rx_mpps = rnd (pps / 1000000), rx_gbps = rnd (bps / 1000000000)\<rparr>)"

section \<open>Confidence\<close>

datatype analysis_confidence = High | Medium | Low | Invalid

datatype invalid_runtime_reason =
  CounterReset | NicReset | CaptureBackendFailure | ClockDiscontinuity

record confidence_thresholds =
  max_medium_capture_ratio :: f64
  max_medium_ring_ratio :: f64
  max_medium_analyzer_ratio :: f64

record confidence_evidence =
  received_packets :: u64
  evidence_drops :: drop_accounting
  required_flow_state_complete :: bool
  invalid_reason :: "invalid_runtime_reason option"

record confidence_assessment =
  level :: analysis_confidence
  reason :: string

text \<open>\<open>(0.0..=1.0).contains(&ratio)\<close> and \<open>value <= threshold\<close> on doubles.\<close>

fun unit_interval_contains :: "f64 \<Rightarrow> bool" where
  "unit_interval_contains (Finite r) = (0 \<le> r \<and> r \<le> 1)"
| "unit_interval_contains NonFinite = False"

fun f64_le :: "real \<Rightarrow> f64 \<Rightarrow> bool" where
  "f64_le x (Finite r) = (x \<le> r)"
| "f64_le x NonFinite = False"

definition validate_thresholds :: "confidence_thresholds \<Rightarrow> unit result" where
  "validate_thresholds thresholds =
     (if list_all unit_interval_contains
           [max_medium_capture_ratio thresholds, max_medium_ring_ratio thresholds,
            max_medium_analyzer_ratio thresholds]
      then Ok ()
      else Err (new_error InvalidArgument ''confidence thresholds must be between zero and one''
             False))"

definition assess_confidence ::
  "(real \<Rightarrow> real) \<Rightarrow> confidence_evidence \<Rightarrow> confidence_thresholds option
     \<Rightarrow> confidence_assessment result" where
  "assess_confidence rnd evidence thresholds =
     (let drops = evidence_drops evidence in
      if invalid_reason evidence \<noteq> None then
        Ok \<lparr>level = Invalid, reason = ''invalid_runtime_evidence''\<rparr>
      else if \<not> required_flow_state_complete evidence then
        Ok \<lparr>level = Low, reason = ''flow_state_incomplete''\<rparr>
      else if capture_drops drops = 0 \<and> ring drops = 0 \<and> analyzer drops = 0 then
        Ok \<lparr>level = High, reason = ''analysis_path_complete''\<rparr>
      else case thresholds of
        None \<Rightarrow> Ok \<lparr>level = Low, reason = ''drop_threshold_not_frozen''\<rparr>
      | Some th \<Rightarrow>
          and_then (validate_thresholds th) (\<lambda>_.
          let denominator =
                rnd (real (unat (max (sat_add (sat_add (sat_add (received_packets evidence)
                  (capture_drops drops)) (ring drops)) (analyzer drops)) 1)));
              ratio = (\<lambda>n :: u64. rnd (rnd (real (unat n)) / denominator)) in
          if f64_le (ratio (capture_drops drops)) (max_medium_capture_ratio th)
             \<and> f64_le (ratio (ring drops)) (max_medium_ring_ratio th)
             \<and> f64_le (ratio (analyzer drops)) (max_medium_analyzer_ratio th)
          then Ok \<lparr>level = Medium, reason = ''analysis_drop_within_threshold''\<rparr>
          else Ok \<lparr>level = Low, reason = ''analysis_drop_exceeds_threshold''\<rparr>))"

section \<open>Stop token\<close>

record stop_token =
  stopped :: bool

definition new_stop_token :: stop_token where
  "new_stop_token = \<lparr>stopped = False\<rparr>"

definition stop :: "stop_token \<Rightarrow> stop_token" where
  "stop self = self\<lparr>stopped := True\<rparr>"

definition is_stopped :: "stop_token \<Rightarrow> bool" where
  "is_stopped self = stopped self"

section \<open>Properties\<close>

text \<open>
  Analysis confidence is honest: it is \<open>High\<close> exactly when there is no invalidating event, the
  flow state is complete and no packet was dropped by capture, ring or analyzer; and it is
  \<open>Medium\<close> only with explicit thresholds in the unit interval.
\<close>

theorem assess_confidence_high:
  "((\<exists>a. assess_confidence rnd ev th = Ok a \<and> level a = High) \<longleftrightarrow>
      invalid_reason ev = None \<and> required_flow_state_complete ev
      \<and> capture_drops (evidence_drops ev) = 0 \<and> ring (evidence_drops ev) = 0
      \<and> analyzer (evidence_drops ev) = 0)
   \<and> ((\<nexists>a. assess_confidence rnd ev th = Ok a \<and> level a = Medium)
      \<or> (\<exists>t. th = Some t \<and> unit_interval_contains (max_medium_capture_ratio t)
            \<and> unit_interval_contains (max_medium_ring_ratio t)
            \<and> unit_interval_contains (max_medium_analyzer_ratio t)))"
  by (auto simp: assess_confidence_def Let_def validate_thresholds_def split: option.splits)

definition dropping_evidence :: confidence_evidence where
  "dropping_evidence =
     \<lparr>received_packets = 100, evidence_drops = default_drops\<lparr>ring := 1\<rparr>,
      required_flow_state_complete = True, invalid_reason = None\<rparr>"

theorem assess_confidence_high_witness:
  "\<not> (\<exists>a. assess_confidence (\<lambda>x. x) dropping_evidence None = Ok a \<and> level a = High)"
  using assess_confidence_high [of "\<lambda>x. x" dropping_evidence None]
  by (simp add: dropping_evidence_def default_drops_def)

lemma sat_add_assoc: "sat_add (sat_add a b) c = sat_add a (sat_add b c)"
  by (simp add: word_unat_eq_iff unat_sat_add)

lemma sat_add_commute: "sat_add a b = sat_add b a"
  by (simp add: word_unat_eq_iff unat_sat_add add.commute)

lemma sat_add_right_commute: "sat_add (sat_add a b) c = sat_add (sat_add a c) b"
  by (metis sat_add_assoc sat_add_commute)

lemma stats_add_right_commute:
  "stats_add_assign (stats_add_assign a b) c = stats_add_assign (stats_add_assign a c) b"
  by (simp add: stats_add_assign_def drops_add_assign_def sat_add_right_commute)

lemma foldl_stats_field:
  fixes fld :: "worker_stats \<Rightarrow> u64"
  assumes "\<And>a b. fld (stats_add_assign a b) = sat_add (fld a) (fld b)"
  shows "unat (fld (foldl stats_add_assign s ws)) =
           min (unat (fld s) + sum_list (map (\<lambda>w. unat (fld w)) ws)) (2 ^ 64 - 1)"
proof (induction ws arbitrary: s)
  case Nil
  then show ?case using unsigned_less [of "fld s", where ?'a = nat] by (simp add: min_def)
next
  case (Cons w ws)
  then show ?case by (simp add: assms unat_sat_add min_def)
qed

text \<open>
  Aggregation of worker counters does not depend on the order of the workers, and the received
  packet and byte counts of the snapshot are the sums over the workers, saturated at the largest
  64-bit value.
\<close>

theorem aggregate_statistics_sum:
  assumes "mset workers = mset workers'"
  shows "aggregate_statistics rnd workers elapsed = aggregate_statistics rnd workers' elapsed
    \<and> unat (rx_packets (counters (aggregate_statistics rnd workers elapsed)))
        = min (sum_list (map (\<lambda>w. unat (rx_packets w)) workers)) (2 ^ 64 - 1)
    \<and> unat (rx_bytes (counters (aggregate_statistics rnd workers elapsed)))
        = min (sum_list (map (\<lambda>w. unat (rx_bytes w)) workers)) (2 ^ 64 - 1)"
proof -
  have "fold (\<lambda>w s. stats_add_assign s w) workers = fold (\<lambda>w s. stats_add_assign s w) workers'"
    by (rule fold_multiset_equiv [OF _ assms]) (auto simp: stats_add_right_commute comp_def)
  then have "foldl stats_add_assign default_stats workers =
      foldl stats_add_assign default_stats workers'"
    by (simp add: foldl_conv_fold)
  moreover have c: "counters (aggregate_statistics rnd workers elapsed) =
      foldl stats_add_assign default_stats workers"
    by (simp add: aggregate_statistics_def Let_def)
  moreover have "unat (rx_packets (foldl stats_add_assign default_stats workers)) =
        min (sum_list (map (\<lambda>w. unat (rx_packets w)) workers)) (2 ^ 64 - 1)"
    by (subst foldl_stats_field) (simp_all add: stats_add_assign_def default_stats_def)
  moreover have "unat (rx_bytes (foldl stats_add_assign default_stats workers)) =
        min (sum_list (map (\<lambda>w. unat (rx_bytes w)) workers)) (2 ^ 64 - 1)"
    by (subst foldl_stats_field) (simp_all add: stats_add_assign_def default_stats_def)
  ultimately show ?thesis by (simp add: aggregate_statistics_def)
qed

theorem aggregate_statistics_sum_witness:
  "unat (rx_packets (counters (aggregate_statistics (\<lambda>x. x)
     [record_packet 60 default_stats, default_stats] 1000))) = 1"
proof -
  have "mset [record_packet 60 default_stats, default_stats] =
      mset [default_stats, record_packet 60 default_stats]"
    by simp
  from aggregate_statistics_sum [OF this, of "\<lambda>x. x" 1000, THEN conjunct2, THEN conjunct1]
  have "unat (rx_packets (counters (aggregate_statistics (\<lambda>x. x)
      [record_packet 60 default_stats, default_stats] 1000))) =
      min (unat (rx_packets (record_packet 60 default_stats)) + unat (rx_packets default_stats))
        (2 ^ 64 - 1)"
    by simp
  then show ?thesis
    by (simp add: default_stats_def record_packet_def sat_add_def)
qed

end
