(* ===== verification/Tcp_Analysis.thy ===== *)
theory Tcp_Analysis
  imports Flow Packet_Stats
begin

text \<open>
  The per-flow TCP analyzer (src/crates/packet/src/tcp.rs): classification of every segment of a
  direction against the next expected sequence number, in 32-bit modular arithmetic.
\<close>

definition FIN :: u16 where "FIN = 0x001"
definition SYN :: u16 where "SYN = 0x002"
definition RST :: u16 where "RST = 0x004"
definition ACK :: u16 where "ACK = 0x010"

record tcp_observation =
  obs_direction :: flow_direction
  obs_sequence :: u32
  obs_acknowledgement :: u32
  obs_window :: u16
  obs_flags :: u16
  payload_length :: u32

datatype tcp_classification =
  InOrder | ObservedRetransmission | SuspectedRetransmission | OutOfOrder | DuplicateAck

record tcp_flow_state =
  next_seq :: "u32 option"
  last_ack :: "u32 option"
  window :: u16
  syn_seen :: bool
  fin_seen :: bool
  rst_seen :: bool
  retransmission_count :: u64
  out_of_order_count :: u64

record tcp_analysis =
  classification :: tcp_classification
  analysis_confidence :: confidence_assessment

record tcp_flow_analyzer =
  forward :: tcp_flow_state
  reverse :: tcp_flow_state

definition default_flow_state :: tcp_flow_state where
  "default_flow_state =
     \<lparr>next_seq = None, last_ack = None, window = 0, syn_seen = False, fin_seen = False,
      rst_seen = False, retransmission_count = 0, out_of_order_count = 0\<rparr>"

definition default_analyzer :: tcp_flow_analyzer where
  "default_analyzer = \<lparr>forward = default_flow_state, reverse = default_flow_state\<rparr>"

definition seq_before :: "u32 \<Rightarrow> u32 \<Rightarrow> bool" where
  "seq_before left right \<longleftrightarrow> sint (left - right) < 0"

definition seq_after :: "u32 \<Rightarrow> u32 \<Rightarrow> bool" where
  "seq_after left right = seq_before right left"

definition flag_set :: "u16 \<Rightarrow> u16 \<Rightarrow> bool" where
  "flag_set flags flag \<longleftrightarrow> flags AND flag \<noteq> 0"

definition consumed :: "tcp_observation \<Rightarrow> u32" where
  "consumed packet =
     sat_add (sat_add (payload_length packet) (of_bool (flag_set (obs_flags packet) SYN)))
       (of_bool (flag_set (obs_flags packet) FIN))"

text \<open>The classification and the sequence update of one direction (the first half of
  \<open>observe\<close>).\<close>

definition classify ::
  "tcp_flow_state \<Rightarrow> tcp_observation \<Rightarrow> u64 \<Rightarrow> tcp_classification \<times> tcp_flow_state" where
  "classify st packet drops =
     (let consumes = consumed packet;
          seg_end = obs_sequence packet + consumes;
          duplicate_ack = flag_set (obs_flags packet) ACK \<and> consumes = 0
            \<and> last_ack st = Some (obs_acknowledgement packet) in
      if duplicate_ack then (DuplicateAck, st)
      else case next_seq st of
        Some expected \<Rightarrow>
          if seq_before (obs_sequence packet) expected then
            (if drops = 0 then ObservedRetransmission else SuspectedRetransmission,
             st\<lparr>retransmission_count := sat_add (retransmission_count st) 1\<rparr>)
          else if seq_after (obs_sequence packet) expected then
            (OutOfOrder, st\<lparr>out_of_order_count := sat_add (out_of_order_count st) 1\<rparr>)
          else (InOrder, st\<lparr>next_seq := Some seg_end\<rparr>)
      | None \<Rightarrow> (InOrder, st\<lparr>next_seq := Some seg_end\<rparr>))"

definition is_retransmission :: "tcp_classification \<Rightarrow> bool" where
  "is_retransmission c \<longleftrightarrow> c = ObservedRetransmission \<or> c = SuspectedRetransmission"

definition observe_direction ::
  "tcp_flow_state \<Rightarrow> tcp_observation \<Rightarrow> u64 \<Rightarrow> tcp_classification \<times> tcp_flow_state" where
  "observe_direction st packet drops =
     (let seg_end = obs_sequence packet + consumed packet;
          (c, st) = classify st packet drops;
          st = (if is_retransmission c
                  \<and> (case next_seq st of None \<Rightarrow> False | Some expected \<Rightarrow> seq_after seg_end expected)
                then st\<lparr>next_seq := Some seg_end\<rparr> else st);
          st = (if flag_set (obs_flags packet) ACK
                then st\<lparr>last_ack := Some (obs_acknowledgement packet)\<rparr> else st) in
      (c, st\<lparr>window := obs_window packet,
             syn_seen := syn_seen st \<or> flag_set (obs_flags packet) SYN,
             fin_seen := fin_seen st \<or> flag_set (obs_flags packet) FIN,
             rst_seen := rst_seen st \<or> flag_set (obs_flags packet) RST\<rparr>))"

definition capture_confidence :: "u64 \<Rightarrow> confidence_assessment" where
  "capture_confidence drops =
     (if drops = 0 then \<lparr>level = High, reason = ''capture_complete''\<rparr>
      else \<lparr>level = Low, reason = ''capture_drop_observed''\<rparr>)"

definition observe ::
  "tcp_flow_analyzer \<Rightarrow> tcp_observation \<Rightarrow> u64 \<Rightarrow> tcp_analysis \<times> tcp_flow_analyzer" where
  "observe self packet drops =
     (case obs_direction packet of
        Forward \<Rightarrow>
          (let (c, st) = observe_direction (forward self) packet drops in
           (\<lparr>classification = c, analysis_confidence = capture_confidence drops\<rparr>,
            self\<lparr>forward := st\<rparr>))
      | Reverse \<Rightarrow>
          (let (c, st) = observe_direction (reverse self) packet drops in
           (\<lparr>classification = c, analysis_confidence = capture_confidence drops\<rparr>,
            self\<lparr>reverse := st\<rparr>)))"

section \<open>Sequence arithmetic\<close>

lemma seq_before_irrefl [simp]: "\<not> seq_before a a"
  by (simp add: seq_before_def)

lemma seq_after_irrefl [simp]: "\<not> seq_after a a"
  by (simp add: seq_after_def)

lemma sint_u32_neg: "sint (w :: u32) < 0 \<longleftrightarrow> 2 ^ 31 \<le> unat w"
proof -
  define u where "u = uint w"
  have u: "0 \<le> u" "u < 2 ^ 32"
    using uint_lt2p [of w] by (simp_all add: u_def)
  have "sint w = signed_take_bit 31 u"
    by (simp add: sint_uint u_def)
  also have "\<dots> = (u + 2 ^ 31) mod 2 ^ 32 - 2 ^ 31"
    by (simp add: signed_take_bit_eq_take_bit_shift take_bit_eq_mod)
  finally have "sint w < 0 \<longleftrightarrow> 2 ^ 31 \<le> u"
    using u mod_add_self2 [of "u - 2 ^ 31" "2 ^ 32"] by (cases "u < 2 ^ 31") (auto simp: add.commute)
  moreover have "unat w = nat u"
    by (simp add: u_def)
  ultimately show ?thesis by auto
qed

lemma seq_before_iff: "seq_before a b \<longleftrightarrow> 2 ^ 31 \<le> unat (a - b)"
  by (simp add: seq_before_def sint_u32_neg)

lemma unat_uminus_u32: "(n :: u32) \<noteq> 0 \<Longrightarrow> unat (- n) = 2 ^ 32 - unat n"
  using unat_sub_if' [of 0 n] by (simp add: unat_gt_0)

lemma seq_before_add:
  assumes "0 < unat n" "unat n < 2 ^ 31"
  shows "seq_before a (a + n)" "\<not> seq_after a (a + n)"
  using assms unat_uminus_u32 [of n] by (auto simp: seq_before_iff seq_after_def unat_gt_0)

section \<open>Properties\<close>

lemma consumed_not_dup: "consumed p \<noteq> 0 \<Longrightarrow>
    classify st p drops =
      (case next_seq st of
         Some expected \<Rightarrow>
           if seq_before (obs_sequence p) expected then
             (if drops = 0 then ObservedRetransmission else SuspectedRetransmission,
              st\<lparr>retransmission_count := sat_add (retransmission_count st) 1\<rparr>)
           else if seq_after (obs_sequence p) expected then
             (OutOfOrder, st\<lparr>out_of_order_count := sat_add (out_of_order_count st) 1\<rparr>)
           else (InOrder, st\<lparr>next_seq := Some (obs_sequence p + consumed p)\<rparr>)
       | None \<Rightarrow> (InOrder, st\<lparr>next_seq := Some (obs_sequence p + consumed p)\<rparr>))"
  by (simp add: classify_def Let_def)

lemma observe_direction_in_order:
  assumes "consumed p \<noteq> 0" "next_seq st = None \<or> next_seq st = Some (obs_sequence p)"
  shows "fst (observe_direction st p drops) = InOrder
    \<and> next_seq (snd (observe_direction st p drops)) = Some (obs_sequence p + consumed p)
    \<and> retransmission_count (snd (observe_direction st p drops)) = retransmission_count st
    \<and> out_of_order_count (snd (observe_direction st p drops)) = out_of_order_count st"
  using assms
  by (auto simp: observe_direction_def consumed_not_dup is_retransmission_def Let_def)




definition data_segment :: "u32 \<Rightarrow> u32 \<Rightarrow> tcp_observation" where
  "data_segment s n =
     \<lparr>obs_direction = Forward, obs_sequence = s, obs_acknowledgement = 0, obs_window = 100,
      obs_flags = 0, payload_length = n\<rparr>"

lemma consumed_data_segment [simp]: "consumed (data_segment s n) = n"
  using unsigned_less [of n, where ?'a = nat]
  by (simp add: consumed_def data_segment_def flag_set_def sat_add_def)


text \<open>
  Retransmissions are recognised across the wrap: a segment of fewer than \<open>2 ^ 31\<close> bytes that
  is observed again right after it was accepted in order is a retransmission (observed when nothing
  was dropped, suspected otherwise), is counted, and does not move the expected sequence number.
\<close>

theorem repeated_segment_is_retransmission:
  assumes "0 < unat (consumed p)" "unat (consumed p) < 2 ^ 31"
    and "next_seq st = Some (obs_sequence p)"
    and "observe_direction st p d1 = (c1, st1)" "observe_direction st1 p d2 = (c2, st2)"
  shows "c1 = InOrder
    \<and> c2 = (if d2 = 0 then ObservedRetransmission else SuspectedRetransmission)
    \<and> next_seq st2 = Some (obs_sequence p + consumed p)
    \<and> retransmission_count st2 = sat_add (retransmission_count st) 1"
proof -
  have nz: "consumed p \<noteq> 0" using assms(1) by auto
  have one: "c1 = InOrder" "next_seq st1 = Some (obs_sequence p + consumed p)"
    "retransmission_count st1 = retransmission_count st"
    using observe_direction_in_order [OF nz, of st d1] assms(3,4) by auto
  have "seq_before (obs_sequence p) (obs_sequence p + consumed p)"
    using seq_before_add(1) [OF assms(1,2)] .
  then show ?thesis
    using assms(5) one
    by (auto simp: observe_direction_def consumed_not_dup [OF nz] is_retransmission_def Let_def)
qed

theorem repeated_segment_is_retransmission_witness:
  "fst (observe_direction (snd (observe_direction (default_flow_state\<lparr>next_seq := Some 10\<rparr>)
      (data_segment 10 5) 0)) (data_segment 10 5) 0) = ObservedRetransmission"
  using repeated_segment_is_retransmission [of "data_segment 10 5"
      "default_flow_state\<lparr>next_seq := Some 10\<rparr>" 0, OF _ _ _ prod.collapse [symmetric]
      prod.collapse [symmetric]]
  by (simp add: data_segment_def consumed_def flag_set_def sat_add_def)

text \<open>
  A segment that starts before the expected sequence number is reported as an observed
  retransmission even if it carries bytes that were never seen: here bytes 100 to 109.
\<close>

lemma partial_overlap_reported_as_observed:
  "fst (observe_direction (default_flow_state\<lparr>next_seq := Some 100\<rparr>) (data_segment 90 20) 0)
     = ObservedRetransmission
   \<and> next_seq (snd (observe_direction (default_flow_state\<lparr>next_seq := Some 100\<rparr>)
       (data_segment 90 20) 0)) = Some 110"
  by (simp add: observe_direction_def consumed_not_dup is_retransmission_def seq_before_iff
      seq_after_def data_segment_def consumed_def flag_set_def sat_add_def default_flow_state_def)

lemma half_space_before_and_after: "seq_before 0 0x80000000 \<and> seq_after 0 0x80000000"
  by (simp add: seq_before_iff seq_after_def)

end
