(* ===== verification/Capture.thy ===== *)
theory Capture
  imports Packet_Stats "HOL-Library.Sublist"
begin

text \<open>
  Packet capture (src/crates/packet/src/capture.rs): the bounded queue between a worker and the
  writer, the PCAP and PCAPNG encoders, and the rotating writer.  The encoders are modelled on an
  in-memory writer: they return the bytes they append and the count they report.  The file system
  of the rotating writer is a map from paths to contents, on which creation, append and removal do
  not fail except that a missing file cannot be removed; the clock is an argument.
\<close>

definition PCAP_GLOBAL_HEADER_LENGTH :: u64 where "PCAP_GLOBAL_HEADER_LENGTH = 24"
definition PCAP_RECORD_HEADER_LENGTH :: u64 where "PCAP_RECORD_HEADER_LENGTH = 16"

section \<open>Capture modes and records\<close>

datatype capture_mode = MetadataOnly | HeaderOnly | Snaplen u32 | FullPacket

fun retained_length :: "capture_mode \<Rightarrow> nat \<Rightarrow> nat" where
  "retained_length MetadataOnly visible = 0"
| "retained_length HeaderOnly visible = min visible 128"
| "retained_length (Snaplen len) visible = min visible (unat len)"
| "retained_length FullPacket visible = visible"

fun snaplen :: "capture_mode \<Rightarrow> u32" where
  "snaplen MetadataOnly = 1"
| "snaplen HeaderOnly = 128"
| "snaplen (Snaplen len) = len"
| "snaplen FullPacket = - 1"

datatype capture_format = PcapNg | Pcap

record capture_record =
  rec_timestamp :: u64
  rec_wire_length :: u32
  rec_queue_id :: u16
  rec_bytes :: bytes

section \<open>The capture queue\<close>

text \<open>
  The bounded channel of \<open>std::sync::mpsc::sync_channel\<close>: the records in flight, the capacity, and
  whether each end is still alive.
\<close>

record capture_channel =
  in_flight :: "capture_record list"
  capacity :: nat
  receiver_alive :: bool
  sender_alive :: bool

record capture_queue =
  channel :: capture_channel
  mode :: capture_mode

datatype try_send = Sent capture_channel | Full | SendDisconnected

definition try_send_record :: "capture_channel \<Rightarrow> capture_record \<Rightarrow> try_send" where
  "try_send_record ch r =
     (if \<not> receiver_alive ch then SendDisconnected
      else if length (in_flight ch) \<ge> capacity ch then Full
      else Sent (ch\<lparr>in_flight := in_flight ch @ [r]\<rparr>))"

definition bounded :: "nat \<Rightarrow> capture_mode \<Rightarrow> capture_queue result" where
  "bounded cap m =
     (if cap = 0 then
        Err (new_error InvalidArgument ''capture queue capacity must be greater than zero'' False)
      else Ok \<lparr>channel = \<lparr>in_flight = [], capacity = cap, receiver_alive = True,
              sender_alive = True\<rparr>, mode = m\<rparr>)"

definition captured_record :: "capture_mode \<Rightarrow> packet_view \<Rightarrow> (nettool_error, capture_record) outcome" where
  "captured_record m packet =
     and_then (slice_to (view_bytes packet) (retained_length m (length (view_bytes packet)))) (\<lambda>bs.
       Ok \<lparr>rec_timestamp = timestamp_nanoseconds packet, rec_wire_length = wire_length packet,
           rec_queue_id = queue_id packet, rec_bytes = bs\<rparr>)"

text \<open>\<open>try_capture\<close>: the queue and the worker's statistics after one packet.\<close>

definition try_capture ::
  "capture_queue \<Rightarrow> packet_view \<Rightarrow> worker_stats \<Rightarrow> (capture_queue \<times> worker_stats) result" where
  "try_capture self packet stats =
     and_then (captured_record (mode self) packet) (\<lambda>r.
     case try_send_record (channel self) r of
       Sent ch \<Rightarrow> Ok (self\<lparr>channel := ch\<rparr>, stats)
     | Full \<Rightarrow>
         Ok (self, stats\<lparr>stat_drops := (stat_drops stats)
               \<lparr>capture_drops := sat_add (capture_drops (stat_drops stats)) 1\<rparr>\<rparr>)
     | SendDisconnected \<Rightarrow>
         Ok (self, stats\<lparr>stat_drops := (stat_drops stats)
               \<lparr>application := sat_add (application (stat_drops stats)) 1\<rparr>\<rparr>))"

datatype try_recv_error = RecvEmpty | RecvDisconnected

definition try_receive :: "capture_channel \<Rightarrow> (try_recv_error + capture_record) \<times> capture_channel" where
  "try_receive ch =
     (case in_flight ch of
        [] \<Rightarrow> (Inl (if sender_alive ch then RecvEmpty else RecvDisconnected), ch)
      | r # rest \<Rightarrow> (Inr r, ch\<lparr>in_flight := rest\<rparr>))"

section \<open>Storage certification\<close>

record capture_storage_evidence =
  expected_bytes_per_second :: u64
  measured_bytes_per_second :: u64
  required_capacity_bytes :: u64
  available_capacity_bytes :: u64

record capture_storage_guard =
  rate_sufficient :: bool
  capacity_sufficient :: bool

definition certify_capture_storage ::
  "capture_storage_evidence \<Rightarrow> capture_storage_guard result" where
  "certify_capture_storage evidence =
     (let guard =
        \<lparr>rate_sufficient = (measured_bytes_per_second evidence \<ge> expected_bytes_per_second evidence),
         capacity_sufficient =
           (available_capacity_bytes evidence \<ge> required_capacity_bytes evidence)\<rparr> in
      if rate_sufficient guard \<and> capacity_sufficient guard then Ok guard
      else
        Err ((new_error LosslessCaptureNotCertified
                ''storage cannot sustain the requested lossless capture'' False)
          \<lparr>details :=
             [(''available_capacity_bytes'', decimal (unat (available_capacity_bytes evidence))),
              (''expected_bytes_per_second'', decimal (unat (expected_bytes_per_second evidence))),
              (''measured_bytes_per_second'', decimal (unat (measured_bytes_per_second evidence))),
              (''required_capacity_bytes'', decimal (unat (required_capacity_bytes evidence)))]\<rparr>))"

section \<open>Encoders\<close>

datatype io_error = InvalidInput string | NotFound

type_synonym 'a io = "(io_error, 'a) outcome"

lemma padding_decreases:
  assumes "n mod 4 \<noteq> 0"
  shows "(4 - Suc n mod 4) mod 4 < (4 - n mod 4) mod (4 :: nat)"
proof -
  have "n mod 4 < 4" by simp
  with assms have "n mod 4 \<in> {1, 2, 3}" by auto
  then show ?thesis by (auto simp: mod_Suc)
qed

function pad_to_u32 :: "bytes \<Rightarrow> bytes" where
  "pad_to_u32 bs = (if length bs mod 4 \<noteq> 0 then pad_to_u32 (bs @ [0]) else bs)"
  by auto
termination
proof (relation "measure (\<lambda>bs. (4 - length bs mod 4) mod 4)")
  fix bs :: bytes
  assume "length bs mod 4 \<noteq> 0"
  then show "(bs @ [0], bs) \<in> measure (\<lambda>bs. (4 - length bs mod 4) mod 4)"
    using padding_decreases [of "length bs"] by simp
qed simp

declare pad_to_u32.simps [simp del]

definition record_encoded_length :: "capture_format \<Rightarrow> nat \<Rightarrow> u64" where
  "record_encoded_length format captured_length =
     (let captured = (clamp_from_nat captured_length :: u64) in
      case format of
        Pcap \<Rightarrow> sat_add PCAP_RECORD_HEADER_LENGTH captured
      | PcapNg \<Rightarrow> sat_add 56 (sat_add captured 3 AND NOT 3))"

definition write_pcap_header :: "u32 \<Rightarrow> u64 \<times> bytes" where
  "write_pcap_header snap =
     (PCAP_GLOBAL_HEADER_LENGTH,
      to_le_bytes 4 (0xa1b23c4d :: u32) @ to_le_bytes 2 (2 :: u16) @ to_le_bytes 2 (4 :: u16)
      @ to_le_bytes 4 (0 :: u32) @ to_le_bytes 4 (0 :: u32) @ to_le_bytes 4 snap
      @ to_le_bytes 4 (1 :: u32))"

definition write_pcap_record :: "capture_record \<Rightarrow> u64 \<times> bytes" where
  "write_pcap_record r =
     (let seconds = rec_timestamp r div 1000000000;
          nanoseconds = rec_timestamp r mod 1000000000;
          captured = (clamp_from_nat (length (rec_bytes r)) :: u32) in
      (PCAP_RECORD_HEADER_LENGTH + ucast captured,
       to_le_bytes 4 (clamp_from_nat (unat seconds) :: u32)
       @ to_le_bytes 4 (clamp_from_nat (unat nanoseconds) :: u32)
       @ to_le_bytes 4 captured @ to_le_bytes 4 (rec_wire_length r) @ rec_bytes r))"

definition bodies_length :: "bytes list \<Rightarrow> u64 option" where
  "bodies_length bodies =
     foldl (\<lambda>total body. Option.bind total (\<lambda>t. checked_add t (clamp_from_nat (length body))))
       (Some 0) bodies"

definition write_block :: "u32 \<Rightarrow> bytes list \<Rightarrow> (u64 \<times> bytes) io" where
  "write_block block_type bodies =
     and_then (ok_or (InvalidInput ''capture block too large'') (bodies_length bodies)) (\<lambda>body_length.
     and_then (ok_or (InvalidInput ''capture block too large'') (checked_add body_length 12)) (\<lambda>total.
     and_then (ok_or (InvalidInput ''capture block too large'') (try_from_nat (unat total) :: u32 option))
       (\<lambda>total_u32.
         Ok (total, to_le_bytes 4 block_type @ to_le_bytes 4 total_u32 @ concat bodies
                    @ to_le_bytes 4 total_u32))))"

definition interface_options :: "bytes \<Rightarrow> u16 \<Rightarrow> bytes" where
  "interface_options name name_length =
     pad_to_u32
       (pad_to_u32 (to_le_bytes 2 (2 :: u16) @ to_le_bytes 2 name_length @ name)
        @ to_le_bytes 2 (9 :: u16) @ to_le_bytes 2 (1 :: u16) @ [9])
     @ to_le_bytes 4 (0 :: u32)"

definition interface_body :: "u32 \<Rightarrow> bytes \<Rightarrow> u16 \<Rightarrow> bytes" where
  "interface_body snap name name_length =
     to_le_bytes 2 (1 :: u16) @ to_le_bytes 2 (0 :: u16) @ to_le_bytes 4 snap
     @ interface_options name name_length"

definition write_pcapng_header :: "u32 \<Rightarrow> string \<Rightarrow> (u64 \<times> bytes) io" where
  "write_pcapng_header snap interface_name =
     and_then (write_block 0x0a0d0d0a
         [to_le_bytes 4 (0x1a2b3c4d :: u32), to_le_bytes 2 (1 :: u16), to_le_bytes 2 (0 :: u16),
          to_le_bytes 8 (- 1 :: u64)]) (\<lambda>(_, section).
     let name = str_bytes interface_name;
         name_length = (clamp_from_nat (length name) :: u16) in
     and_then (slice_to name (unat name_length)) (\<lambda>name.
     and_then (write_block 1 [interface_body snap name name_length]) (\<lambda>(interface_block, bs).
       Ok (28 + interface_block, section @ bs))))"

definition queue_comment :: "u16 \<Rightarrow> string" where
  "queue_comment q = ''queue_id='' @ decimal (unat q)"

definition enhanced_packet_body :: "capture_record \<Rightarrow> bytes" where
  "enhanced_packet_body r =
     (let captured = (clamp_from_nat (length (rec_bytes r)) :: u32);
          timestamp_high = (clamp_from_nat (unat (drop_bit 32 (rec_timestamp r))) :: u32);
          timestamp_low = (clamp_from_nat (unat (rec_timestamp r AND 0xFFFFFFFF)) :: u32);
          comment = queue_comment (rec_queue_id r) in
      pad_to_u32
        (pad_to_u32
           (to_le_bytes 4 (0 :: u32) @ to_le_bytes 4 timestamp_high @ to_le_bytes 4 timestamp_low
            @ to_le_bytes 4 captured @ to_le_bytes 4 (rec_wire_length r) @ rec_bytes r)
         @ to_le_bytes 2 (1 :: u16)
         @ to_le_bytes 2 (clamp_from_nat (length comment) :: u16) @ str_bytes comment)
      @ to_le_bytes 4 (0 :: u32))"

definition write_pcapng_record :: "capture_record \<Rightarrow> (u64 \<times> bytes) io" where
  "write_pcapng_record r = write_block 6 [enhanced_packet_body r]"

definition write_file_header :: "capture_format \<Rightarrow> capture_mode \<Rightarrow> string \<Rightarrow> (u64 \<times> bytes) io" where
  "write_file_header format m interface_name =
     (case format of
        Pcap \<Rightarrow> Ok (write_pcap_header (snaplen m))
      | PcapNg \<Rightarrow> write_pcapng_header (snaplen m) interface_name)"

definition encode_record :: "capture_format \<Rightarrow> capture_record \<Rightarrow> (u64 \<times> bytes) io" where
  "encode_record format r =
     (case format of Pcap \<Rightarrow> Ok (write_pcap_record r) | PcapNg \<Rightarrow> write_pcapng_record r)"

section \<open>The rotating writer\<close>

type_synonym path = "string \<times> string"
type_synonym file_system = "path \<rightharpoonup> bytes"

record capture_rotation =
  maximum_bytes :: "u64 option"
  maximum_duration :: "nat option"
  file_count :: nat

record rotating_capture_writer =
  directory :: string
  prefix :: string
  format :: capture_format
  writer_mode :: capture_mode
  interface_name :: string
  rotation :: capture_rotation
  generation :: u64
  current :: path
  current_bytes :: u64
  records_in_current :: u64
  opened_at :: nat
  retained_files :: "path list"

text \<open>The format \<open>{generation:016x}\<close>.\<close>

definition hex_lower :: "nat \<Rightarrow> char" where
  "hex_lower d = (if d < 10 then char_of (48 + d) else char_of (87 + d))"

fun hex_digits :: "nat \<Rightarrow> nat \<Rightarrow> string" where
  "hex_digits 0 n = []"
| "hex_digits (Suc k) n = hex_digits k (n div 16) @ [hex_lower (n mod 16)]"

definition capture_path :: "string \<Rightarrow> string \<Rightarrow> capture_format \<Rightarrow> u64 \<Rightarrow> path" where
  "capture_path dir pre fmt gen =
     (dir, pre @ ''-'' @ hex_digits 16 (unat gen) @ ''.''
           @ (case fmt of PcapNg \<Rightarrow> ''pcapng'' | Pcap \<Rightarrow> ''pcap''))"

definition create ::
  "file_system \<Rightarrow> string \<Rightarrow> string \<Rightarrow> capture_format \<Rightarrow> capture_mode \<Rightarrow> string
     \<Rightarrow> capture_rotation \<Rightarrow> nat \<Rightarrow> rotating_capture_writer io \<times> file_system" where
  "create fs dir pre fmt m iface rot now =
     (if file_count rot = 0 \<or> maximum_bytes rot = Some 0 then
        (Err (InvalidInput ''invalid capture rotation policy''), fs)
      else
        let path = capture_path dir pre fmt 0 in
        case write_file_header fmt m iface of
          Ok (written, header) \<Rightarrow>
            (Ok \<lparr>directory = dir, prefix = pre, format = fmt, writer_mode = m,
                 interface_name = iface, rotation = rot, generation = 0, current = path,
                 current_bytes = written, records_in_current = 0, opened_at = now,
                 retained_files = [path]\<rparr>, fs(path \<mapsto> header))
        | Err e \<Rightarrow> (Err e, fs(path \<mapsto> []))
        | Panic \<Rightarrow> (Panic, fs(path \<mapsto> [])))"

definition should_rotate :: "rotating_capture_writer \<Rightarrow> u64 \<Rightarrow> nat \<Rightarrow> bool" where
  "should_rotate self next_record_bytes now \<longleftrightarrow>
     (case maximum_bytes (rotation self) of
        None \<Rightarrow> False
      | Some limit \<Rightarrow>
          records_in_current self > 0 \<and> sat_add (current_bytes self) next_record_bytes > limit)
     \<or> (case maximum_duration (rotation self) of
          None \<Rightarrow> False
        | Some limit \<Rightarrow> now - opened_at self \<ge> limit)"

text \<open>The loop that removes the oldest files beyond the retained count.\<close>

fun remove_expired ::
  "nat \<Rightarrow> path list \<Rightarrow> file_system \<Rightarrow> unit io \<times> path list \<times> file_system" where
  "remove_expired cnt [] fs = (Ok (), [], fs)"
| "remove_expired cnt (expired # rest) fs =
     (if length (expired # rest) > cnt then
        case fs expired of
          None \<Rightarrow> (Err NotFound, rest, fs)
        | Some _ \<Rightarrow> remove_expired cnt rest (fs(expired := None))
      else (Ok (), expired # rest, fs))"

definition rotate ::
  "rotating_capture_writer \<Rightarrow> file_system \<Rightarrow> nat
     \<Rightarrow> unit io \<times> rotating_capture_writer \<times> file_system" where
  "rotate self fs now =
     (let self = self\<lparr>generation := generation self + 1\<rparr>;
          path = capture_path (directory self) (prefix self) (format self) (generation self);
          fs = fs(path \<mapsto> []) in
      case write_file_header (format self) (writer_mode self) (interface_name self) of
        Err e \<Rightarrow> (Err e, self, fs)
      | Panic \<Rightarrow> (Panic, self, fs)
      | Ok (written, header) \<Rightarrow>
          (let fs = fs(path \<mapsto> header);
               self = self\<lparr>current := path, current_bytes := written, records_in_current := 0,
                           opened_at := now, retained_files := retained_files self @ [path]\<rparr>;
               (res, retained, fs) = remove_expired (file_count (rotation self))
                                       (retained_files self) fs in
           (res, self\<lparr>retained_files := retained\<rparr>, fs)))"

definition append_to :: "file_system \<Rightarrow> path \<Rightarrow> bytes \<Rightarrow> file_system" where
  "append_to fs path bs = (case fs path of None \<Rightarrow> fs | Some old \<Rightarrow> fs(path \<mapsto> old @ bs))"

definition append_record ::
  "rotating_capture_writer \<Rightarrow> file_system \<Rightarrow> capture_record
     \<Rightarrow> unit io \<times> rotating_capture_writer \<times> file_system" where
  "append_record self fs r =
     (case encode_record (format self) r of
        Err e \<Rightarrow> (Err e, self, fs)
      | Panic \<Rightarrow> (Panic, self, fs)
      | Ok (written, bs) \<Rightarrow>
          (Ok (), self\<lparr>current_bytes := sat_add (current_bytes self) written,
                       records_in_current := sat_add (records_in_current self) 1\<rparr>,
           append_to fs (current self) bs))"

definition write_record ::
  "rotating_capture_writer \<Rightarrow> file_system \<Rightarrow> capture_record \<Rightarrow> nat
     \<Rightarrow> unit io \<times> rotating_capture_writer \<times> file_system" where
  "write_record self fs r now =
     (let estimated = record_encoded_length (format self) (length (rec_bytes r)) in
      if should_rotate self estimated now then
        (case rotate self fs now of
           (Ok _, self, fs) \<Rightarrow> append_record self fs r
         | (e, self, fs) \<Rightarrow> (e, self, fs))
      else append_record self fs r)"

section \<open>Lengths of encoded records\<close>

definition padded :: "nat \<Rightarrow> nat" where
  "padded n = n + (4 - n mod 4) mod 4"

lemma padded_Suc: "n mod 4 \<noteq> 0 \<Longrightarrow> padded (Suc n) = padded n"
proof -
  assume a: "n mod 4 \<noteq> 0"
  have "n mod 4 < 4" by simp
  with a have "n mod 4 \<in> {1, 2, 3}" by auto
  then show ?thesis by (auto simp: padded_def mod_Suc)
qed

lemma padded_bounds: "n \<le> padded n" "padded n \<le> n + 3" "padded n mod 4 = 0"
proof -
  have "n mod 4 < 4" by simp
  then have "n mod 4 \<in> {0, 1, 2, 3}" by auto
  then show "n \<le> padded n" "padded n \<le> n + 3" "padded n mod 4 = 0"
    by (auto simp: padded_def mod_add_eq [of n, symmetric])
qed

lemma pad_to_u32_eq: "pad_to_u32 bs = bs @ replicate (padded (length bs) - length bs) 0"
proof (induction bs rule: pad_to_u32.induct)
  case (1 bs)
  show ?case
  proof (cases "length bs mod 4 = 0")
    case True
    then show ?thesis by (simp add: pad_to_u32.simps padded_def)
  next
    case False
    have "Suc (length bs) \<le> padded (length bs)"
      using padded_bounds(1) [of "Suc (length bs)"] padded_Suc [OF False] by simp
    then have "replicate (padded (length bs) - length bs) (0 :: u8) =
        0 # replicate (padded (length bs) - Suc (length bs)) 0"
      by (metis Suc_diff_le diff_Suc_Suc replicate_Suc)
    then show ?thesis
      using 1 [OF False] False padded_Suc [OF False] by (subst pad_to_u32.simps) simp
  qed
qed

lemma length_pad_to_u32 [simp]: "length (pad_to_u32 bs) = padded (length bs)"
  using padded_bounds(1) [of "length bs"] by (simp add: pad_to_u32_eq)

lemma padded_mult4: "n mod 4 = 0 \<Longrightarrow> padded n = n"
  by (simp add: padded_def)

lemma padded_add4: "m mod 4 = 0 \<Longrightarrow> padded (m + n) = m + padded n"
  using mod_add_left_eq [of m 4 n] by (simp add: padded_def)

lemma padded_mono: "m \<le> n \<Longrightarrow> padded m \<le> padded n"
  using padded_bounds [of m] padded_bounds [of n] by presburger

lemma length_queue_comment: "length (queue_comment q) \<le> 14"
proof -
  have "unat q < 10 ^ 5" using unsigned_less [of q, where ?'a = nat] by simp
  then have "length (decimal (unat q)) \<le> 5" by (rule length_decimal) simp
  then show ?thesis by (simp add: queue_comment_def)
qed

lemma length_enhanced_packet_body:
  "length (enhanced_packet_body r) =
     28 + padded (length (rec_bytes r)) + padded (length (queue_comment (rec_queue_id r)))"
proof -
  have a: "padded (20 + length (rec_bytes r)) = 20 + padded (length (rec_bytes r))"
    by (rule padded_add4) simp
  have b: "padded (20 + padded (length (rec_bytes r)) + 4
        + length (queue_comment (rec_queue_id r)))
      = 20 + padded (length (rec_bytes r)) + 4 + padded (length (queue_comment (rec_queue_id r)))"
    by (rule padded_add4) (use padded_bounds(3) [of "length (rec_bytes r)"] in presburger)
  show ?thesis
    using a b by (simp add: enhanced_packet_body_def Let_def add.assoc)
qed

lemma write_block_single:
  assumes "length body + 12 < 2 ^ 32"
  shows "write_block ty [body] =
    Ok (of_nat (length body + 12),
        to_le_bytes 4 ty @ to_le_bytes 4 (of_nat (length body + 12) :: u32) @ body
        @ to_le_bytes 4 (of_nat (length body + 12) :: u32))"
proof -
  have c: "(clamp_from_nat (length body) :: u64) = of_nat (length body)"
    using assms by (simp add: clamp_from_nat_def)
  have n: "unat (of_nat (length body) :: u64) = length body"
    using assms by (simp add: unat_of_nat)
  have t: "checked_add (of_nat (length body) :: u64) 12 = Some (of_nat (length body + 12))"
    using assms n by (simp add: checked_add_def)
  have m: "unat (of_nat (length body + 12) :: u64) = length body + 12"
    using assms by (subst unat_of_nat) simp
  show ?thesis
    using assms c n t m
    by (simp add: write_block_def bodies_length_def checked_add_def try_from_nat_def)
qed

lemma unat_and_not_mask: "unat (x AND NOT (mask n) :: 'a::len word) = unat x div 2 ^ n * 2 ^ n"
proof -
  have "x AND NOT (mask n) = push_bit n (drop_bit n x)"
    by (rule bit_word_eqI) (auto simp: bit_simps)
  then have "unat (x AND NOT (mask n)) = (unat x div 2 ^ n * 2 ^ n) mod 2 ^ LENGTH('a)"
    by (simp only: unsigned_push_bit_eq unsigned_drop_bit_eq)
      (simp add: push_bit_eq_mult drop_bit_eq_div take_bit_eq_mod)
  also have "\<dots> = unat x div 2 ^ n * 2 ^ n"
    by (rule mod_less) (use unsigned_less [of x, where ?'a = nat]
        div_times_less_eq_dividend [of "unat x" "2 ^ n"] in linarith)
  finally show ?thesis .
qed

lemma padded_div: "padded n = (n + 3) div 4 * 4"
proof -
  have "n mod 4 < 4" by simp
  then have "n mod 4 \<in> {0, 1, 2, 3}" by auto
  then show ?thesis
    by (auto simp: padded_def) presburger+
qed

lemma unat_record_encoded_length:
  assumes "n < 2 ^ 32"
  shows "unat (record_encoded_length Pcap n) = 16 + n"
    and "unat (record_encoded_length PcapNg n) = 56 + padded n"
proof -
  have c: "unat (clamp_from_nat n :: u64) = n"
    using assms by (simp add: unat_clamp_from_nat)
  have s: "unat (sat_add (clamp_from_nat n :: u64) 3) = n + 3"
    using assms by (simp add: unat_sat_add c)
  have "(3 :: u64) = mask 2"
    by (simp add: mask_eq_exp_minus_1)
  then have "unat (sat_add (clamp_from_nat n :: u64) 3 AND NOT 3) = padded n"
    using unat_and_not_mask [of "sat_add (clamp_from_nat n :: u64) 3" 2] s
    by (simp add: padded_div)
  then show "unat (record_encoded_length PcapNg n) = 56 + padded n"
    using assms padded_bounds(2) [of n] by (simp add: record_encoded_length_def unat_sat_add)
  show "unat (record_encoded_length Pcap n) = 16 + n"
    using assms c by (simp add: record_encoded_length_def unat_sat_add PCAP_RECORD_HEADER_LENGTH_def)
qed

lemma encode_record_lengths:
  assumes "length (rec_bytes r) < 2 ^ 32 - 64"
  obtains written bs where "encode_record fmt r = Ok (written, bs)" "length bs = unat written"
    "unat written \<le> unat (record_encoded_length fmt (length (rec_bytes r)))"
    "fmt = PcapNg \<longrightarrow> length bs mod 4 = 0"
proof (cases fmt)
  case Pcap
  have "unat (clamp_from_nat (length (rec_bytes r)) :: u32) = length (rec_bytes r)"
    using assms by (simp add: unat_clamp_from_nat)
  then have "unat (16 + ucast (clamp_from_nat (length (rec_bytes r)) :: u32) :: u64)
      = 16 + length (rec_bytes r)"
    using assms by (simp add: unat_word_ariths unat_ucast_up)
  then show ?thesis
    using that [of "fst (write_pcap_record r)" "snd (write_pcap_record r)"] assms Pcap
      unat_record_encoded_length(1) [of "length (rec_bytes r)"]
    by (simp add: encode_record_def write_pcap_record_def Let_def PCAP_RECORD_HEADER_LENGTH_def)
next
  case PcapNg
  let ?n = "length (rec_bytes r)" and ?c = "length (queue_comment (rec_queue_id r))"
  let ?b = "enhanced_packet_body r"
  have comment: "padded ?c \<le> 16"
    using padded_mono [OF length_queue_comment [of "rec_queue_id r"]] by (simp add: padded_def)
  have len: "length ?b = 28 + padded ?n + padded ?c"
    by (rule length_enhanced_packet_body)
  have bound: "length ?b + 12 < 2 ^ 32"
    using len comment assms padded_bounds(2) [of ?n] by simp
  have u: "unat (of_nat (length ?b + 12) :: u64) = length ?b + 12"
    using bound by (subst unat_of_nat) simp
  have mod: "(length ?b + 12) mod 4 = 0"
    unfolding len using padded_bounds(3) [of ?n] padded_bounds(3) [of ?c] by presburger
  show ?thesis
    using that [of "of_nat (length ?b + 12)"
        "to_le_bytes 4 (6 :: u32) @ to_le_bytes 4 (of_nat (length ?b + 12) :: u32) @ ?b
          @ to_le_bytes 4 (of_nat (length ?b + 12) :: u32)"]
      write_block_single [OF bound, of 6] PcapNg u mod comment len assms
      unat_record_encoded_length(2) [of ?n]
    by (simp add: encode_record_def write_pcapng_record_def)
qed

text \<open>
  The size estimate behind rotation is sound: every record of up to \<open>2 ^ 32 - 65\<close> captured
  bytes is encoded into exactly as many bytes as the encoder reports, at most as many as
  \<open>record_encoded_length\<close> estimated, and a PCAPNG block is a multiple of four bytes long.
\<close>

theorem record_length_estimate:
  assumes "length (rec_bytes r) < 2 ^ 32 - 64"
  shows "\<exists>written bs. encode_record fmt r = Ok (written, bs) \<and> length bs = unat written
    \<and> written \<le> record_encoded_length fmt (length (rec_bytes r))
    \<and> (fmt = PcapNg \<longrightarrow> length bs mod 4 = 0)"
  using encode_record_lengths [OF assms, of fmt] by (metis word_le_nat_alt)

definition sample_record :: capture_record where
  "sample_record = \<lparr>rec_timestamp = 1500000000, rec_wire_length = 60, rec_queue_id = 3,
     rec_bytes = [1, 2, 3, 4, 5]\<rparr>"

theorem record_length_estimate_witness:
  "\<exists>written bs. encode_record PcapNg sample_record = Ok (written, bs)
     \<and> length bs = unat written \<and> written \<le> record_encoded_length PcapNg (length (rec_bytes sample_record))
     \<and> length bs mod 4 = 0"
  using record_length_estimate [of sample_record PcapNg] by (simp add: sample_record_def)

section \<open>Rotation\<close>

lemma hex_lower_inject: "d < 16 \<Longrightarrow> e < 16 \<Longrightarrow> hex_lower d = hex_lower e \<Longrightarrow> d = e"
proof -
  have "distinct (map hex_lower [0..<16])" by code_simp
  then show "d < 16 \<Longrightarrow> e < 16 \<Longrightarrow> hex_lower d = hex_lower e \<Longrightarrow> d = e"
    by (auto simp: distinct_map dest: inj_onD)
qed

lemma length_hex_digits [simp]: "length (hex_digits k n) = k"
  by (induction k arbitrary: n) auto

lemma hex_digits_inject:
  "m < 16 ^ k \<Longrightarrow> n < 16 ^ k \<Longrightarrow> hex_digits k m = hex_digits k n \<Longrightarrow> m = n"
proof (induction k arbitrary: m n)
  case 0
  then show ?case by simp
next
  case (Suc k)
  have "m div 16 = n div 16"
    using Suc.IH [of "m div 16" "n div 16"] Suc.prems
    by (simp add: div_less_iff_less_mult mult.commute)
  moreover have "m mod 16 = n mod 16"
    using Suc.prems(3) by (auto intro: hex_lower_inject)
  ultimately show ?case by (metis div_mod_decomp)
qed

lemma capture_path_inject: "capture_path d p f g = capture_path d p f h \<longleftrightarrow> g = h"
proof
  assume "capture_path d p f g = capture_path d p f h"
  then have "hex_digits 16 (unat g) = hex_digits 16 (unat h)"
    by (simp add: capture_path_def)
  moreover have "unat g < 16 ^ 16" "unat h < 16 ^ 16"
    using unsigned_less [of g, where ?'a = nat] unsigned_less [of h, where ?'a = nat] by simp_all
  ultimately show "g = h"
    using hex_digits_inject [of "unat g" 16 "unat h"] by (simp add: word_unat_eq_iff)
qed simp

text \<open>The path of generation \<open>k\<close> of a writer, and the generations it retains.\<close>

definition path_of :: "rotating_capture_writer \<Rightarrow> nat \<Rightarrow> path" where
  "path_of w k = capture_path (directory w) (prefix w) (format w) (of_nat k)"

definition oldest :: "rotating_capture_writer \<Rightarrow> nat" where
  "oldest w = Suc (unat (generation w)) - length (retained_files w)"

text \<open>
  The state of a writer that has the directory for itself: the retained files are the latest
  generations, they are exactly the files that exist, the last of them is the current one, its
  length is the byte count of the writer, and it exceeds the size limit only with a single record.
\<close>

definition writer_inv :: "rotating_capture_writer \<Rightarrow> file_system \<Rightarrow> bool" where
  "writer_inv w fs \<longleftrightarrow>
     0 < file_count (rotation w)
     \<and> 0 < length (retained_files w) \<and> length (retained_files w) \<le> file_count (rotation w)
     \<and> length (retained_files w) \<le> Suc (unat (generation w))
     \<and> retained_files w = map (path_of w) [oldest w..<Suc (unat (generation w))]
     \<and> dom fs = set (retained_files w)
     \<and> current w = path_of w (unat (generation w))
     \<and> (\<exists>content. fs (current w) = Some content
          \<and> unat (current_bytes w) = min (length content) (2 ^ 64 - 1)
          \<and> (\<forall>limit. maximum_bytes (rotation w) = Some limit \<longrightarrow>
               records_in_current w > 1 \<longrightarrow> current_bytes w \<le> limit))"

lemma remove_expired_ok:
  assumes "distinct ps" "set ps \<subseteq> dom fs"
  shows "\<exists>fs'. remove_expired cnt ps fs = (Ok (), drop (length ps - cnt) ps, fs')
    \<and> dom fs' = dom fs - set (take (length ps - cnt) ps)
    \<and> (\<forall>p. p \<notin> set (take (length ps - cnt) ps) \<longrightarrow> fs' p = fs p)"
  using assms
proof (induction ps arbitrary: fs)
  case Nil
  then show ?case by simp
next
  case (Cons p ps)
  show ?case
  proof (cases "length (p # ps) > cnt")
    case True
    obtain b where b: "fs p = Some b" using Cons.prems(2) by auto
    have sub: "set ps \<subseteq> dom (fs(p := None))" using Cons.prems by auto
    have "distinct ps" using Cons.prems(1) by simp
    from Cons.IH [OF this sub] obtain fs' where f: "remove_expired cnt ps (fs(p := None)) = (Ok (), drop (length ps - cnt) ps, fs')"
      "dom fs' = dom (fs(p := None)) - set (take (length ps - cnt) ps)"
      "\<forall>q. q \<notin> set (take (length ps - cnt) ps) \<longrightarrow> fs' q = (fs(p := None)) q"
      by blast
    have l: "length (p # ps) - cnt = Suc (length ps - cnt)" using True by auto
    show ?thesis
      using True b f unfolding l by (auto simp: dom_def)
  next
    case False
    then show ?thesis by simp
  qed
qed

lemma length_interface_body:
  "length (interface_body snap name nl) = 12 + padded (padded (4 + length name) + 5)"
  by (simp add: interface_body_def interface_options_def eval_nat_numeral)

lemma write_file_header_ok: "\<exists>n h. write_file_header fmt m iface = Ok (n, h) \<and> length h = unat n"
proof (cases fmt)
  case Pcap
  then show ?thesis
    by (simp add: write_file_header_def write_pcap_header_def PCAP_GLOBAL_HEADER_LENGTH_def)
next
  case PcapNg
  let ?nl = "clamp_from_nat (length iface) :: u16"
  let ?name = "take (unat ?nl) (str_bytes iface)"
  let ?body = "interface_body (snaplen m) ?name ?nl"
  have nl: "unat ?nl \<le> length iface"
    by (simp add: unat_clamp_from_nat)
  have "length ?name < 65536"
    using unsigned_less [of ?nl, where ?'a = nat] by simp
  then have small: "length ?body + 12 < 4294967232"
    unfolding length_interface_body
    using padded_bounds(2) [of "4 + length ?name"]
      padded_bounds(2) [of "padded (4 + length ?name) + 5"]
    by linarith
  then have bound: "length ?body + 12 < 2 ^ 32" by simp
  note block = write_block_single [OF bound, of 1]
  have sec: "\<exists>b. write_block 0x0a0d0d0a
         [to_le_bytes 4 (0x1a2b3c4d :: u32), to_le_bytes 2 (1 :: u16), to_le_bytes 2 (0 :: u16),
          to_le_bytes 8 (- 1 :: u64)] = Ok (28, b) \<and> length b = 28"
    by (simp add: write_block_def bodies_length_def checked_add_def clamp_from_nat_def
        try_from_nat_def)
  then obtain b where b: "write_block 0x0a0d0d0a
         [to_le_bytes 4 (0x1a2b3c4d :: u32), to_le_bytes 2 (1 :: u16), to_le_bytes 2 (0 :: u16),
          to_le_bytes 8 (- 1 :: u64)] = Ok (28, b)" "length b = 28"
    by blast
  have u: "unat (28 + of_nat (length ?body + 12) :: u64) = 40 + length ?body"
  proof -
    have "unat (of_nat (40 + length ?body) :: u64) = 40 + length ?body"
      using small by (subst unat_of_nat) simp
    then show ?thesis by (simp add: add.assoc [symmetric])
  qed
  then show ?thesis
    using PcapNg b block nl
    by (simp add: write_file_header_def write_pcapng_header_def Let_def)
qed

lemma path_of_inject: "i < 2 ^ 64 \<Longrightarrow> j < 2 ^ 64 \<Longrightarrow> path_of w i = path_of w j \<longleftrightarrow> i = j"
proof -
  assume "i < 2 ^ 64" "j < 2 ^ 64"
  then have "(of_nat i :: u64) = of_nat j \<longleftrightarrow> i = j"
    by (auto simp: word_unat_eq_iff unat_of_nat)
  then show ?thesis by (simp add: path_of_def capture_path_inject)
qed

lemma distinct_paths: "n \<le> 2 ^ 64 \<Longrightarrow> distinct (map (path_of w) [m..<n])"
  by (auto simp: distinct_map inj_on_def path_of_inject)

lemma writer_inv_create:
  assumes "create Map.empty dir pre fmt m iface rot now = (Ok w, fs)"
  shows "writer_inv w fs"
proof -
  obtain n h where h: "write_file_header fmt m iface = Ok (n, h)" "length h = unat n"
    using write_file_header_ok by blast
  have "unat n = min (length h) (2 ^ 64 - 1)"
    using h(2) unsigned_less [of n, where ?'a = nat] by (simp add: min_def)
  then show ?thesis
    using assms h(1)
    by (auto simp: create_def writer_inv_def path_of_def oldest_def Let_def split: if_splits)
qed

lemma writer_inv_append:
  assumes inv: "writer_inv w fs" and len: "length (rec_bytes r) < 2 ^ 32 - 64"
    and room: "records_in_current w = 0 \<or> (\<forall>limit. maximum_bytes (rotation w) = Some limit \<longrightarrow>
        sat_add (current_bytes w) (record_encoded_length (format w) (length (rec_bytes r))) \<le> limit)"
  shows "\<exists>w' fs'. append_record w fs r = (Ok (), w', fs') \<and> writer_inv w' fs'
    \<and> generation w' = generation w"
proof -
  from encode_record_lengths [OF len, of "format w"] obtain n bs where
    e: "encode_record (format w) r = Ok (n, bs)" "length bs = unat n"
      "unat n \<le> unat (record_encoded_length (format w) (length (rec_bytes r)))"
    by metis
  from inv obtain content where c: "fs (current w) = Some content"
    "unat (current_bytes w) = min (length content) (2 ^ 64 - 1)"
    by (auto simp: writer_inv_def)
  let ?w = "w\<lparr>current_bytes := sat_add (current_bytes w) n,
              records_in_current := sat_add (records_in_current w) 1\<rparr>"
  let ?fs = "fs(current w \<mapsto> content @ bs)"
  have "append_record w fs r = (Ok (), ?w, ?fs)"
    using e c by (simp add: append_record_def append_to_def)
  moreover have bytes: "unat (current_bytes ?w) = min (length (content @ bs)) (2 ^ 64 - 1)"
    using c e(2) by (simp add: unat_sat_add)
  moreover have "current_bytes ?w \<le> limit"
    if "maximum_bytes (rotation w) = Some limit" "records_in_current ?w > 1" for limit
  proof -
    have "records_in_current w \<noteq> 0"
      using that(2) by (auto simp: sat_add_def)
    then have "sat_add (current_bytes w) (record_encoded_length (format w) (length (rec_bytes r)))
        \<le> limit"
      using room that(1) by blast
    then show ?thesis
      using e(3) by (simp add: word_le_nat_alt unat_sat_add)
  qed
  moreover have "path_of ?w = path_of w" "oldest ?w = oldest w"
    by (simp_all add: path_of_def oldest_def fun_eq_iff)
  moreover have "dom ?fs = dom fs"
    using c by auto
  ultimately show ?thesis
    using inv by (auto simp: writer_inv_def)
qed

lemma writer_inv_rotate:
  assumes inv: "writer_inv w fs" and gen: "Suc (unat (generation w)) < 2 ^ 64"
  shows "\<exists>w' fs'. rotate w fs now = (Ok (), w', fs') \<and> writer_inv w' fs'
    \<and> records_in_current w' = 0 \<and> format w' = format w \<and> rotation w' = rotation w
    \<and> unat (generation w') = Suc (unat (generation w))"
proof -
  let ?g = "unat (generation w)"
  define L where "L = retained_files w @ [path_of w (Suc (unat (generation w)))]"
  let ?n = "Suc (length (retained_files w)) - file_count (rotation w)"
  obtain n h where h: "write_file_header (format w) (writer_mode w) (interface_name w) = Ok (n, h)"
      "length h = unat n"
    using write_file_header_ok by blast
  have g': "unat (generation w + 1) = Suc ?g"
    using gen by (simp add: unat_word_ariths)
  have path: "capture_path (directory w) (prefix w) (format w) (generation w + 1)
      = path_of w (Suc ?g)"
    using g' by (metis path_of_def of_nat_unat ucast_id)
  have L: "L = map (path_of w) [oldest w..<Suc (Suc ?g)]"
    using inv by (simp add: writer_inv_def oldest_def L_def)
  have d: "distinct L"
    unfolding L using gen by (intro distinct_paths) simp
  define fs1 where "fs1 = fs(path_of w (Suc ?g) \<mapsto> h)"
  have dom1: "dom fs1 = set L"
    using inv by (auto simp: fs1_def writer_inv_def L_def)
  obtain fs' where f: "remove_expired (file_count (rotation w)) L fs1 = (Ok (), drop ?n L, fs')"
      "dom fs' = dom fs1 - set (take ?n L)" "\<forall>p. p \<notin> set (take ?n L) \<longrightarrow> fs' p = fs1 p"
    using remove_expired_ok [OF d, of fs1 "file_count (rotation w)"] dom1 by (auto simp: L_def)
  define w' where "w' = w\<lparr>generation := generation w + 1, current := path_of w (Suc ?g),
      current_bytes := n, records_in_current := 0, opened_at := now, retained_files := drop ?n L\<rparr>"
  have rot: "rotate w fs now = (Ok (), w', fs')"
    using h f(1) path by (simp add: rotate_def Let_def fs1_def w'_def L_def)
  have p: "path_of w' = path_of w"
    by (simp add: path_of_def w'_def fun_eq_iff)
  have cnt: "0 < file_count (rotation w)" "?n \<le> length (retained_files w)"
    using inv by (auto simp: writer_inv_def)
  have split: "set (drop ?n L) \<inter> set (take ?n L) = {}" "set (drop ?n L) \<union> set (take ?n L) = set L"
    using set_take_disj_set_drop_if_distinct [OF d, of ?n ?n]
      set_append [of "take ?n L" "drop ?n L", unfolded append_take_drop_id] by blast+
  have lenL: "length L \<le> Suc (Suc ?g)"
    using inv by (simp add: writer_inv_def L_def)
  have "writer_inv w' fs'"
    unfolding writer_inv_def
  proof (intro conjI)
    show "retained_files w' = map (path_of w') [oldest w'..<Suc (unat (generation w'))]"
    proof -
      have old: "oldest w' = oldest w + ?n"
        using inv cnt g' by (auto simp: oldest_def w'_def writer_inv_def L_def)
      have "retained_files w' = drop ?n L"
        by (simp add: w'_def)
      also have "\<dots> = map (path_of w) [oldest w + ?n..<Suc (Suc ?g)]"
        unfolding L by (simp only: drop_map drop_upt)
      also have "Suc (Suc ?g) = Suc (unat (generation w'))"
        using g' by (simp add: w'_def)
      finally show ?thesis
        unfolding p old .
    qed
    have "path_of w (Suc ?g) \<in> set (drop ?n L)"
      using cnt(2) by (simp add: L_def)
    then have "path_of w (Suc ?g) \<notin> set (take ?n L)"
      using split(1) by blast
    then have "fs' (path_of w (Suc ?g)) = Some h"
      using f(3) [rule_format] by (simp add: fs1_def)
    then show "\<exists>content. fs' (current w') = Some content
        \<and> unat (current_bytes w') = min (length content) (2 ^ 64 - 1)
        \<and> (\<forall>limit. maximum_bytes (rotation w') = Some limit \<longrightarrow>
             records_in_current w' > 1 \<longrightarrow> current_bytes w' \<le> limit)"
      using h(2) unsigned_less [of n, where ?'a = nat] by (simp add: w'_def min_def)
    show "dom fs' = set (retained_files w')"
      using f(2) dom1 split by (auto simp: w'_def)
  qed (use cnt inv g' p in \<open>auto simp: w'_def writer_inv_def L_def\<close>)
  then show ?thesis
    using rot g' by (auto simp: w'_def)
qed

definition writer_init :: "rotating_capture_writer \<times> file_system \<Rightarrow> bool" where
  "writer_init s \<longleftrightarrow>
     (\<exists>dir pre fmt m iface rot now. create Map.empty dir pre fmt m iface rot now = (Ok (fst s), snd s))"

definition writer_step ::
  "rotating_capture_writer \<times> file_system \<Rightarrow> capture_record \<times> nat
     \<Rightarrow> rotating_capture_writer \<times> file_system \<Rightarrow> bool" where
  "writer_step s l t \<longleftrightarrow>
     length (rec_bytes (fst l)) < 2 ^ 32 - 64 \<and> Suc (unat (generation (fst s))) < 2 ^ 64
     \<and> t = snd (write_record (fst s) (snd s) (fst l) (snd l))"

lemma writer_inv_write:
  assumes "writer_inv w fs" "length (rec_bytes r) < 2 ^ 32 - 64" "Suc (unat (generation w)) < 2 ^ 64"
  shows "\<exists>w' fs'. write_record w fs r now = (Ok (), w', fs') \<and> writer_inv w' fs'"
proof (cases "should_rotate w (record_encoded_length (format w) (length (rec_bytes r))) now")
  case True
  obtain w1 fs1 where r: "rotate w fs now = (Ok (), w1, fs1)" "writer_inv w1 fs1"
      "records_in_current w1 = 0"
    using writer_inv_rotate [OF assms(1,3)] by blast
  obtain w2 fs2 where a: "append_record w1 fs1 r = (Ok (), w2, fs2)" "writer_inv w2 fs2"
    using writer_inv_append [OF r(2) assms(2)] r(3) by blast
  show ?thesis
    using True r a by (simp add: write_record_def)
next
  case False
  then have "records_in_current w = 0 \<or> (\<forall>limit. maximum_bytes (rotation w) = Some limit \<longrightarrow>
      sat_add (current_bytes w) (record_encoded_length (format w) (length (rec_bytes r))) \<le> limit)"
    by (auto simp: should_rotate_def not_less word_neq_0_conv split: option.splits)
  then show ?thesis
    using writer_inv_append [OF assms(1,2)] False by (auto simp: write_record_def)
qed

interpretation writer: invariant_system writer_init writer_step "\<lambda>(w, fs). writer_inv w fs"
proof
  show "case s of (w, fs) \<Rightarrow> writer_inv w fs" if "writer_init s" for s
    using that by (cases s) (auto simp: writer_init_def intro: writer_inv_create)
  show "case t of (w, fs) \<Rightarrow> writer_inv w fs"
    if inv: "case s of (w, fs) \<Rightarrow> writer_inv w fs" and step: "writer_step s l t" for s l t
  proof -
    obtain w fs where s: "s = (w, fs)" by fastforce
    obtain w' fs' where "write_record w fs (fst l) (snd l) = (Ok (), w', fs')" "writer_inv w' fs'"
      using writer_inv_write [of w fs "fst l" "snd l"] inv step by (auto simp: writer_step_def s)
    then show ?thesis using step by (simp add: writer_step_def s)
  qed
qed

text \<open>
  C27.  Rotation keeps what it promises: in every state a writer that owns its directory reaches,
  the files on disk are exactly the retained ones, at most as many as configured, the current file
  among them; the writer's byte count is the length of the current file; and a file with more than
  one record never exceeds the configured size limit.
\<close>

theorem rotation_bounded:
  assumes "reachable writer_init writer_step (w, fs)"
  shows "dom fs = set (retained_files w) \<and> length (retained_files w) \<le> file_count (rotation w)
    \<and> current w \<in> dom fs
    \<and> unat (current_bytes w) = min (length (the (fs (current w)))) (2 ^ 64 - 1)
    \<and> (maximum_bytes (rotation w) = Some limit \<longrightarrow> records_in_current w > 1 \<longrightarrow>
         current_bytes w \<le> limit)"
  using writer.reachable_inv [OF assms] by (auto simp: writer_inv_def)

definition sample_rotation :: capture_rotation where
  "sample_rotation = \<lparr>maximum_bytes = Some 64, maximum_duration = None, file_count = 2\<rparr>"

definition sample_writer :: rotating_capture_writer where
  "sample_writer = \<lparr>directory = ''/var'', prefix = ''cap'', format = Pcap, writer_mode = HeaderOnly,
     interface_name = ''eth0'', rotation = sample_rotation, generation = 0,
     current = capture_path ''/var'' ''cap'' Pcap 0, current_bytes = 24, records_in_current = 0,
     opened_at = 0, retained_files = [capture_path ''/var'' ''cap'' Pcap 0]\<rparr>"

theorem rotation_bounded_witness:
  "\<exists>w fs. reachable writer_init writer_step (w, fs) \<and> file_count (rotation w) = 2
     \<and> dom fs = set (retained_files w) \<and> length (retained_files w) \<le> 2"
proof -
  let ?fs = "Map.empty(capture_path ''/var'' ''cap'' Pcap 0 \<mapsto> snd (write_pcap_header 128))"
  have "create Map.empty ''/var'' ''cap'' Pcap HeaderOnly ''eth0'' sample_rotation 0 =
      (Ok sample_writer, ?fs)"
    by (simp add: create_def sample_rotation_def write_file_header_def sample_writer_def Let_def
        write_pcap_header_def PCAP_GLOBAL_HEADER_LENGTH_def)
  then have "writer_init (sample_writer, ?fs)"
    unfolding writer_init_def fst_conv snd_conv by blast
  then have r: "reachable writer_init writer_step (sample_writer, ?fs)"
    by (rule reachable_init)
  show ?thesis
    using rotation_bounded [OF r, of 64] r
    by (intro exI [of _ sample_writer] exI [of _ ?fs])
      (simp add: sample_writer_def sample_rotation_def)
qed

section \<open>The queue between worker and writer\<close>

datatype queue_op = Offer packet_view | Receive | CloseReceiver

record queue_run =
  run_queue :: capture_queue
  run_stats :: worker_stats
  offered :: "packet_view list"
  delivered :: "capture_record list"

definition queue_init :: "nat \<Rightarrow> capture_mode \<Rightarrow> queue_run \<Rightarrow> bool" where
  "queue_init cap m s \<longleftrightarrow>
     bounded cap m = Ok (run_queue s) \<and> run_stats s = default_stats \<and> offered s = []
     \<and> delivered s = []"

inductive queue_step :: "queue_run \<Rightarrow> queue_op \<Rightarrow> queue_run \<Rightarrow> bool" where
  queue_offer: "try_capture (run_queue s) p (run_stats s) = Ok (q, st) \<Longrightarrow>
    queue_step s (Offer p) (s\<lparr>run_queue := q, run_stats := st, offered := offered s @ [p]\<rparr>)"
| queue_receive: "try_receive (channel (run_queue s)) = (Inr r, ch) \<Longrightarrow>
    queue_step s Receive
      (s\<lparr>run_queue := (run_queue s)\<lparr>channel := ch\<rparr>, delivered := delivered s @ [r]\<rparr>)"
| queue_close: "queue_step s CloseReceiver
      (s\<lparr>run_queue := (run_queue s)\<lparr>channel := (channel (run_queue s))\<lparr>receiver_alive := False\<rparr>\<rparr>\<rparr>)"

text \<open>The record a packet is captured as: the prefix the mode retains.\<close>

definition record_of :: "capture_mode \<Rightarrow> packet_view \<Rightarrow> capture_record" where
  "record_of m p =
     \<lparr>rec_timestamp = timestamp_nanoseconds p, rec_wire_length = wire_length p,
      rec_queue_id = queue_id p,
      rec_bytes = take (retained_length m (length (view_bytes p))) (view_bytes p)\<rparr>"

definition queue_inv :: "nat \<Rightarrow> capture_mode \<Rightarrow> queue_run \<Rightarrow> bool" where
  "queue_inv cap m s \<longleftrightarrow>
     mode (run_queue s) = m \<and> capacity (channel (run_queue s)) = cap
     \<and> length (in_flight (channel (run_queue s))) \<le> cap
     \<and> subseq (delivered s @ in_flight (channel (run_queue s))) (map (record_of m) (offered s))
     \<and> (length (offered s) < 2 ^ 64 \<longrightarrow>
          length (offered s) = length (delivered s) + length (in_flight (channel (run_queue s)))
            + unat (capture_drops (stat_drops (run_stats s)))
            + unat (application (stat_drops (run_stats s))))"

lemma retained_length_le: "retained_length m n \<le> n"
  by (cases m) auto

lemma captured_record_eq: "captured_record m p = Ok (record_of m p)"
  using retained_length_le [of m "length (view_bytes p)"]
  by (simp add: captured_record_def record_of_def)

lemma try_capture_cases:
  obtains (sent) "try_capture q p st = Ok (q\<lparr>channel := (channel q)\<lparr>in_flight :=
        in_flight (channel q) @ [record_of (mode q) p]\<rparr>\<rparr>, st)"
      "length (in_flight (channel q)) < capacity (channel q)" "receiver_alive (channel q)"
  | (full) "try_capture q p st = Ok (q, st\<lparr>stat_drops := (stat_drops st)
        \<lparr>capture_drops := sat_add (capture_drops (stat_drops st)) 1\<rparr>\<rparr>)"
      "receiver_alive (channel q)"
  | (closed) "try_capture q p st = Ok (q, st\<lparr>stat_drops := (stat_drops st)
        \<lparr>application := sat_add (application (stat_drops st)) 1\<rparr>\<rparr>)"
      "\<not> receiver_alive (channel q)"
proof (cases "receiver_alive (channel q)")
  case alive: True
  show ?thesis
  proof (cases "length (in_flight (channel q)) < capacity (channel q)")
    case True
    show ?thesis
      by (rule sent) (use alive True in \<open>simp_all add: try_capture_def captured_record_eq try_send_record_def\<close>)
  next
    case False
    show ?thesis
      by (rule full) (use alive False in \<open>simp_all add: try_capture_def captured_record_eq try_send_record_def\<close>)
  qed
next
  case False
  show ?thesis
    by (rule closed) (use False in \<open>simp_all add: try_capture_def captured_record_eq try_send_record_def\<close>)
qed

lemma queue_inv_offer:
  assumes inv: "queue_inv cap m s" and step: "try_capture (run_queue s) p (run_stats s) = Ok (q, st)"
  shows "queue_inv cap m (s\<lparr>run_queue := q, run_stats := st, offered := offered s @ [p]\<rparr>)"
proof (cases rule: try_capture_cases [of "run_queue s" p "run_stats s"])
  case sent
  have "subseq (delivered s @ in_flight (channel (run_queue s)) @ [record_of m p])
      (map (record_of m) (offered s) @ [record_of m p])"
    using inv list_emb_append_mono [of "(=)" "delivered s @ in_flight (channel (run_queue s))"
        "map (record_of m) (offered s)" "[record_of m p]" "[record_of m p]"]
    by (simp add: queue_inv_def)
  then show ?thesis
    using sent step inv by (auto simp: queue_inv_def)
next
  case full
  have "subseq (delivered s @ in_flight (channel (run_queue s)))
      (map (record_of m) (offered s) @ [record_of m p])"
    using inv by (auto simp: queue_inv_def intro: list_emb_append2 subseq_rev_drop_many)
  then show ?thesis
    using full step inv by (auto simp: queue_inv_def sat_add_one_unat)
next
  case closed
  have "subseq (delivered s @ in_flight (channel (run_queue s)))
      (map (record_of m) (offered s) @ [record_of m p])"
    using inv by (auto simp: queue_inv_def intro: list_emb_append2 subseq_rev_drop_many)
  then show ?thesis
    using closed step inv by (auto simp: queue_inv_def sat_add_one_unat)
qed

interpretation queue: invariant_system "queue_init cap m" queue_step "queue_inv cap m"
proof
  show "queue_inv cap m s" if "queue_init cap m s" for s
  proof -
    have "run_queue s = \<lparr>channel = \<lparr>in_flight = [], capacity = cap, receiver_alive = True,
        sender_alive = True\<rparr>, mode = m\<rparr>"
      using that by (auto simp: queue_init_def bounded_def split: if_splits)
    then show ?thesis
      using that by (simp add: queue_init_def queue_inv_def default_stats_def default_drops_def)
  qed
  show "queue_inv cap m t" if "queue_inv cap m s" "queue_step s l t" for s l t
    using that(2,1)
  proof (cases rule: queue_step.cases)
    case (queue_offer p q st)
    then show ?thesis using queue_inv_offer that(1) by blast
  next
    case (queue_receive r ch)
    then show ?thesis
      using that(1)
      by (cases "in_flight (channel (run_queue s))") (auto simp: queue_inv_def try_receive_def)
  next
    case queue_close
    then show ?thesis using that(1) by (simp add: queue_inv_def)
  qed
qed




end
