(* ===== verification/Packet_Worker.thy ===== *)
theory Packet_Worker
  imports Capture Tcp_Analysis
begin

text \<open>
  The run-to-completion packet worker (src/crates/packet/src/worker.rs): it counts, filters,
  captures, samples, parses and analyzes the packets a burst source delivers.  The iteration order
  of the flow table's hash map (\<open>iter\<close>) and the value the shared stop flag has before each burst
  are arguments.
\<close>

section \<open>Configuration and state\<close>

datatype analysis_coverage = FullCoverage | Sampled u32

definition is_sampled :: "analysis_coverage \<Rightarrow> bool" where
  "is_sampled self = (case self of Sampled _ \<Rightarrow> True | FullCoverage \<Rightarrow> False)"

record packet_worker_configuration =
  config_maximum_flows :: nat
  flow_idle_timeout_nanoseconds :: u64
  config_coverage :: analysis_coverage

definition validate_worker :: "packet_worker_configuration \<Rightarrow> unit result" where
  "validate_worker self =
     (if config_maximum_flows self = 0 \<or> flow_idle_timeout_nanoseconds self = 0 then
        Err (new_error InvalidArgument ''packet worker flow bounds must be greater than zero'' False)
      else if config_coverage self = Sampled 0 then
        Err (new_error InvalidArgument ''packet analysis sampling ratio must be greater than zero''
          False)
      else Ok ())"

record packet_worker =
  configuration :: packet_worker_configuration
  flows :: "tcp_flow_analyzer flow_table"
  worker_capture :: "capture_queue option"
  worker_filter :: "packet_filter option"
  statistics :: worker_stats
  observed_packets :: u64

record worker_run_result =
  bursts :: u64
  result_statistics :: worker_stats
  result_coverage :: analysis_coverage

definition new_worker ::
  "bool \<Rightarrow> packet_worker_configuration \<Rightarrow> capture_queue option \<Rightarrow> packet_worker result" where
  "new_worker reserved config cap =
     and_then (validate_worker config) (\<lambda>_.
     and_then (new_flow_table reserved (config_maximum_flows config)
                 (flow_idle_timeout_nanoseconds config)) (\<lambda>table.
       Ok \<lparr>configuration = config, flows = table, worker_capture = cap, worker_filter = None,
           statistics = default_stats, observed_packets = 0\<rparr>))"

definition new_with_filter ::
  "bool \<Rightarrow> packet_worker_configuration \<Rightarrow> capture_queue option \<Rightarrow> packet_filter option
     \<Rightarrow> packet_worker result" where
  "new_with_filter reserved config cap flt =
     and_then (new_worker reserved config cap) (\<lambda>worker. Ok (worker\<lparr>worker_filter := flt\<rparr>))"

section \<open>Processing one packet\<close>

text \<open>
  The subtraction and the remainder panic for a zero counter and a zero ratio; neither happens, see
  below.
\<close>

definition should_analyze :: "packet_worker \<Rightarrow> bool result" where
  "should_analyze self =
     (case config_coverage (configuration self) of
        FullCoverage \<Rightarrow> Ok True
      | Sampled one_in \<Rightarrow>
          if observed_packets self = 0 \<or> one_in = 0 then Panic
          else Ok ((observed_packets self - 1) mod ucast one_in = 0))"

definition count_ip :: "ip_packet option \<Rightarrow> worker_stats \<Rightarrow> worker_stats" where
  "count_ip ip st =
     (case ip of
        None \<Rightarrow> st
      | Some p \<Rightarrow>
          (case ip_source p of
             V4 _ \<Rightarrow> st\<lparr>ipv4_packets := sat_add (ipv4_packets st) 1\<rparr>
           | V6 _ \<Rightarrow> st\<lparr>ipv6_packets := sat_add (ipv6_packets st) 1\<rparr>))"

definition tuple_of_segment :: "ip_packet \<Rightarrow> tcp_segment \<Rightarrow> flow_tuple" where
  "tuple_of_segment ip segment =
     \<lparr>source_ip = ip_source ip, destination_ip = ip_destination ip,
      source_port = tcp_source_port segment, destination_port = tcp_destination_port segment,
      tuple_protocol = ip_protocol ip\<rparr>"

definition observation_of :: "flow_direction \<Rightarrow> tcp_segment \<Rightarrow> tcp_observation" where
  "observation_of dir segment =
     \<lparr>obs_direction = dir, obs_sequence = tcp_sequence segment,
      obs_acknowledgement = tcp_acknowledgement segment, obs_window = tcp_window segment,
      obs_flags = tcp_flags segment,
      payload_length = clamp_from_nat (length (tcp_payload segment))\<rparr>"

type_synonym flow_iteration =
  "tcp_flow_analyzer flow_entries \<Rightarrow> tcp_flow_analyzer flow_entries"

definition process_tcp ::
  "flow_iteration \<Rightarrow> u64 \<Rightarrow> ip_packet option \<Rightarrow> tcp_segment \<Rightarrow> packet_worker \<Rightarrow> packet_worker" where
  "process_tcp iter now ip_opt segment self =
     (let self = self\<lparr>statistics := (statistics self)
            \<lparr>tcp_packets := sat_add (tcp_packets (statistics self)) 1\<rparr>\<rparr> in
      case ip_opt of
        None \<Rightarrow>
          self\<lparr>statistics := (statistics self)
            \<lparr>parse_errors := sat_add (parse_errors (statistics self)) 1\<rparr>\<rparr>
      | Some ip \<Rightarrow>
          (let (key, direction) = canonical (tuple_of_segment ip segment);
               (_, table) = get_or_insert_with iter (flows self) key now default_analyzer;
               self = self\<lparr>flows := table\<rparr>;
               drops = capture_drops (stat_drops (statistics self)) in
           case value_mut (flows self) key of
             None \<Rightarrow>
               self\<lparr>statistics := (statistics self)\<lparr>stat_drops := (stat_drops (statistics self))
                 \<lparr>analyzer := sat_add (analyzer (stat_drops (statistics self))) 1\<rparr>\<rparr>\<rparr>
           | Some flow \<Rightarrow>
               (let (analysis, flow) = observe flow (observation_of direction segment) drops;
                    self = self\<lparr>flows := set_value (flows self) key flow\<rparr>;
                    self = (if is_retransmission (classification analysis) then
                              self\<lparr>statistics := (statistics self)
                                \<lparr>retransmissions := sat_add (retransmissions (statistics self)) 1\<rparr>\<rparr>
                            else self) in
                self\<lparr>statistics := (statistics self)
                  \<lparr>stat_flows := clamp_from_nat (table_len (flows self))\<rparr>\<rparr>)))"

definition process_transport ::
  "flow_iteration \<Rightarrow> u64 \<Rightarrow> parsed_packet \<Rightarrow> packet_worker \<Rightarrow> packet_worker" where
  "process_transport iter now parsed self =
     (case pp_transport parsed of
        Some (Tcp segment) \<Rightarrow> process_tcp iter now (pp_ip parsed) segment self
      | Some (Udp _) \<Rightarrow>
          self\<lparr>statistics := (statistics self)
            \<lparr>udp_packets := sat_add (udp_packets (statistics self)) 1\<rparr>\<rparr>
      | Some (Icmp _) \<Rightarrow>
          self\<lparr>statistics := (statistics self)
            \<lparr>icmp_packets := sat_add (icmp_packets (statistics self)) 1\<rparr>\<rparr>
      | Some (Icmpv6 _) \<Rightarrow>
          self\<lparr>statistics := (statistics self)
            \<lparr>icmp_packets := sat_add (icmp_packets (statistics self)) 1\<rparr>\<rparr>
      | Some (Other _ _) \<Rightarrow>
          self\<lparr>statistics := (statistics self)
            \<lparr>other_packets := sat_add (other_packets (statistics self)) 1\<rparr>\<rparr>
      | Some Fragment \<Rightarrow>
          self\<lparr>statistics := (statistics self)
            \<lparr>other_packets := sat_add (other_packets (statistics self)) 1\<rparr>\<rparr>
      | None \<Rightarrow> self)"

definition analyze_packet :: "flow_iteration \<Rightarrow> packet_view \<Rightarrow> packet_worker \<Rightarrow> packet_worker result" where
  "analyze_packet iter packet self =
     (case parse_packet (view_bytes packet) of
        Err _ \<Rightarrow>
          Ok (self\<lparr>statistics := (statistics self)
            \<lparr>parse_errors := sat_add (parse_errors (statistics self)) 1\<rparr>\<rparr>)
      | Panic \<Rightarrow> Panic
      | Ok parsed \<Rightarrow>
          Ok (process_transport iter (timestamp_nanoseconds packet) parsed
            (self\<lparr>statistics := count_ip (pp_ip parsed) (statistics self)\<rparr>)))"

definition capture_packet :: "packet_view \<Rightarrow> packet_worker \<Rightarrow> packet_worker result" where
  "capture_packet packet self =
     (case worker_capture self of
        None \<Rightarrow> Ok self
      | Some q \<Rightarrow>
          and_then (try_capture q packet (statistics self)) (\<lambda>(q, st).
            Ok (self\<lparr>worker_capture := Some q, statistics := st\<rparr>)))"

definition rejected_by :: "packet_filter option \<Rightarrow> packet_view \<Rightarrow> bool" where
  "rejected_by flt packet =
     (case flt of None \<Rightarrow> False | Some f \<Rightarrow> \<not> filter_matches f packet)"

definition process_packet :: "flow_iteration \<Rightarrow> packet_view \<Rightarrow> packet_worker \<Rightarrow> packet_worker result" where
  "process_packet iter packet self =
     (let self = self\<lparr>statistics := record_packet (wire_length packet) (statistics self)\<rparr> in
      if rejected_by (worker_filter self) packet then Ok self
      else
        and_then (capture_packet packet self) (\<lambda>self.
        let self = self\<lparr>observed_packets := sat_add (observed_packets self) 1\<rparr> in
        and_then (should_analyze self) (\<lambda>analyze.
        if \<not> analyze then
          Ok (self\<lparr>statistics := (statistics self)
            \<lparr>sampled_out_packets := sat_add (sampled_out_packets (statistics self)) 1\<rparr>\<rparr>)
        else analyze_packet iter packet self)))"

section \<open>Running over bursts\<close>

fun process_all :: "flow_iteration \<Rightarrow> packet_view list \<Rightarrow> packet_worker \<Rightarrow> packet_worker result" where
  "process_all iter [] self = Ok self"
| "process_all iter (p # ps) self = and_then (process_packet iter p self) (process_all iter ps)"

text \<open>
  The loop of \<open>run_bursts\<close> with \<open>n\<close> bursts left.  A burst source returns its result, the packets
  it called the consumer with, and its next state; \<open>token k\<close> is the stop token as read before
  burst \<open>k\<close>.
\<close>

fun run_loop ::
  "('s \<Rightarrow> nat result \<times> packet_view list \<times> 's) \<Rightarrow> ('s \<Rightarrow> bool) \<Rightarrow> flow_iteration \<Rightarrow> (nat \<Rightarrow> stop_token)
     \<Rightarrow> nat \<Rightarrow> nat \<Rightarrow> packet_worker \<Rightarrow> 's \<Rightarrow> nat result \<times> packet_worker \<times> 's" where
  "run_loop receive exhausted iter token 0 k self source = (Ok k, self, source)"
| "run_loop receive exhausted iter token (Suc n) k self source =
     (if is_stopped (token k) then (Ok k, self, source)
      else case receive source of (res, packets, source') \<Rightarrow>
        (case process_all iter packets self of
           Err e \<Rightarrow> (Err e, self, source')
         | Panic \<Rightarrow> (Panic, self, source')
         | Ok self' \<Rightarrow>
             (case res of
                Err e \<Rightarrow> (Err e, self', source')
              | Panic \<Rightarrow> (Panic, self', source')
              | Ok received \<Rightarrow>
                  if received = 0 \<and> exhausted source' then (Ok (k + 1), self', source')
                  else run_loop receive exhausted iter token n (k + 1) self' source')))"

definition run_bursts ::
  "('s \<Rightarrow> nat result \<times> packet_view list \<times> 's) \<Rightarrow> ('s \<Rightarrow> bool) \<Rightarrow> flow_iteration \<Rightarrow> (nat \<Rightarrow> stop_token)
     \<Rightarrow> u64 \<Rightarrow> packet_worker \<Rightarrow> 's \<Rightarrow> worker_run_result result \<times> packet_worker \<times> 's" where
  "run_bursts receive exhausted iter token maximum_bursts self source =
     (case run_loop receive exhausted iter token (unat maximum_bursts) 0 self source of
        (res, self, source) \<Rightarrow>
          (and_then res (\<lambda>k.
             Ok \<lparr>bursts = of_nat k, result_statistics = statistics self,
                 result_coverage = config_coverage (configuration self)\<rparr>),
           self, source))"

section \<open>The worker does not panic\<close>

definition worker_ok :: "packet_worker \<Rightarrow> bool" where
  "worker_ok w \<longleftrightarrow> config_coverage (configuration w) \<noteq> Sampled 0 \<and> flow_table_inv (flows w)"

lemma worker_ok_new:
  "new_with_filter reserved config cap flt = Ok w \<Longrightarrow> worker_ok w"
  by (auto simp: new_with_filter_def new_worker_def validate_worker_def worker_ok_def outcome_simps
      flow_table_inv_new split: if_splits)

lemma parse_packet_tcp_ip:
  "parse_packet bs = Ok q \<Longrightarrow> pp_transport q = Some t \<Longrightarrow> pp_ip q \<noteq> None"
  by (auto simp: parse_packet_def Let_def outcome_simps finish_ip_def split: if_splits)

text \<open>What a segment of a flow does to the worker: the flow exists after it was ensured.\<close>

lemma process_tcp_flow:
  assumes "iteration_order iter" "flow_table_inv (flows w)"
  defines "w1 \<equiv> w\<lparr>statistics := (statistics w)
            \<lparr>tcp_packets := sat_add (tcp_packets (statistics w)) 1\<rparr>\<rparr>"
  obtains key dir table flow' and analysis :: tcp_analysis where
    "canonical (tuple_of_segment ip segment) = (key, dir)" "flow_table_inv table"
    "process_tcp iter now (Some ip) segment w =
       w1\<lparr>flows := set_value table key flow',
          statistics := (statistics w1)
            \<lparr>retransmissions := sat_add (retransmissions (statistics w1))
                (of_bool (is_retransmission (classification analysis))),
             stat_flows := clamp_from_nat (table_len (set_value table key flow'))\<rparr>\<rparr>"
proof -
  obtain key dir where k: "canonical (tuple_of_segment ip segment) = (key, dir)" by fastforce
  obtain d table where t: "get_or_insert_with iter (flows w) key now default_analyzer = (d, table)"
    by fastforce
  have e: "flow_ensures (flows w) key now default_analyzer table"
    using assms(1) t by (auto simp: flow_ensures_def)
  obtain flow where f: "value_mut table key = Some flow"
    using table.ensures_hit [OF assms(2) e] by blast
  obtain analysis flow' where
    a: "observe flow (observation_of dir segment) (capture_drops (stat_drops (statistics w)))
        = (analysis, flow')"
    by fastforce
  have inv: "flow_table_inv table"
    using table.ensures_inv [OF assms(2) e] .
  have "process_tcp iter now (Some ip) segment w =
       w1\<lparr>flows := set_value table key flow',
          statistics := (statistics w1)
            \<lparr>retransmissions := sat_add (retransmissions (statistics w1))
                (of_bool (is_retransmission (classification analysis))),
             stat_flows := clamp_from_nat (table_len (set_value table key flow'))\<rparr>\<rparr>"
    using k t f a by (simp add: process_tcp_def w1_def)
  then show ?thesis by (rule that [OF k inv])
qed

definition transport_is :: "(transport_packet \<Rightarrow> bool) \<Rightarrow> packet_view \<Rightarrow> bool" where
  "transport_is P p \<longleftrightarrow>
     (\<exists>q t. parse_packet (view_bytes p) = Ok q \<and> pp_transport q = Some t \<and> P t)"

definition ip_is :: "(ip_addr \<Rightarrow> bool) \<Rightarrow> packet_view \<Rightarrow> bool" where
  "ip_is P p \<longleftrightarrow>
     (\<exists>q ip. parse_packet (view_bytes p) = Ok q \<and> pp_ip q = Some ip \<and> P (ip_source ip))"

definition unparsable :: "packet_view \<Rightarrow> bool" where
  "unparsable p \<longleftrightarrow> (\<nexists>q. parse_packet (view_bytes p) = Ok q)"

fun is_tcp :: "transport_packet \<Rightarrow> bool" where
  "is_tcp (Tcp _) = True" | "is_tcp _ = False"

fun is_udp :: "transport_packet \<Rightarrow> bool" where
  "is_udp (Udp _) = True" | "is_udp _ = False"

fun is_icmp :: "transport_packet \<Rightarrow> bool" where
  "is_icmp (Icmp _) = True" | "is_icmp (Icmpv6 _) = True" | "is_icmp _ = False"

fun is_other :: "transport_packet \<Rightarrow> bool" where
  "is_other (Other _ _) = True" | "is_other Fragment = True" | "is_other _ = False"

text \<open>The counters an analyzed packet moves, each by at most one.\<close>

definition analyzed_counters :: "packet_view \<Rightarrow> packet_worker \<Rightarrow> packet_worker \<Rightarrow> bool" where
  "analyzed_counters p w w' \<longleftrightarrow>
     configuration w' = configuration w \<and> worker_filter w' = worker_filter w
     \<and> worker_capture w' = worker_capture w \<and> observed_packets w' = observed_packets w
     \<and> flow_table_inv (flows w')
     \<and> rx_packets (statistics w') = rx_packets (statistics w)
     \<and> sampled_out_packets (statistics w') = sampled_out_packets (statistics w)
     \<and> stat_drops (statistics w') = stat_drops (statistics w)
     \<and> parse_errors (statistics w') = sat_add (parse_errors (statistics w)) (of_bool (unparsable p))
     \<and> tcp_packets (statistics w') = sat_add (tcp_packets (statistics w)) (of_bool (transport_is is_tcp p))
     \<and> udp_packets (statistics w') = sat_add (udp_packets (statistics w)) (of_bool (transport_is is_udp p))
     \<and> icmp_packets (statistics w') = sat_add (icmp_packets (statistics w)) (of_bool (transport_is is_icmp p))
     \<and> other_packets (statistics w') = sat_add (other_packets (statistics w)) (of_bool (transport_is is_other p))
     \<and> ipv4_packets (statistics w') = sat_add (ipv4_packets (statistics w)) (of_bool (ip_is is_ipv4 p))
     \<and> ipv6_packets (statistics w') =
          sat_add (ipv6_packets (statistics w)) (of_bool (ip_is (\<lambda>a. \<not> is_ipv4 a) p))"

lemma count_ip_fields:
  "rx_packets (count_ip ip st) = rx_packets st"
  "sampled_out_packets (count_ip ip st) = sampled_out_packets st"
  "stat_drops (count_ip ip st) = stat_drops st" "parse_errors (count_ip ip st) = parse_errors st"
  "tcp_packets (count_ip ip st) = tcp_packets st" "udp_packets (count_ip ip st) = udp_packets st"
  "icmp_packets (count_ip ip st) = icmp_packets st" "other_packets (count_ip ip st) = other_packets st"
  "ipv4_packets (count_ip ip st) =
     sat_add (ipv4_packets st) (of_bool (\<exists>p. ip = Some p \<and> is_ipv4 (ip_source p)))"
  "ipv6_packets (count_ip ip st) =
     sat_add (ipv6_packets st) (of_bool (\<exists>p. ip = Some p \<and> \<not> is_ipv4 (ip_source p)))"
  by (auto simp: count_ip_def split: option.splits ip_addr.splits)

lemma analyze_packet_counters:
  assumes "iteration_order iter" "flow_table_inv (flows w)"
  shows "\<exists>w'. analyze_packet iter p w = Ok w' \<and> analyzed_counters p w w'"
proof (cases "parse_packet (view_bytes p)")
  case (Err e)
  then show ?thesis
    using assms by (simp add: analyze_packet_def analyzed_counters_def unparsable_def transport_is_def ip_is_def)
next
  case Panic
  then show ?thesis using parse_packet_total by metis
next
  case (Ok q)
  let ?w = "w\<lparr>statistics := count_ip (pp_ip q) (statistics w)\<rparr>"
  have inv: "flow_table_inv (flows ?w)" using assms by simp
  have an: "analyze_packet iter p w =
      Ok (process_transport iter (timestamp_nanoseconds p) q ?w)"
    using Ok by (simp add: analyze_packet_def)
  note facts = Ok assms(2) count_ip_fields
  note defs = analyzed_counters_def unparsable_def transport_is_def ip_is_def process_transport_def
  show ?thesis
  proof (cases "pp_transport q")
    case None
    then show ?thesis using an facts by (simp add: defs)
  next
    case (Some t)
    show ?thesis
    proof (cases t)
      case (Tcp segment)
      obtain ip where ip: "pp_ip q = Some ip"
        using parse_packet_tcp_ip [OF Ok Some] by blast
      show ?thesis
        by (rule process_tcp_flow [OF assms(1) inv, of ip segment "timestamp_nanoseconds p"])
          (use an facts Some Tcp ip in \<open>simp add: defs flow_table_inv_set_value\<close>)
    qed (use an facts Some in \<open>simp_all add: defs\<close>)
  qed
qed

section \<open>Exact accounting\<close>

definition stride :: "analysis_coverage \<Rightarrow> nat" where
  "stride cov = (case cov of FullCoverage \<Rightarrow> 1 | Sampled n \<Rightarrow> unat n)"

definition accepted :: "packet_filter option \<Rightarrow> packet_view list \<Rightarrow> packet_view list" where
  "accepted flt ps = filter (\<lambda>p. \<not> rejected_by flt p) ps"

text \<open>The elements of a list at the positions that are multiples of \<open>k\<close>.\<close>

definition every :: "nat \<Rightarrow> 'a list \<Rightarrow> 'a list" where
  "every k xs = map ((!) xs) (filter (\<lambda>i. i mod k = 0) [0..<length xs])"

lemma every_Nil [simp]: "every k [] = []"
  by (simp add: every_def)

lemma every_snoc: "every k (xs @ [x]) = every k xs @ (if length xs mod k = 0 then [x] else [])"
proof -
  have "map ((!) (xs @ [x])) (filter (\<lambda>i. i mod k = 0) [0..<length xs]) =
        map ((!) xs) (filter (\<lambda>i. i mod k = 0) [0..<length xs])"
    by (rule map_cong) (auto simp: nth_append)
  then show ?thesis by (simp add: every_def)
qed

lemma length_every_le: "length (every k xs) \<le> length xs"
  using length_filter_le [of "\<lambda>i. i mod k = 0" "[0..<length xs]"] by (simp add: every_def)

definition holds_count :: "u64 \<Rightarrow> ('a \<Rightarrow> bool) \<Rightarrow> 'a list \<Rightarrow> bool" where
  "holds_count c P xs \<longleftrightarrow> unat c = length (filter P xs)"

text \<open>
  The counters of a worker that has processed \<open>ps\<close>: every packet is counted as received; those the
  filter accepts are observed; of these the sampled ones are analyzed, and each analyzed packet is
  counted once under its outcome.
\<close>

definition worker_counts :: "packet_view list \<Rightarrow> packet_worker \<Rightarrow> bool" where
  "worker_counts ps w \<longleftrightarrow>
     (let m = accepted (worker_filter w) ps;
          a = every (stride (config_coverage (configuration w))) m;
          st = statistics w in
      unat (rx_packets st) = length ps \<and> unat (observed_packets w) = length m
      \<and> unat (sampled_out_packets st) + length a = length m
      \<and> holds_count (parse_errors st) unparsable a
      \<and> holds_count (tcp_packets st) (transport_is is_tcp) a
      \<and> holds_count (udp_packets st) (transport_is is_udp) a
      \<and> holds_count (icmp_packets st) (transport_is is_icmp) a
      \<and> holds_count (other_packets st) (transport_is is_other) a
      \<and> holds_count (ipv4_packets st) (ip_is is_ipv4) a
      \<and> holds_count (ipv6_packets st) (ip_is (\<lambda>x. \<not> is_ipv4 x)) a
      \<and> analyzer (stat_drops st) = 0)"

lemma holds_count_snoc:
  assumes "holds_count c P xs" "length xs < 2 ^ 64 - 1"
  shows "holds_count (sat_add c (of_bool (P x))) P (xs @ [x])"
proof -
  have "length (filter P xs) < 2 ^ 64 - 1"
    using length_filter_le [of P xs] assms(2) by linarith
  then show ?thesis using assms(1) by (simp add: holds_count_def sat_add_one_unat)
qed

lemma worker_counts_new:
  "new_with_filter reserved config cap flt = Ok w \<Longrightarrow>
     worker_counts [] w \<and> configuration w = config \<and> worker_filter w = flt"
  by (auto simp: new_with_filter_def new_worker_def outcome_simps worker_counts_def accepted_def
      holds_count_def default_stats_def default_drops_def split: if_splits)

definition captured_only :: "packet_worker \<Rightarrow> packet_worker \<Rightarrow> bool" where
  "captured_only w w' \<longleftrightarrow>
     (\<exists>q d. analyzer d = analyzer (stat_drops (statistics w))
       \<and> w' = w\<lparr>worker_capture := q, statistics := (statistics w)\<lparr>stat_drops := d\<rparr>\<rparr>)"

lemma capture_packet_ok: "\<exists>w'. capture_packet p w = Ok w' \<and> captured_only w w'"
proof (cases "worker_capture w")
  case None
  then have "w = w\<lparr>worker_capture := None, statistics :=
      (statistics w)\<lparr>stat_drops := stat_drops (statistics w)\<rparr>\<rparr>"
    by (cases w) simp
  then have "captured_only w w" unfolding captured_only_def by metis
  then show ?thesis using None by (simp add: capture_packet_def)
next
  case (Some q)
  have "captured_only w (w\<lparr>worker_capture := c, statistics := (statistics w)\<lparr>stat_drops := d\<rparr>\<rparr>)"
    if "analyzer d = analyzer (stat_drops (statistics w))" for c d
    using that unfolding captured_only_def by blast
  from this [where d = "stat_drops (statistics w)"] this show ?thesis
    using Some by (cases rule: try_capture_cases [of q p "statistics w"])
      (simp_all add: capture_packet_def)
qed

lemma should_analyze_eq:
  assumes "config_coverage (configuration w) \<noteq> Sampled 0" "unat (observed_packets w) = Suc n"
  shows "should_analyze w = Ok (n mod stride (config_coverage (configuration w)) = 0)"
proof -
  have ne: "observed_packets w \<noteq> 0" using assms(2) by auto
  have "unat (observed_packets w - 1) = n"
    using ne assms(2) by (simp add: unat_minus_one)
  moreover have "(x mod ucast k = (0 :: u64)) = (unat x mod unat k = 0)" for x :: u64 and k :: u32
  proof -
    have "unat (x mod ucast k) = unat x mod unat k"
      by (simp add: unat_mod_distrib unat_ucast_up)
    then show ?thesis by (simp add: word_eq_iff_unsigned [of _ 0] flip: unat_eq_0) 
  qed
  ultimately show ?thesis
    using assms(1) ne by (auto simp: should_analyze_def stride_def split: analysis_coverage.splits)
qed

lemma accepted_snoc:
  "accepted flt (ps @ [p]) = accepted flt ps @ (if rejected_by flt p then [] else [p])"
  by (simp add: accepted_def)

lemma length_accepted_le: "length (accepted flt ps) \<le> length ps"
  by (simp add: accepted_def)

text \<open>The worker that reaches the sampling decision of \<open>process_packet\<close>.\<close>

definition offered :: "packet_view \<Rightarrow> packet_worker \<Rightarrow> packet_worker \<Rightarrow> bool" where
  "offered p w w1 \<longleftrightarrow>
     captured_only (w\<lparr>statistics := record_packet (wire_length p) (statistics w)\<rparr>)
       (w1\<lparr>observed_packets := observed_packets w\<rparr>)
     \<and> observed_packets w1 = sat_add (observed_packets w) 1"

lemma offered_fields:
  assumes "offered p w w1"
  shows "configuration w1 = configuration w" "worker_filter w1 = worker_filter w"
    "flows w1 = flows w" "observed_packets w1 = sat_add (observed_packets w) 1"
    "rx_packets (statistics w1) = sat_add (rx_packets (statistics w)) 1"
    "sampled_out_packets (statistics w1) = sampled_out_packets (statistics w)"
    "parse_errors (statistics w1) = parse_errors (statistics w)"
    "tcp_packets (statistics w1) = tcp_packets (statistics w)"
    "udp_packets (statistics w1) = udp_packets (statistics w)"
    "icmp_packets (statistics w1) = icmp_packets (statistics w)"
    "other_packets (statistics w1) = other_packets (statistics w)"
    "ipv4_packets (statistics w1) = ipv4_packets (statistics w)"
    "ipv6_packets (statistics w1) = ipv6_packets (statistics w)"
    "analyzer (stat_drops (statistics w1)) = analyzer (stat_drops (statistics w))"
proof -
  obtain q d where qd: "analyzer d = analyzer (stat_drops (statistics w))"
    and eq: "w1\<lparr>observed_packets := observed_packets w\<rparr> =
      w\<lparr>worker_capture := q,
        statistics := (record_packet (wire_length p) (statistics w))\<lparr>stat_drops := d\<rparr>\<rparr>"
    using assms by (auto simp: offered_def captured_only_def record_packet_def)
  have c: "configuration w1 = configuration w" "worker_filter w1 = worker_filter w"
    "flows w1 = flows w"
    "statistics w1 = (record_packet (wire_length p) (statistics w))\<lparr>stat_drops := d\<rparr>"
    using arg_cong [OF eq, of configuration] arg_cong [OF eq, of worker_filter]
      arg_cong [OF eq, of flows] arg_cong [OF eq, of statistics] by simp_all
  show "observed_packets w1 = sat_add (observed_packets w) 1"
    using assms by (simp add: offered_def)
  show "configuration w1 = configuration w" "worker_filter w1 = worker_filter w"
    "flows w1 = flows w"
    "rx_packets (statistics w1) = sat_add (rx_packets (statistics w)) 1"
    "sampled_out_packets (statistics w1) = sampled_out_packets (statistics w)"
    "parse_errors (statistics w1) = parse_errors (statistics w)"
    "tcp_packets (statistics w1) = tcp_packets (statistics w)"
    "udp_packets (statistics w1) = udp_packets (statistics w)"
    "icmp_packets (statistics w1) = icmp_packets (statistics w)"
    "other_packets (statistics w1) = other_packets (statistics w)"
    "ipv4_packets (statistics w1) = ipv4_packets (statistics w)"
    "ipv6_packets (statistics w1) = ipv6_packets (statistics w)"
    "analyzer (stat_drops (statistics w1)) = analyzer (stat_drops (statistics w))"
    using c qd by (simp_all add: record_packet_def)
qed

lemma process_packet_accepted:
  assumes "\<not> rejected_by (worker_filter w) p"
  obtains w1 where "offered p w w1"
    "process_packet iter p w =
       and_then (should_analyze w1) (\<lambda>analyze.
         if \<not> analyze then
           Ok (w1\<lparr>statistics := (statistics w1)
             \<lparr>sampled_out_packets := sat_add (sampled_out_packets (statistics w1)) 1\<rparr>\<rparr>)
         else analyze_packet iter p w1)"
proof -
  let ?w = "w\<lparr>statistics := record_packet (wire_length p) (statistics w)\<rparr>"
  obtain w' where w': "capture_packet p ?w = Ok w'" "captured_only ?w w'"
    using capture_packet_ok by blast
  have o: "observed_packets w' = observed_packets w"
    using w'(2) by (auto simp: captured_only_def)
  have id: "w'\<lparr>observed_packets := observed_packets w\<rparr> = w'"
    using o by (cases w') simp
  have c: "captured_only ?w (w'\<lparr>observed_packets := observed_packets w\<rparr>)"
    unfolding id by (rule w'(2))
  show ?thesis
    by (rule that [of "w'\<lparr>observed_packets := sat_add (observed_packets w') 1\<rparr>"])
      (use assms w' o c in \<open>simp_all add: process_packet_def Let_def offered_def\<close>)
qed

lemma worker_counts_rejected:
  assumes "worker_counts ps w" "rejected_by (worker_filter w) p" "length ps < 2 ^ 64 - 1"
  shows "worker_counts (ps @ [p])
           (w\<lparr>statistics := record_packet (wire_length p) (statistics w)\<rparr>)"
  using assms
  by (simp add: worker_counts_def Let_def accepted_snoc record_packet_def sat_add_one_unat)

lemma process_packet_counts:
  assumes iter: "iteration_order iter" and ok: "worker_ok w" and counts: "worker_counts ps w"
    and len: "length ps < 2 ^ 64 - 1"
  shows "\<exists>w'. process_packet iter p w = Ok w' \<and> worker_ok w' \<and> worker_counts (ps @ [p]) w'
           \<and> configuration w' = configuration w \<and> worker_filter w' = worker_filter w"
proof (cases "rejected_by (worker_filter w) p")
  case True
  then show ?thesis
    using worker_counts_rejected [OF counts True len] ok by (simp add: process_packet_def worker_ok_def)
next
  case False
  let ?m = "accepted (worker_filter w) ps" and ?k = "stride (config_coverage (configuration w))"
  obtain w1 where o: "offered p w w1" and
    step: "process_packet iter p w =
       and_then (should_analyze w1) (\<lambda>analyze.
         if \<not> analyze then
           Ok (w1\<lparr>statistics := (statistics w1)
             \<lparr>sampled_out_packets := sat_add (sampled_out_packets (statistics w1)) 1\<rparr>\<rparr>)
         else analyze_packet iter p w1)"
    using process_packet_accepted [OF False] by blast
  have m: "length ?m < 2 ^ 64 - 1" and a: "length (every ?k ?m) < 2 ^ 64 - 1"
    using length_accepted_le [of "worker_filter w" ps] length_every_le [of ?k ?m] len by linarith+
  have obs: "unat (observed_packets w1) = Suc (length ?m)"
    using offered_fields(4) [OF o] counts m
    by (simp add: worker_counts_def Let_def sat_add_one_unat)
  have should: "should_analyze w1 = Ok (length ?m mod ?k = 0)"
    using should_analyze_eq [OF _ obs] ok offered_fields(1) [OF o] by (simp add: worker_ok_def)
  show ?thesis
  proof (cases "length ?m mod ?k = 0")
    case skip: False
    have "unat (sampled_out_packets (statistics w)) < 2 ^ 64 - 1"
      using counts m by (simp add: worker_counts_def Let_def)
    then show ?thesis
      using step should skip False counts ok len m
      by (simp add: worker_counts_def Let_def accepted_snoc every_snoc offered_fields [OF o]
          sat_add_one_unat worker_ok_def)
  next
    case take: True
    obtain w' where w': "analyze_packet iter p w1 = Ok w'" "analyzed_counters p w1 w'"
      using analyze_packet_counters [OF iter, of w1 p] ok offered_fields(3) [OF o]
      by (auto simp: worker_ok_def)
    then show ?thesis
      using step should take False counts ok len m a
      by (simp add: worker_counts_def Let_def accepted_snoc every_snoc offered_fields [OF o]
          sat_add_one_unat worker_ok_def analyzed_counters_def holds_count_snoc)
  qed
qed

lemma process_all_counts:
  assumes "iteration_order iter" "worker_ok w" "worker_counts ps w" "length ps + length qs < 2 ^ 64"
  shows "\<exists>w'. process_all iter qs w = Ok w' \<and> worker_ok w' \<and> worker_counts (ps @ qs) w'
           \<and> configuration w' = configuration w \<and> worker_filter w' = worker_filter w"
  using assms(2-4)
proof (induction qs arbitrary: ps w)
  case Nil
  then show ?case by simp
next
  case (Cons q qs)
  obtain w1 where w1: "process_packet iter q w = Ok w1" "worker_ok w1" "worker_counts (ps @ [q]) w1"
    "configuration w1 = configuration w" "worker_filter w1 = worker_filter w"
    using process_packet_counts [OF assms(1) Cons.prems(1,2), of q] Cons.prems(3) by auto
  then show ?case using Cons.IH [OF w1(2,3)] Cons.prems(3) by auto
qed






section \<open>Burst sources\<close>

text \<open>
  The contract of a replaying \<open>BurstSource\<close>: \<open>holds s ps\<close> says that the packets \<open>ps\<close> are still to
  come.  A burst delivers a prefix of them and reports its length; an empty burst is the end.
\<close>

locale burst_source =
  fixes receive :: "'s \<Rightarrow> nat result \<times> packet_view list \<times> 's"
    and at_end :: "'s \<Rightarrow> bool"
    and holds :: "'s \<Rightarrow> packet_view list \<Rightarrow> bool"
  assumes delivers: "holds s ps \<Longrightarrow>
      \<exists>qs rest s'. receive s = (Ok (length qs), qs, s') \<and> ps = qs @ rest \<and> holds s' rest
        \<and> (qs = [] \<longrightarrow> at_end s' \<and> rest = [])"
begin

lemma run_loop_counts:
  assumes iter: "iteration_order iter"
  shows "holds s ps \<Longrightarrow> worker_ok w \<Longrightarrow> worker_counts seen w \<Longrightarrow> length seen + length ps < 2 ^ 64 \<Longrightarrow>
    \<exists>k' w' s' qs rest. run_loop receive at_end iter token n k w s = (Ok k', w', s')
      \<and> ps = qs @ rest \<and> holds s' rest \<and> worker_counts (seen @ qs) w' \<and> k' \<le> k + n
      \<and> configuration w' = configuration w \<and> worker_filter w' = worker_filter w
      \<and> (length ps < n \<and> (\<forall>i. \<not> is_stopped (token i)) \<longrightarrow> rest = [])"
proof (induction n arbitrary: k w s ps seen)
  case 0
  then show ?case by (intro exI [of _ k] exI [of _ w] exI [of _ s] exI [of _ "[]"] exI [of _ ps]) simp
next
  case (Suc n)
  obtain qs rest s' where b: "receive s = (Ok (length qs), qs, s')" "ps = qs @ rest" "holds s' rest"
    "qs = [] \<longrightarrow> at_end s' \<and> rest = []"
    using delivers [OF Suc.prems(1)] by blast
  obtain w' where w': "process_all iter qs w = Ok w'" "worker_ok w'" "worker_counts (seen @ qs) w'"
    "configuration w' = configuration w" "worker_filter w' = worker_filter w"
    using process_all_counts [OF iter Suc.prems(2,3), of qs] Suc.prems(4) b(2) by auto
  show ?case
  proof (cases "is_stopped (token k)")
    case True
    then show ?thesis using Suc.prems
      by (intro exI [of _ k] exI [of _ w] exI [of _ s] exI [of _ "[]"] exI [of _ ps]) auto
  next
    case go: False
    show ?thesis
    proof (cases "qs = []")
      case True
      then show ?thesis using go b w'
        by (intro exI [of _ "k + 1"] exI [of _ w'] exI [of _ s'] exI [of _ "[]"] exI [of _ rest]) auto
    next
      case False
      have total: "length (seen @ qs) + length rest < 2 ^ 64" using Suc.prems(4) b(2) by simp
      obtain k2 w2 s2 qs2 rest2 where
        r: "run_loop receive at_end iter token n (k + 1) w' s' = (Ok k2, w2, s2)"
        "rest = qs2 @ rest2" "holds s2 rest2" "worker_counts ((seen @ qs) @ qs2) w2" "k2 \<le> k + 1 + n"
        "configuration w2 = configuration w'" "worker_filter w2 = worker_filter w'"
        "length rest < n \<and> (\<forall>i. \<not> is_stopped (token i)) \<longrightarrow> rest2 = []"
        using Suc.IH [OF b(3) w'(2,3) total, of "k + 1"] by blast
      have len: "length ps < Suc n \<longrightarrow> length rest < n" using b(2) False by (cases qs) auto
      have "run_loop receive at_end iter token (Suc n) k w s = (Ok k2, w2, s2)"
        using go b(1) w'(1) r(1) False by simp
      moreover have "ps = (qs @ qs2) @ rest2" using b(2) r(2) by simp
      moreover have "worker_counts (seen @ qs @ qs2) w2" using r(4) by simp
      moreover have "k2 \<le> k + Suc n" "configuration w2 = configuration w"
        "worker_filter w2 = worker_filter w" using r(5-7) w'(4,5) by simp_all
      ultimately show ?thesis using r(3,8) len by blast
    qed
  qed
qed

lemma run_bursts_counts:
  assumes "iteration_order iter" "holds s ps" "length ps < 2 ^ 64"
    and w: "new_with_filter reserved config cap flt = Ok w"
  shows "\<exists>r w' s' qs rest. run_bursts receive at_end iter token maximum w s = (Ok r, w', s')
      \<and> ps = qs @ rest \<and> holds s' rest \<and> worker_counts qs w' \<and> unat (bursts r) \<le> unat maximum
      \<and> result_statistics r = statistics w' \<and> result_coverage r = config_coverage config
      \<and> configuration w' = config \<and> worker_filter w' = flt
      \<and> (length ps < unat maximum \<and> (\<forall>i. \<not> is_stopped (token i)) \<longrightarrow> rest = [])"
proof -
  obtain k' w' s' qs rest where
    r: "run_loop receive at_end iter token (unat maximum) 0 w s = (Ok k', w', s')"
      "ps = qs @ rest" "holds s' rest" "worker_counts ([] @ qs) w'" "k' \<le> 0 + unat maximum"
      "configuration w' = configuration w" "worker_filter w' = worker_filter w"
      "length ps < unat maximum \<and> (\<forall>i. \<not> is_stopped (token i)) \<longrightarrow> rest = []"
    using run_loop_counts [OF assms(1,2) worker_ok_new [OF w], of "[]"] worker_counts_new [OF w]
      assms(3) by (metis add.left_neutral list.size(3))
  have "unat (of_nat k' :: u64) \<le> unat maximum"
    using r(5) by (simp add: unat_of_nat)
  moreover have "run_bursts receive at_end iter token maximum w s =
      (Ok \<lparr>bursts = of_nat k', result_statistics = statistics w',
           result_coverage = config_coverage (configuration w')\<rparr>, w', s')"
    using r(1) by (simp add: run_bursts_def)
  ultimately show ?thesis
    using r(2-4,6-8) worker_counts_new [OF w] by (intro exI conjI) (assumption | simp)+
qed

end

end
