(* ===== verification/Pcap_Backend.thy ===== *)
theory Pcap_Backend
  imports Capture Packet_Worker
begin

text \<open>
  The offline capture backend (src/crates/backend-pcap/src/lib.rs): bounds-checked streaming
  readers for PCAP and PCAPNG files.  The reader is the list of bytes not yet read; operating
  system read errors other than end of file are not modelled.  A packet the consumer is called
  with carries its bytes, so the reused packet and block buffers of the source have no state of
  their own.
\<close>

definition MAX_CAPTURE_BLOCK_LENGTH :: nat where
  "MAX_CAPTURE_BLOCK_LENGTH = 16 * 1024 * 1024"

definition DEFAULT_BURST_SIZE :: nat where
  "DEFAULT_BURST_SIZE = 64"

datatype endian = Little | Big

datatype timestamp_unit = Microseconds | Nanoseconds

datatype timestamp_resolution = Decimal u8 | Binary u8

record interface_description =
  idb_link_type :: u16
  idb_snaplen :: u32
  idb_resolution :: timestamp_resolution

datatype file_format =
    PcapFile endian timestamp_unit u32 u32
  | PcapNgFile endian "interface_description list"

record record_metadata =
  meta_timestamp :: u64
  meta_wire_length :: u32
  meta_queue_id :: u16

record capture_file_source =
  reader :: bytes
  source_format :: file_format
  burst_size :: nat
  exhausted :: bool

definition format_error :: "string \<Rightarrow> nettool_error" where
  "format_error m = new_error CaptureFormatInvalid m False"

text \<open>The error of a read that reaches the end of the file.\<close>

definition read_error :: nettool_error where
  "read_error = new_error CaptureReadFailed
     ''capture file read failed: failed to fill whole buffer'' False"

section \<open>Reading fields and buffers\<close>

definition read_exact :: "nat \<Rightarrow> bytes \<Rightarrow> (bytes \<times> bytes) result" where
  "read_exact n r = (if n \<le> length r then Ok (take n r, drop n r) else Err read_error)"

definition read_exact_or_eof :: "nat \<Rightarrow> bytes \<Rightarrow> (bytes \<times> bytes) option result" where
  "read_exact_or_eof n r =
     (if n = 0 then Ok (Some ([], r))
      else if r = [] then Ok None
      else if length r < n then Err (format_error ''capture record is truncated'')
      else Ok (Some (take n r, drop n r)))"

definition from_endian_bytes :: "endian \<Rightarrow> bytes \<Rightarrow> 'a::len word" where
  "from_endian_bytes e bs = (case e of Little \<Rightarrow> from_le_bytes bs | Big \<Rightarrow> from_be_bytes bs)"

definition field_u16 :: "bytes \<Rightarrow> nat \<Rightarrow> endian \<Rightarrow> u16 result" where
  "field_u16 bs offset e =
     and_then (ok_or (format_error ''capture field is truncated'')
                (get_range bs offset (offset + 2))) (\<lambda>value.
     and_then (index_at value 0) (\<lambda>b0. and_then (index_at value 1) (\<lambda>b1.
       Ok (from_endian_bytes e [b0, b1]))))"

definition field_u32 :: "bytes \<Rightarrow> nat \<Rightarrow> endian \<Rightarrow> u32 result" where
  "field_u32 bs offset e =
     and_then (ok_or (format_error ''capture field is truncated'')
                (get_range bs offset (offset + 4))) (\<lambda>value.
     and_then (index_at value 0) (\<lambda>b0. and_then (index_at value 1) (\<lambda>b1.
     and_then (index_at value 2) (\<lambda>b2. and_then (index_at value 3) (\<lambda>b3.
       Ok (from_endian_bytes e [b0, b1, b2, b3]))))))"

section \<open>File headers\<close>

definition parse_pcap_header ::
  "bytes \<Rightarrow> endian \<Rightarrow> timestamp_unit \<Rightarrow> (file_format \<times> bytes) result" where
  "parse_pcap_header r e unit =
     and_then (read_exact 20 r) (\<lambda>(rest, r).
     and_then (field_u16 rest 0 e) (\<lambda>major_version.
     and_then (if major_version \<noteq> 2 then Ok True
               else and_then (field_u16 rest 2 e) (\<lambda>minor. Ok (minor \<noteq> 4))) (\<lambda>wrong.
     if wrong then Err (format_error ''PCAP version must be 2.4'')
     else and_then (field_u32 rest 12 e) (\<lambda>snap.
     and_then (field_u32 rest 16 e) (\<lambda>link_type.
     if snap = 0 \<or> unat snap > MAX_CAPTURE_BLOCK_LENGTH then
       Err (format_error ''PCAP snaplen is invalid'')
     else if link_type \<noteq> 1 then
       Err (format_error ''only Ethernet PCAP link type is supported'')
     else Ok (PcapFile e unit link_type snap, r))))))"

definition parse_pcapng_section_header :: "bytes \<Rightarrow> (file_format \<times> bytes) result" where
  "parse_pcapng_section_header r =
     and_then (read_exact 8 r) (\<lambda>(prefix, r).
     and_then (slice_range prefix 4 8) (\<lambda>magic.
     and_then
       (if magic = [0x4d, 0x3c, 0x2b, 0x1a] then Ok Little
        else if magic = [0x1a, 0x2b, 0x3c, 0x4d] then Ok Big
        else Err (format_error ''PCAPNG byte-order magic is invalid'')) (\<lambda>e.
     and_then (field_u32 prefix 0 e) (\<lambda>total.
     let total_length = unat total in
     if \<not> (28 \<le> total_length \<and> total_length \<le> MAX_CAPTURE_BLOCK_LENGTH)
        \<or> total_length mod 4 \<noteq> 0 then
       Err (format_error ''PCAPNG section header length is invalid'')
     else and_then (read_exact (total_length - 12) r) (\<lambda>(remainder, r).
     and_then (field_u16 remainder 0 e) (\<lambda>major_version.
     if major_version \<noteq> 1 then Err (format_error ''unsupported PCAPNG major version'')
     else and_then (field_u32 remainder (length remainder - 4) e) (\<lambda>trailing.
     if unat trailing \<noteq> total_length then
       Err (format_error ''PCAPNG section trailing length mismatch'')
     else Ok (PcapNgFile e [], r))))))))"

definition open_source :: "bytes \<Rightarrow> capture_file_source result" where
  "open_source file =
     and_then (read_exact 4 file) (\<lambda>(prefix, r).
     and_then
       (if prefix = [0xd4, 0xc3, 0xb2, 0xa1] then parse_pcap_header r Little Microseconds
        else if prefix = [0xa1, 0xb2, 0xc3, 0xd4] then parse_pcap_header r Big Microseconds
        else if prefix = [0x4d, 0x3c, 0xb2, 0xa1] then parse_pcap_header r Little Nanoseconds
        else if prefix = [0xa1, 0xb2, 0x3c, 0x4d] then parse_pcap_header r Big Nanoseconds
        else if prefix = [0x0a, 0x0d, 0x0d, 0x0a] then parse_pcapng_section_header r
        else Err (format_error ''capture file magic is unsupported'')) (\<lambda>(fmt, r).
       Ok \<lparr>reader = r, source_format = fmt, burst_size = DEFAULT_BURST_SIZE, exhausted = False\<rparr>))"


section \<open>Options and blocks\<close>

text \<open>The value rounded down to a multiple of four, \<open>x & !3\<close>.\<close>

definition clear_low2 :: "nat \<Rightarrow> nat" where
  "clear_low2 x = x - x mod 4"

text \<open>\<open>parse_options\<close>; the state of the visitor closure is threaded through the calls.\<close>

function parse_options ::
  "endian \<Rightarrow> ('s \<Rightarrow> u16 \<Rightarrow> bytes \<Rightarrow> 's result) \<Rightarrow> 's \<Rightarrow> bytes \<Rightarrow> 's result" where
  "parse_options e visitor st bs =
     (if bs = [] then Ok st
      else if length bs < 4 then Err (format_error ''PCAPNG option header is truncated'')
      else
        and_then (field_u16 bs 0 e) (\<lambda>opt_code.
        and_then (field_u16 bs 2 e) (\<lambda>len.
        and_then (slice_from bs 4) (\<lambda>rest.
        if opt_code = 0 then
          if len \<noteq> 0 then Err (format_error ''PCAPNG end option has non-zero length'')
          else Ok st
        else
          and_then (ok_or (format_error ''PCAPNG option length overflow'')
                     (usize_checked_add (unat len) 3)) (\<lambda>len3.
          let pad_len = clear_low2 len3 in
          if pad_len > length rest \<or> unat len > length rest then
            Err (format_error ''PCAPNG option is truncated'')
          else
            and_then (slice_to rest (unat len)) (\<lambda>value.
            and_then (visitor st opt_code value) (\<lambda>st.
            and_then (slice_from rest pad_len) (\<lambda>rest.
              parse_options e visitor st rest))))))))"
  by auto
termination
  by (relation "measure (\<lambda>(e, visitor, st, bs). length bs)") (auto simp: slice_from_def split: if_splits)

declare parse_options.simps [simp del]

definition interface_visitor :: "timestamp_resolution \<Rightarrow> u16 \<Rightarrow> bytes \<Rightarrow> timestamp_resolution result" where
  "interface_visitor res opt_code value =
     (if opt_code = 9 \<and> length value = 1 then
        and_then (index_at value 0) (\<lambda>v.
          if v AND 0x80 = 0 then Ok (Decimal v) else Ok (Binary (v AND 0x7f)))
      else Ok res)"

definition parse_interface_description ::
  "bytes \<Rightarrow> endian \<Rightarrow> interface_description list \<Rightarrow> interface_description list result" where
  "parse_interface_description body e interfaces =
     (if length body < 8 then Err (format_error ''PCAPNG interface block is truncated'')
      else
        and_then (field_u16 body 0 e) (\<lambda>link_type.
        if link_type \<noteq> 1 then
          Err (format_error ''only Ethernet PCAPNG interfaces are supported'')
        else
          and_then (field_u32 body 4 e) (\<lambda>snap.
          and_then (slice_from body 8) (\<lambda>options.
          and_then (parse_options e interface_visitor (Decimal 6) options) (\<lambda>res.
            Ok (interfaces @ [\<lparr>idb_link_type = link_type, idb_snaplen = snap,
                               idb_resolution = res\<rparr>]))))))"

text \<open>\<open>str::parse::<u16>\<close>: an optional plus sign and decimal digits without overflow.\<close>

fun parse_digits :: "nat \<Rightarrow> nat list \<Rightarrow> nat option" where
  "parse_digits acc [] = Some acc"
| "parse_digits acc (c # cs) =
     (if 48 \<le> c \<and> c \<le> 57 then
        let acc = acc * 10 + (c - 48) in if acc < 2 ^ 16 then parse_digits acc cs else None
      else None)"

definition parse_u16 :: "nat list \<Rightarrow> u16 option" where
  "parse_u16 cs =
     (case cs of
        [] \<Rightarrow> None
      | c # rest \<Rightarrow>
          map_option of_nat
            (if c = 43 \<and> rest \<noteq> [] then parse_digits 0 rest else parse_digits 0 (c # rest)))"

definition strip_prefix :: "'a list \<Rightarrow> 'a list \<Rightarrow> 'a list option" where
  "strip_prefix p xs =
     (if take (length p) xs = p then Some (drop (length p) xs) else None)"

definition packet_visitor :: "u16 \<Rightarrow> u16 \<Rightarrow> bytes \<Rightarrow> u16 result" where
  "packet_visitor q opt_code value =
     (if opt_code = 1 \<and> utf8_valid (map unat value) then
        (case strip_prefix (str_bytes ''queue_id='') value of
           None \<Rightarrow> Ok q
         | Some raw \<Rightarrow>
             ok_or (format_error ''PCAPNG queue comment is invalid'') (parse_u16 (map unat raw)))
      else Ok q)"

definition timestamp_to_nanoseconds :: "u64 \<Rightarrow> timestamp_resolution \<Rightarrow> u64 result" where
  "timestamp_to_nanoseconds ts res =
     (case res of
        Decimal pw \<Rightarrow>
          if pw \<le> 9 then Ok (sat_mul ts (clamp_from_nat (10 ^ unat (9 - pw))))
          else if pw \<le> 19 then Ok (ts div clamp_from_nat (10 ^ unat (pw - 9)))
          else Err (format_error ''PCAPNG timestamp resolution is unsupported'')
      | Binary pw \<Rightarrow>
          if pw \<le> 63 then
            Ok (clamp_from_nat (unat (drop_bit (unat pw) (sat_mul (ucast ts :: u128) 1000000000))))
          else Err (format_error ''PCAPNG timestamp resolution is unsupported''))"

definition parse_enhanced_packet ::
  "bytes \<Rightarrow> endian \<Rightarrow> interface_description list \<Rightarrow> (record_metadata \<times> nat \<times> nat) result" where
  "parse_enhanced_packet body e interfaces =
     (if length body < 20 then Err (format_error ''PCAPNG enhanced packet is truncated'')
      else
        and_then (field_u32 body 0 e) (\<lambda>id.
        let interface_id = unat id in
        and_then (ok_or (format_error ''PCAPNG packet references unknown interface'')
            (if interface_id < length interfaces then Some (interfaces ! interface_id) else None))
          (\<lambda>interface.
        if idb_link_type interface \<noteq> 1 then
          Err (format_error ''PCAPNG packet interface is not Ethernet'')
        else
          and_then (field_u32 body 4 e) (\<lambda>ts_high.
          and_then (field_u32 body 8 e) (\<lambda>ts_low.
          let ts = push_bit 32 (ucast ts_high :: u64) OR ucast ts_low in
          and_then (field_u32 body 12 e) (\<lambda>cap.
          let captured = unat cap in
          and_then (field_u32 body 16 e) (\<lambda>wlen.
          if captured > MAX_CAPTURE_BLOCK_LENGTH
             \<or> (idb_snaplen interface \<noteq> 0 \<and> captured > unat (idb_snaplen interface))
             \<or> captured > unat wlen then
            Err (format_error ''PCAPNG packet length is invalid'')
          else
            and_then (ok_or (format_error ''PCAPNG packet length overflow'')
                       (usize_checked_add captured 3)) (\<lambda>captured3.
            let pad_len = clear_low2 captured3 in
            and_then (ok_or (format_error ''PCAPNG packet length overflow'')
                       (usize_checked_add 20 captured)) (\<lambda>packet_end.
            and_then (ok_or (format_error ''PCAPNG packet length overflow'')
                       (usize_checked_add 20 pad_len)) (\<lambda>options_offset.
            if options_offset > length body \<or> packet_end > length body then
              Err (format_error ''PCAPNG packet data is truncated'')
            else
              and_then (slice_from body options_offset) (\<lambda>options.
              and_then (parse_options e packet_visitor (clamp_from_nat interface_id) options) (\<lambda>q.
              and_then (timestamp_to_nanoseconds ts (idb_resolution interface)) (\<lambda>ns.
                Ok (\<lparr>meta_timestamp = ns, meta_wire_length = wlen, meta_queue_id = q\<rparr>,
                    20, packet_end))))))))))))))"

section \<open>Records\<close>

definition fraction_nanoseconds :: "timestamp_unit \<Rightarrow> u64 \<Rightarrow> u64 result" where
  "fraction_nanoseconds unit fraction =
     (case unit of
        Microseconds \<Rightarrow>
          if fraction < 1000000 then Ok (sat_mul fraction 1000)
          else Err (format_error ''PCAP timestamp fraction is invalid'')
      | Nanoseconds \<Rightarrow>
          if fraction < 1000000000 then Ok fraction
          else Err (format_error ''PCAP timestamp fraction is invalid''))"

text \<open>The fields of a PCAP record header: timestamp, captured length and wire length.\<close>

definition pcap_record_header ::
  "bytes \<Rightarrow> endian \<Rightarrow> timestamp_unit \<Rightarrow> u32 \<Rightarrow> (u64 \<times> nat \<times> u32) result" where
  "pcap_record_header header e unit snap =
     and_then (field_u32 header 0 e) (\<lambda>seconds.
     and_then (field_u32 header 4 e) (\<lambda>fraction.
     and_then (field_u32 header 8 e) (\<lambda>cap.
     let captured = unat cap in
     and_then (field_u32 header 12 e) (\<lambda>wlen.
     if captured > MAX_CAPTURE_BLOCK_LENGTH \<or> captured > unat snap \<or> captured > unat wlen then
       Err (format_error ''PCAP record length is invalid'')
     else
       and_then (fraction_nanoseconds unit (ucast fraction)) (\<lambda>ns.
         Ok (sat_add (sat_mul (ucast seconds) 1000000000) ns, captured, wlen))))))"

text \<open>A record, the packet bytes it filled the buffer with, and the rest of the file.\<close>

definition read_pcap_record ::
  "bytes \<Rightarrow> endian \<Rightarrow> timestamp_unit \<Rightarrow> u32 \<Rightarrow> u32
     \<Rightarrow> (record_metadata \<times> bytes) option result \<times> bytes" where
  "read_pcap_record r e unit link_type snap =
     (if link_type \<noteq> 1 then (Err (format_error ''PCAP link type changed unexpectedly''), r)
      else case read_exact_or_eof 16 r of
        Err x \<Rightarrow> (Err x, [])
      | Panic \<Rightarrow> (Panic, r)
      | Ok None \<Rightarrow> (Ok None, r)
      | Ok (Some (header, r)) \<Rightarrow>
          (case pcap_record_header header e unit snap of
             Err x \<Rightarrow> (Err x, r)
           | Panic \<Rightarrow> (Panic, r)
           | Ok (ns, captured, wlen) \<Rightarrow>
               (case read_exact captured r of
                  Err x \<Rightarrow> (Err x, [])
                | Panic \<Rightarrow> (Panic, r)
                | Ok (packet, r) \<Rightarrow>
                    (Ok (Some (\<lparr>meta_timestamp = ns, meta_wire_length = wlen, meta_queue_id = 0\<rparr>,
                               packet)), r))))"

text \<open>One PCAPNG block: its type and body, or none at the end of the file.\<close>

definition block_length :: "bytes \<Rightarrow> endian \<Rightarrow> (u32 \<times> nat) result" where
  "block_length header e =
     and_then (field_u32 header 0 e) (\<lambda>block_type.
     and_then (field_u32 header 4 e) (\<lambda>total.
     let total_length = unat total in
     if \<not> (12 \<le> total_length \<and> total_length \<le> MAX_CAPTURE_BLOCK_LENGTH)
        \<or> total_length mod 4 \<noteq> 0 then
       Err (format_error ''PCAPNG block length is invalid'')
     else Ok (block_type, total_length)))"

definition block_body :: "bytes \<Rightarrow> endian \<Rightarrow> nat \<Rightarrow> bytes result" where
  "block_body block_buffer e total_length =
     (let remaining = total_length - 8 in
      and_then (field_u32 block_buffer (remaining - 4) e) (\<lambda>trailing.
      if unat trailing \<noteq> total_length then
        Err (format_error ''PCAPNG trailing block length mismatch'')
      else slice_to block_buffer (remaining - 4)))"

definition read_block :: "bytes \<Rightarrow> endian \<Rightarrow> (u32 \<times> bytes) option result \<times> bytes" where
  "read_block r e =
     (case read_exact_or_eof 8 r of
        Err x \<Rightarrow> (Err x, [])
      | Panic \<Rightarrow> (Panic, r)
      | Ok None \<Rightarrow> (Ok None, r)
      | Ok (Some (header, r)) \<Rightarrow>
          (case block_length header e of
             Err x \<Rightarrow> (Err x, r)
           | Panic \<Rightarrow> (Panic, r)
           | Ok (block_type, total_length) \<Rightarrow>
               (case read_exact (total_length - 8) r of
                  Err x \<Rightarrow> (Err x, [])
                | Panic \<Rightarrow> (Panic, r)
                | Ok (block_buffer, r) \<Rightarrow>
                    (case block_body block_buffer e total_length of
                       Err x \<Rightarrow> (Err x, r)
                     | Panic \<Rightarrow> (Panic, r)
                     | Ok body \<Rightarrow> (Ok (Some (block_type, body)), r)))))"

definition packet_of_block ::
  "bytes \<Rightarrow> endian \<Rightarrow> interface_description list \<Rightarrow> (record_metadata \<times> bytes) result" where
  "packet_of_block body e interfaces =
     and_then (parse_enhanced_packet body e interfaces) (\<lambda>(metadata, start, packet_end).
     and_then (slice_range body start packet_end) (\<lambda>packet. Ok (metadata, packet)))"

lemma read_exact_or_eof_length:
  "read_exact_or_eof n r = Ok (Some (bs, r')) \<Longrightarrow> length r = length bs + length r' \<and> length bs = n"
  by (auto simp: read_exact_or_eof_def split: if_splits)

lemma read_block_progress:
  "read_block r e = (Ok (Some b), r') \<Longrightarrow> length r' < length r"
  by (auto simp: read_block_def read_exact_def dest!: read_exact_or_eof_length
      split: outcome.splits option.splits if_splits) arith

text \<open>The loop over blocks until a packet, the end of the file or an error.\<close>

function next_pcapng_record ::
  "endian \<Rightarrow> interface_description list \<Rightarrow> bytes
     \<Rightarrow> (record_metadata \<times> bytes) option result \<times> interface_description list \<times> bytes" where
  "next_pcapng_record e interfaces r =
     (case read_block r e of
        (Err x, r') \<Rightarrow> (Err x, interfaces, r')
      | (Panic, r') \<Rightarrow> (Panic, interfaces, r')
      | (Ok None, r') \<Rightarrow> (Ok None, interfaces, r')
      | (Ok (Some (block_type, body)), r') \<Rightarrow>
          if block_type = 1 then
            (case parse_interface_description body e interfaces of
               Err x \<Rightarrow> (Err x, interfaces, r')
             | Panic \<Rightarrow> (Panic, interfaces, r')
             | Ok interfaces' \<Rightarrow> next_pcapng_record e interfaces' r')
          else if block_type = 6 then
            (case packet_of_block body e interfaces of
               Err x \<Rightarrow> (Err x, interfaces, r')
             | Panic \<Rightarrow> (Panic, interfaces, r')
             | Ok packet \<Rightarrow> (Ok (Some packet), interfaces, r'))
          else if block_type = 0x0a0d0d0a then
            (Err (format_error ''multiple PCAPNG sections are not supported by this backend''),
             interfaces, r')
          else next_pcapng_record e interfaces r')"
  by pat_completeness auto
termination
  by (relation "measure (\<lambda>(e, interfaces, r). length r)") (auto dest: read_block_progress [OF sym])

declare next_pcapng_record.simps [simp del]

definition next_record ::
  "capture_file_source \<Rightarrow> (record_metadata \<times> bytes) option result \<times> capture_file_source" where
  "next_record self =
     (case source_format self of
        PcapFile e unit link_type snap \<Rightarrow>
          (let (res, r) = read_pcap_record (reader self) e unit link_type snap in
           (res, self\<lparr>reader := r\<rparr>))
      | PcapNgFile e interfaces \<Rightarrow>
          (let (res, interfaces, r) = next_pcapng_record e interfaces (reader self) in
           (res, self\<lparr>reader := r, source_format := PcapNgFile e interfaces\<rparr>)))"

section \<open>Bursts\<close>

definition view_of :: "record_metadata \<times> bytes \<Rightarrow> packet_view" where
  "view_of rp =
     \<lparr>view_bytes = snd rp, timestamp_nanoseconds = meta_timestamp (fst rp),
      wire_length = meta_wire_length (fst rp), queue_id = meta_queue_id (fst rp)\<rparr>"

text \<open>
  The loop of \<open>receive_burst\<close> for at most \<open>n\<close> more records: its result, the packets the consumer
  is called with, and the source afterwards.
\<close>

fun receive_loop ::
  "nat \<Rightarrow> nat \<Rightarrow> capture_file_source \<Rightarrow> nat result \<times> packet_view list \<times> capture_file_source" where
  "receive_loop 0 received self = (Ok received, [], self)"
| "receive_loop (Suc n) received self =
     (case next_record self of
        (Err x, self') \<Rightarrow> (Err x, [], self')
      | (Panic, self') \<Rightarrow> (Panic, [], self')
      | (Ok None, self') \<Rightarrow> (Ok received, [], self'\<lparr>exhausted := True\<rparr>)
      | (Ok (Some rp), self') \<Rightarrow>
          (let (res, ps, self'') = receive_loop n (received + 1) self' in
           (res, view_of rp # ps, self'')))"

definition receive_burst ::
  "capture_file_source \<Rightarrow> nat result \<times> packet_view list \<times> capture_file_source" where
  "receive_burst self =
     (if exhausted self then (Ok 0, [], self) else receive_loop (burst_size self) 0 self)"


section \<open>Reading untrusted files\<close>

lemma field_u16_eq [simp]:
  "field_u16 bs i e =
     (if i + 2 \<le> length bs then Ok (from_endian_bytes e (take 2 (drop i bs)))
      else Err (format_error ''capture field is truncated''))"
proof -
  have "[take 2 (drop i bs) ! 0, take 2 (drop i bs) ! 1] = take 2 (drop i bs)"
    if "i + 2 \<le> length bs"
    using that by (intro list_of_length_2) simp
  then show ?thesis by (auto simp: field_u16_def get_range_def)
qed

lemma field_u32_eq [simp]:
  "field_u32 bs i e =
     (if i + 4 \<le> length bs then Ok (from_endian_bytes e (take 4 (drop i bs)))
      else Err (format_error ''capture field is truncated''))"
proof -
  let ?v = "take 4 (drop i bs)"
  have "[?v ! 0, ?v ! 1, ?v ! 2, ?v ! 3] = ?v" if "i + 4 \<le> length bs"
    using that by (intro list_of_length_4) simp
  then show ?thesis by (auto simp: field_u32_def get_range_def)
qed

lemma read_exact_not_Panic [simp]: "read_exact n r \<noteq> Panic"
  by (simp add: read_exact_def)

lemma read_exact_or_eof_not_Panic [simp]: "read_exact_or_eof n r \<noteq> Panic"
  by (simp add: read_exact_or_eof_def)

lemma read_exact_OkD: "read_exact n r = Ok (bs, r') \<Longrightarrow> length bs = n \<and> r = bs @ r'"
  by (auto simp: read_exact_def split: if_splits)

lemma parse_options_no_panic:
  assumes "\<And>st c v. visitor st c v \<noteq> Panic"
  shows "parse_options e visitor st bs \<noteq> Panic"
proof (induction "length bs" arbitrary: st bs rule: less_induct)
  case less
  show ?case
    using less assms
    by (subst parse_options.simps) (auto simp: outcome_simps Let_def slice_from_def)
qed

lemma interface_visitor_no_panic: "interface_visitor st c v \<noteq> Panic"
  by (auto simp: interface_visitor_def)

lemma packet_visitor_no_panic: "packet_visitor st c v \<noteq> Panic"
  by (auto simp: packet_visitor_def split: option.splits)

lemma timestamp_no_panic: "timestamp_to_nanoseconds ts res \<noteq> Panic"
  by (auto simp: timestamp_to_nanoseconds_def split: timestamp_resolution.splits)

lemma parse_interface_no_panic: "parse_interface_description body e ifs \<noteq> Panic"
  by (auto simp: parse_interface_description_def outcome_simps parse_options_no_panic
      interface_visitor_no_panic)

lemma parse_enhanced_packet_no_panic: "parse_enhanced_packet body e ifs \<noteq> Panic"
  by (auto simp: parse_enhanced_packet_def outcome_simps Let_def parse_options_no_panic
      packet_visitor_no_panic timestamp_no_panic)

lemma parse_enhanced_packet_bounds:
  assumes "parse_enhanced_packet body e ifs = Ok (md, s, t)"
  shows "s = 20 \<and> 20 \<le> t \<and> t \<le> length body \<and> t - 20 \<le> MAX_CAPTURE_BLOCK_LENGTH
    \<and> t - 20 \<le> unat (meta_wire_length md)"
  using assms
  by (auto simp: parse_enhanced_packet_def outcome_simps Let_def usize_checked_add_def
      split: if_splits)

lemma packet_of_block_no_panic: "packet_of_block body e ifs \<noteq> Panic"
  using parse_enhanced_packet_bounds [of body e ifs]
  by (auto simp: packet_of_block_def outcome_simps parse_enhanced_packet_no_panic)

definition well_sized :: "record_metadata \<times> bytes \<Rightarrow> bool" where
  "well_sized rp \<longleftrightarrow>
     length (snd rp) \<le> MAX_CAPTURE_BLOCK_LENGTH
     \<and> length (snd rp) \<le> unat (meta_wire_length (fst rp))"

lemma packet_of_block_well_sized: "packet_of_block body e ifs = Ok rp \<Longrightarrow> well_sized rp"
  by (auto simp: packet_of_block_def outcome_simps well_sized_def
      dest!: parse_enhanced_packet_bounds)

lemma block_length_OkD:
  "block_length header e = Ok (ty, n) \<Longrightarrow> 12 \<le> n \<and> n \<le> MAX_CAPTURE_BLOCK_LENGTH"
  by (auto simp: block_length_def outcome_simps Let_def split: if_splits)

lemma block_length_no_panic: "block_length header e \<noteq> Panic"
  by (auto simp: block_length_def outcome_simps Let_def)

lemma block_body_no_panic: "length buf = n - 8 \<Longrightarrow> block_body buf e n \<noteq> Panic"
  by (auto simp: block_body_def outcome_simps Let_def)

lemma read_block_no_panic: "fst (read_block r e) \<noteq> Panic"
  by (auto simp: read_block_def block_length_no_panic block_body_no_panic
      dest!: read_exact_OkD split: outcome.splits option.splits)

lemma next_pcapng_record_safe:
  "fst (next_pcapng_record e ifs r) \<noteq> Panic
   \<and> (\<forall>rp. fst (next_pcapng_record e ifs r) = Ok (Some rp) \<longrightarrow> well_sized rp)"
proof (induction e ifs r rule: next_pcapng_record.induct)
  case (1 e ifs r)
  obtain res r' where b: "read_block r e = (res, r')" by fastforce
  have np: "res \<noteq> Panic" using read_block_no_panic [of r e] b by simp
  show ?case
    using b np "1.IH" parse_interface_no_panic packet_of_block_no_panic
      packet_of_block_well_sized
    by (subst (1 2) next_pcapng_record.simps)
      (auto split: outcome.splits option.splits prod.splits if_splits)
qed

lemma pcap_record_header_no_panic: "length h = 16 \<Longrightarrow> pcap_record_header h e unit snap \<noteq> Panic"
  by (auto simp: pcap_record_header_def outcome_simps Let_def fraction_nanoseconds_def
      split: timestamp_unit.splits)

lemma pcap_record_header_bounds:
  "pcap_record_header h e unit snap = Ok (ns, n, wlen) \<Longrightarrow>
     n \<le> MAX_CAPTURE_BLOCK_LENGTH \<and> n \<le> unat wlen"
  by (auto simp: pcap_record_header_def outcome_simps Let_def split: if_splits)

lemma read_pcap_record_safe:
  "fst (read_pcap_record r e unit lt snap) \<noteq> Panic
   \<and> (\<forall>rp. fst (read_pcap_record r e unit lt snap) = Ok (Some rp) \<longrightarrow> well_sized rp)"
  using pcap_record_header_no_panic pcap_record_header_bounds
  by (auto simp: read_pcap_record_def well_sized_def dest!: read_exact_or_eof_length read_exact_OkD
      split: outcome.splits option.splits if_splits)

lemma next_record_safe:
  "fst (next_record s) \<noteq> Panic \<and> (\<forall>rp. fst (next_record s) = Ok (Some rp) \<longrightarrow> well_sized rp)"
  using next_pcapng_record_safe read_pcap_record_safe
  by (auto simp: next_record_def split: file_format.splits prod.splits) (metis fst_conv)+

lemma receive_loop_safe:
  assumes "receive_loop n k s = (res, ps, s')"
  shows "res \<noteq> Panic \<and> length ps \<le> n \<and> (\<forall>c. res = Ok c \<longrightarrow> c = k + length ps)
    \<and> (\<forall>p \<in> set ps. length (view_bytes p) \<le> MAX_CAPTURE_BLOCK_LENGTH
         \<and> length (view_bytes p) \<le> unat (wire_length p))"
  using assms
proof (induction n arbitrary: k s res ps s')
  case 0
  then show ?case by auto
next
  case (Suc n)
  obtain r s1 where n: "next_record s = (r, s1)" by fastforce
  note safe = next_record_safe [of s, unfolded n fst_conv]
  show ?case
  proof (cases r)
    case (Ok o1)
    show ?thesis
    proof (cases o1)
      case None
      then show ?thesis using Suc.prems n Ok by auto
    next
      case (Some rp)
      obtain res2 ps2 s2 where l: "receive_loop n (k + 1) s1 = (res2, ps2, s2)" by (metis prod_cases3)
      then have "res = res2" "ps = view_of rp # ps2"
        using Suc.prems n Ok Some by simp_all
      then show ?thesis
        using Suc.IH [OF l] safe Ok Some by (auto simp: view_of_def well_sized_def)
    qed
  qed (use Suc.prems n safe in auto)
qed

lemma parse_pcap_header_no_panic: "parse_pcap_header r e unit \<noteq> Panic"
  by (auto simp: parse_pcap_header_def outcome_simps)

lemma parse_pcapng_section_no_panic: "parse_pcapng_section_header r \<noteq> Panic"
  by (auto simp: parse_pcapng_section_header_def outcome_simps Let_def dest!: read_exact_OkD)

text \<open>
  C17.  The offline reader is safe on any file: opening it and receiving bursts from whatever it is
  opened on never goes out of range; the burst reports exactly the number of packets it delivered,
  at most the burst size; and every delivered packet is at most 16 MiB long and at most as long as
  its wire length.
\<close>

theorem capture_reader_safe:
  assumes "receive_burst src = (res, packets, src')"
  shows "open_source file \<noteq> Panic \<and> res \<noteq> Panic \<and> length packets \<le> burst_size src
    \<and> (\<forall>n. res = Ok n \<longrightarrow> n = length packets)
    \<and> (\<forall>p \<in> set packets. length (view_bytes p) \<le> 16 * 1024 * 1024
         \<and> length (view_bytes p) \<le> unat (wire_length p))"
proof -
  have "open_source file \<noteq> Panic"
    by (auto simp: open_source_def outcome_simps parse_pcap_header_no_panic
        parse_pcapng_section_no_panic)
  then show ?thesis
    using assms receive_loop_safe [of "burst_size src" 0 src res packets src']
    by (auto simp: receive_burst_def MAX_CAPTURE_BLOCK_LENGTH_def split: if_splits)
qed

theorem capture_reader_safe_witness:
  "open_source [1, 2, 3] \<noteq> Panic
   \<and> fst (receive_burst \<lparr>reader = [9, 9], source_format = PcapNgFile Big [], burst_size = 4,
       exhausted = False\<rparr>) \<noteq> Panic"
proof -
  obtain res ps s where "receive_burst \<lparr>reader = [9, 9], source_format = PcapNgFile Big [],
      burst_size = 4, exhausted = False\<rparr> = (res, ps, s)"
    by (metis prod_cases3)
  from capture_reader_safe [OF this, of "[1, 2, 3]"] this show ?thesis by simp
qed

section \<open>What the writer writes is what the reader reads: PCAP\<close>

lemma from_endian_le [simp]:
  "LENGTH('a) \<le> 8 * n \<Longrightarrow> from_endian_bytes Little (to_le_bytes n (w :: 'a::len word)) = w"
  by (simp add: from_endian_bytes_def from_le_bytes_to_le_bytes)



definition pcap_file :: "capture_mode \<Rightarrow> capture_record list \<Rightarrow> bytes" where
  "pcap_file m rs =
     snd (write_pcap_header (snaplen m)) @ concat (map (\<lambda>r. snd (write_pcap_record r)) rs)"


lemma read_exact_append [simp]: "length bs = n \<Longrightarrow> read_exact n (bs @ r) = Ok (bs, r)"
  by (auto simp: read_exact_def)






lemma pcap_magic_bytes: "to_le_bytes 4 (0xa1b23c4d :: u32) = [0x4d, 0x3c, 0xb2, 0xa1]"
  by (simp add: byte_literal_simps)




text \<open>
  A PCAP file written in full-packet mode declares a snapshot length of \<open>u32::MAX\<close>, which the
  reader rejects: the tool kit cannot read back its own full-packet PCAP captures.
\<close>

lemma full_packet_pcap_rejected:
  "open_source (pcap_file FullPacket rs) = Err (format_error ''PCAP snaplen is invalid'')"
proof -
  let ?recs = "concat (map (\<lambda>r. snd (write_pcap_record r)) rs)"
  let ?rest = "to_le_bytes 2 (2 :: u16) @ to_le_bytes 2 (4 :: u16)
      @ to_le_bytes 4 (0 :: u32) @ to_le_bytes 4 (0 :: u32) @ to_le_bytes 4 (- 1 :: u32)
      @ to_le_bytes 4 (1 :: u32)"
  have content: "pcap_file FullPacket rs = [0x4d, 0x3c, 0xb2, 0xa1] @ (?rest @ ?recs)"
    by (simp add: pcap_file_def write_pcap_header_def pcap_magic_bytes)
  have "read_exact 4 ([0x4d, 0x3c, 0xb2, 0xa1] @ (?rest @ ?recs)) =
      Ok ([0x4d, 0x3c, 0xb2, 0xa1], ?rest @ ?recs)"
    by (rule read_exact_append) simp
  moreover have "read_exact 20 (?rest @ ?recs) = Ok (?rest, ?recs)"
    by (rule read_exact_append) simp
  then have "parse_pcap_header (?rest @ ?recs) Little Nanoseconds =
      Err (format_error ''PCAP snaplen is invalid'')"
    by (simp add: parse_pcap_header_def MAX_CAPTURE_BLOCK_LENGTH_def unat_max_word)
  ultimately show ?thesis
    unfolding open_source_def content by simp
qed

section \<open>Replaying a capture into a worker\<close>







end
