(* ===== verification/Resource_Manager.thy ===== *)
theory Resource_Manager
  imports Error_Model "HOL-Library.AList"
begin

text \<open>
  The resource manager (src/crates/resource/src/lib.rs): atomic, idempotent reservation of
  hardware and runtime resources by sessions, with exclusive and capacity-shared claims and a
  release life cycle.  The two hash maps are association lists; the order in which the reservations
  are iterated, on which only the owner named in a conflict depends, is the argument \<open>iter\<close>.
  Operations that mutate the manager return their result and the next manager.
\<close>

section \<open>Keys, claims and reservations\<close>

datatype resource_key =
    DpdkPort string
  | DpdkRxQueue string u16
  | DpdkTxQueue string u16
  | PinnedCpu u32
  | NumaMemory u32
  | HugePages u32 u64
  | LosslessCaptureWriter string
  | CaptureStorage string
  | DataPort string string u16
  | ManagementInterface string
  | Database
  | ReadOnlyInterfaceStatistics string

definition requires_exclusive :: "resource_key \<Rightarrow> bool" where
  "requires_exclusive self =
     (case self of
        DpdkPort _ \<Rightarrow> True
      | DpdkRxQueue _ _ \<Rightarrow> True
      | DpdkTxQueue _ _ \<Rightarrow> True
      | PinnedCpu _ \<Rightarrow> True
      | LosslessCaptureWriter _ \<Rightarrow> True
      | DataPort _ _ _ \<Rightarrow> True
      | _ \<Rightarrow> False)"

definition requires_capacity :: "resource_key \<Rightarrow> bool" where
  "requires_capacity self =
     (case self of
        NumaMemory _ \<Rightarrow> True
      | HugePages _ _ \<Rightarrow> True
      | CaptureStorage _ \<Rightarrow> True
      | _ \<Rightarrow> False)"

fun key_display :: "resource_key \<Rightarrow> string" where
  "key_display (DpdkPort pci) = ''dpdk-port:'' @ pci"
| "key_display (DpdkRxQueue pci queue) = ''dpdk-rx-queue:'' @ pci @ '':'' @ decimal (unat queue)"
| "key_display (DpdkTxQueue pci queue) = ''dpdk-tx-queue:'' @ pci @ '':'' @ decimal (unat queue)"
| "key_display (PinnedCpu cpu) = ''pinned-cpu:'' @ decimal (unat cpu)"
| "key_display (NumaMemory node) = ''numa-memory:'' @ decimal (unat node)"
| "key_display (HugePages node size_kib) =
     ''huge-pages:'' @ decimal (unat node) @ '':'' @ decimal (unat size_kib) @ ''KiB''"
| "key_display (LosslessCaptureWriter path) = ''lossless-capture-writer:'' @ path"
| "key_display (CaptureStorage path) = ''capture-storage:'' @ path"
| "key_display (DataPort protocol address port) =
     ''data-port:'' @ protocol @ '':'' @ address @ '':'' @ decimal (unat port)"
| "key_display (ManagementInterface interface) = ''management-interface:'' @ interface"
| "key_display Database = ''database''"
| "key_display (ReadOnlyInterfaceStatistics interface) =
     ''read-only-interface-statistics:'' @ interface"

datatype resource_mode = Exclusive | Shared

fun mode_str :: "resource_mode \<Rightarrow> string" where
  "mode_str Exclusive = ''exclusive''"
| "mode_str Shared = ''shared''"

record resource_claim =
  claim_resource :: resource_key
  claim_mode :: resource_mode
  claim_units :: u64

record reservation_request =
  reservation_id :: string
  request_session :: string
  claims :: "resource_claim list"

datatype reservation_state = Pending | Active | Releasing | Released | ReservationFailed

record reservation =
  request :: reservation_request
  reservation_state :: reservation_state
  failure :: "string option"

record resource_manager =
  reservations :: "(string \<times> reservation) list"
  capacities :: "(resource_key \<times> u64) list"

definition new_manager :: resource_manager where
  "new_manager = \<lparr>reservations = [], capacities = []\<rparr>"

definition holds_resources :: "reservation_state \<Rightarrow> bool" where
  "holds_resources state = (state \<noteq> Released)"

section \<open>Errors\<close>

definition resource_conflict :: "resource_key \<Rightarrow> string \<Rightarrow> resource_mode \<Rightarrow> nettool_error" where
  "resource_conflict resource owner_session mode =
     (new_error ResourceConflict ''requested resource conflicts with an existing reservation'' False)
       \<lparr>details := [(''owner_session'', owner_session), (''requested_mode'', mode_str mode),
                    (''resource'', key_display resource)]\<rparr>"

definition resource_invalid :: "string \<Rightarrow> nettool_error" where
  "resource_invalid msg = new_error InvalidArgument msg False"

definition resource_invalid_state :: "string \<Rightarrow> nettool_error" where
  "resource_invalid_state msg = new_error InvalidState msg False"

definition reservation_missing :: nettool_error where
  "reservation_missing = new_error InvalidArgument ''reservation does not exist'' False"

definition reservation_operation_conflict :: nettool_error where
  "reservation_operation_conflict =
     new_error OperationConflict ''reservation ID was reused with a different request'' False"

section \<open>Operations\<close>

definition set_capacity ::
  "resource_manager \<Rightarrow> resource_key \<Rightarrow> u64 \<Rightarrow> unit result \<times> resource_manager" where
  "set_capacity self resource units =
     (if units = 0 then (Err (resource_invalid ''resource capacity must be non-zero''), self)
      else if requires_exclusive resource then
        (Err (resource_invalid ''exclusive resource cannot define shared capacity''), self)
      else (Ok (), self\<lparr>capacities := AList.update resource units (capacities self)\<rparr>))"

text \<open>The loop of \<open>validate_request\<close>; \<open>earlier\<close> is \<open>claims[..index]\<close>.\<close>

fun validate_claims :: "resource_claim list \<Rightarrow> resource_claim list \<Rightarrow> unit result" where
  "validate_claims earlier [] = Ok ()"
| "validate_claims earlier (claim # rest) =
     (if claim_units claim = 0 then
        Err (resource_invalid ''resource claim units must be non-zero'')
      else if claim_mode claim = Exclusive \<and> claim_units claim \<noteq> 1 then
        Err (resource_invalid ''exclusive resource claim must request one unit'')
      else if requires_exclusive (claim_resource claim) \<and> claim_mode claim \<noteq> Exclusive then
        Err (resource_invalid ''resource requires exclusive mode'')
      else if list_ex (\<lambda>e. claim_resource e = claim_resource claim) earlier then
        Err (resource_invalid ''reservation contains duplicate resource claims'')
      else validate_claims (earlier @ [claim]) rest)"

definition validate_request :: "reservation_request \<Rightarrow> unit result" where
  "validate_request req =
     (if str_blank (reservation_id req) \<or> str_blank (request_session req) then
        Err (resource_invalid ''reservation and session IDs are required'')
      else if claims req = [] then
        Err (resource_invalid ''reservation must contain at least one claim'')
      else validate_claims [] (claims req))"

text \<open>The holders of a resource, with the session each belongs to.\<close>

definition owners_of ::
  "(string \<times> reservation) list \<Rightarrow> resource_key \<Rightarrow> (string \<times> resource_claim) list" where
  "owners_of values resource =
     filter (\<lambda>(_, claim). claim_resource claim = resource)
       (concat (map (\<lambda>(_, r). map (Pair (request_session (request r))) (claims (request r)))
         (filter (\<lambda>(_, r). holds_resources (reservation_state r)) values)))"

fun checked_sum :: "u64 \<Rightarrow> u64 list \<Rightarrow> u64 option" where
  "checked_sum acc [] = Some acc"
| "checked_sum acc (u # us) =
     (case checked_add acc u of None \<Rightarrow> None | Some t \<Rightarrow> checked_sum t us)"

definition check_claim ::
  "((string \<times> reservation) list \<Rightarrow> (string \<times> reservation) list) \<Rightarrow> resource_manager
     \<Rightarrow> resource_claim \<Rightarrow> unit result" where
  "check_claim iter self requested =
     (let owners = owners_of (iter (reservations self)) (claim_resource requested);
          conflict = resource_conflict (claim_resource requested) in
      case List.find (\<lambda>(_, claim). claim_mode requested = Exclusive \<or> claim_mode claim = Exclusive)
             owners of
        Some (owner, _) \<Rightarrow> Err (conflict owner (claim_mode requested))
      | None \<Rightarrow>
          if claim_mode requested = Shared then
            and_then (ok_or (conflict ''capacity-overflow'' (claim_mode requested))
                (checked_sum 0 (map (\<lambda>(_, claim). claim_units claim) owners))) (\<lambda>used.
            and_then
              (case map_of (capacities self) (claim_resource requested) of
                 Some capacity \<Rightarrow> Ok capacity
               | None \<Rightarrow>
                   if requires_capacity (claim_resource requested) then
                     Err (resource_invalid ''shared resource capacity is not configured'')
                   else Ok (- 1)) (\<lambda>capacity.
            if (case checked_add used (claim_units requested) of
                  None \<Rightarrow> True | Some t \<Rightarrow> t > capacity) then
              Err (conflict (case owners of [] \<Rightarrow> ''capacity'' | (owner, _) # _ \<Rightarrow> owner)
                (claim_mode requested))
            else Ok ()))
          else Ok ())"

fun check_claims ::
  "((string \<times> reservation) list \<Rightarrow> (string \<times> reservation) list) \<Rightarrow> resource_manager
     \<Rightarrow> resource_claim list \<Rightarrow> unit result" where
  "check_claims iter self [] = Ok ()"
| "check_claims iter self (c # cs) =
     and_then (check_claim iter self c) (\<lambda>_. check_claims iter self cs)"

definition reserve ::
  "((string \<times> reservation) list \<Rightarrow> (string \<times> reservation) list) \<Rightarrow> resource_manager
     \<Rightarrow> reservation_request \<Rightarrow> reservation result \<times> resource_manager" where
  "reserve iter self req =
     (case map_of (reservations self) (reservation_id req) of
        Some existing \<Rightarrow>
          (if request existing = req then Ok existing else Err reservation_operation_conflict, self)
      | None \<Rightarrow>
          (case and_then (validate_request req) (\<lambda>_. check_claims iter self (claims req)) of
             Err e \<Rightarrow> (Err e, self)
           | Panic \<Rightarrow> (Panic, self)
           | Ok _ \<Rightarrow>
               (let r = \<lparr>request = req, reservation_state = Pending, failure = None\<rparr> in
                (Ok r, self\<lparr>reservations :=
                   AList.update (reservation_id req) r (reservations self)\<rparr>))))"

text \<open>The shape the life cycle operations share: look up, transform or refuse, store back.\<close>

definition with_reservation ::
  "resource_manager \<Rightarrow> string \<Rightarrow> (reservation \<Rightarrow> reservation result)
     \<Rightarrow> reservation result \<times> resource_manager" where
  "with_reservation self rid f =
     (case map_of (reservations self) rid of
        None \<Rightarrow> (Err reservation_missing, self)
      | Some r \<Rightarrow>
          (case f r of
             Ok r' \<Rightarrow>
               (Ok r', self\<lparr>reservations := AList.update rid r' (reservations self)\<rparr>)
           | Err e \<Rightarrow> (Err e, self)
           | Panic \<Rightarrow> (Panic, self)))"

definition activate :: "resource_manager \<Rightarrow> string \<Rightarrow> reservation result \<times> resource_manager" where
  "activate self rid =
     with_reservation self rid (\<lambda>r.
       case reservation_state r of
         Pending \<Rightarrow> Ok (r\<lparr>reservation_state := Active\<rparr>)
       | Active \<Rightarrow> Ok r
       | _ \<Rightarrow> Err (resource_invalid_state ''reservation cannot be activated from current state''))"

definition begin_release :: "resource_manager \<Rightarrow> string \<Rightarrow> reservation result \<times> resource_manager" where
  "begin_release self rid =
     with_reservation self rid (\<lambda>r.
       if reservation_state r \<in> {Pending, Active, ReservationFailed} then
         Ok (r\<lparr>reservation_state := Releasing\<rparr>)
       else Ok r)"

definition finish_release :: "resource_manager \<Rightarrow> string \<Rightarrow> reservation result \<times> resource_manager" where
  "finish_release self rid =
     with_reservation self rid (\<lambda>r.
       case reservation_state r of
         Releasing \<Rightarrow> Ok (r\<lparr>reservation_state := Released\<rparr>)
       | Released \<Rightarrow> Ok r
       | _ \<Rightarrow> Err (resource_invalid_state ''reservation must be releasing before release completes''))"

definition fail_reservation ::
  "resource_manager \<Rightarrow> string \<Rightarrow> string \<Rightarrow> reservation result \<times> resource_manager" where
  "fail_reservation self rid reason =
     (if str_blank reason then
        (Err (resource_invalid ''reservation failure reason is required''), self)
      else
        with_reservation self rid (\<lambda>r.
          if reservation_state r \<noteq> Released then
            Ok (r\<lparr>reservation_state := ReservationFailed, failure := Some reason\<rparr>)
          else Ok r))"

definition get_reservation :: "resource_manager \<Rightarrow> string \<Rightarrow> reservation option" where
  "get_reservation self rid = map_of (reservations self) rid"

section \<open>The claims that are held\<close>

definition held_by :: "reservation \<Rightarrow> resource_claim list" where
  "held_by r = (if holds_resources (reservation_state r) then claims (request r) else [])"

definition held :: "resource_manager \<Rightarrow> resource_claim list" where
  "held self = concat (map (\<lambda>(_, r). held_by r) (reservations self))"

definition usage :: "resource_claim list \<Rightarrow> resource_key \<Rightarrow> nat" where
  "usage cs resource =
     sum_list (map (\<lambda>c. unat (claim_units c)) (filter (\<lambda>c. claim_resource c = resource) cs))"

text \<open>What a request must satisfy, and when a claim can be granted beside the claims held.\<close>

definition claim_valid :: "resource_claim \<Rightarrow> bool" where
  "claim_valid c \<longleftrightarrow>
     claim_units c \<noteq> 0 \<and> (claim_mode c = Exclusive \<longrightarrow> claim_units c = 1)
     \<and> (requires_exclusive (claim_resource c) \<longrightarrow> claim_mode c = Exclusive)"

definition request_valid :: "reservation_request \<Rightarrow> bool" where
  "request_valid req \<longleftrightarrow>
     \<not> str_blank (reservation_id req) \<and> \<not> str_blank (request_session req) \<and> claims req \<noteq> []
     \<and> list_all claim_valid (claims req) \<and> distinct (map claim_resource (claims req))"

definition within_capacity :: "resource_manager \<Rightarrow> resource_key \<Rightarrow> nat \<Rightarrow> bool" where
  "within_capacity self resource n =
     (case map_of (capacities self) resource of
        Some capacity \<Rightarrow> n \<le> unat capacity
      | None \<Rightarrow> \<not> requires_capacity resource \<and> n < 2 ^ 64)"

definition admissible :: "resource_manager \<Rightarrow> resource_claim \<Rightarrow> bool" where
  "admissible self c =
     (let holders = filter (\<lambda>h. claim_resource h = claim_resource c) (held self) in
      case claim_mode c of
        Exclusive \<Rightarrow> holders = []
      | Shared \<Rightarrow> list_all (\<lambda>h. claim_mode h = Shared) holders
          \<and> within_capacity self (claim_resource c)
              (usage (held self) (claim_resource c) + unat (claim_units c)))"

text \<open>
  Claims that can be held together: the units of a resource add up within 64 bits, and an exclusive
  claim is the only claim on its resource.
\<close>

definition held_ok :: "resource_claim list \<Rightarrow> bool" where
  "held_ok cs \<longleftrightarrow>
     (\<forall>resource. usage cs resource < 2 ^ 64)
     \<and> (\<forall>c \<in> set cs. claim_mode c = Exclusive \<longrightarrow>
          filter (\<lambda>h. claim_resource h = claim_resource c) cs = [c])"

definition manager_inv :: "resource_manager \<Rightarrow> bool" where
  "manager_inv self \<longleftrightarrow>
     distinct (map fst (reservations self))
     \<and> (\<forall>(rid, r) \<in> set (reservations self). reservation_id (request r) = rid \<and> request_valid (request r))
     \<and> held_ok (held self)"

section \<open>Requests and claims\<close>

lemma validate_claims_Cons:
  "validate_claims earlier (c # rest) = Ok () \<longleftrightarrow>
     claim_valid c \<and> claim_resource c \<notin> claim_resource ` set earlier
     \<and> validate_claims (earlier @ [c]) rest = Ok ()"
proof -
  have "list_ex (\<lambda>e. claim_resource e = claim_resource c) earlier \<longleftrightarrow>
      claim_resource c \<in> claim_resource ` set earlier"
    by (auto simp: list_ex_iff image_iff dest: sym)
  then show ?thesis by (auto simp: claim_valid_def)
qed

lemma validate_claims_ok:
  "validate_claims earlier cs = Ok () \<longleftrightarrow>
     list_all claim_valid cs \<and> distinct (map claim_resource cs)
     \<and> claim_resource ` set cs \<inter> claim_resource ` set earlier = {}"
  by (induction cs arbitrary: earlier)
    (auto simp: validate_claims_Cons simp del: validate_claims.simps(2))

lemma validate_request_ok: "validate_request req = Ok () \<longleftrightarrow> request_valid req"
  by (simp add: validate_request_def request_valid_def validate_claims_ok)

lemma validate_claims_no_panic: "validate_claims earlier cs \<noteq> Panic"
  by (induction earlier cs rule: validate_claims.induct) simp_all

lemma checked_sum_eq:
  "checked_sum acc us =
     (if unat acc + sum_list (map unat us) < 2 ^ 64 then Some (acc + sum_list us) else None)"
proof (induction us arbitrary: acc)
  case Nil
  then show ?case using unsigned_less [of acc, where ?'a = nat] by simp
next
  case (Cons u us)
  show ?case
  proof (cases "unat acc + unat u < 2 ^ 64")
    case True
    then have "unat (acc + u) = unat acc + unat u" by (simp add: unat_add_noovf)
    then show ?thesis using True Cons.IH [of "acc + u"] by (simp add: checked_add_def add.assoc)
  next
    case False
    then show ?thesis by (simp add: checked_add_def)
  qed
qed

lemma unat_sum_list:
  "sum_list (map unat us) < 2 ^ 64 \<Longrightarrow> unat (sum_list us :: u64) = sum_list (map unat us)"
  by (induction us) (simp_all add: unat_add_noovf)

lemma owners_of_held:
  "map snd (owners_of vs resource) =
     filter (\<lambda>c. claim_resource c = resource) (concat (map (\<lambda>(_, r). held_by r) vs))"
proof (induction vs)
  case Nil
  then show ?case by (simp add: owners_of_def)
next
  case (Cons v vs)
  have "map snd (filter (\<lambda>(_, c). claim_resource c = resource) (map (Pair s) cs)) =
      filter (\<lambda>c. claim_resource c = resource) cs"
    for s :: string and cs :: "resource_claim list"
    by (induction cs) simp_all
  with Cons show ?case
    by (cases v) (simp add: owners_of_def held_by_def)
qed

lemma mset_owners_of:
  assumes "iteration_order iter"
  shows "mset (map snd (owners_of (iter (reservations self)) resource)) =
    mset (filter (\<lambda>c. claim_resource c = resource) (held self))"
proof -
  have "mset (concat (map f ys)) = sum_mset (image_mset (\<lambda>y. mset (f y)) (mset ys))"
    for f :: "string \<times> reservation \<Rightarrow> resource_claim list" and ys
    by (induction ys) simp_all
  then have "mset (concat (map f (iter xs))) = mset (concat (map f xs))"
    for f :: "string \<times> reservation \<Rightarrow> resource_claim list" and xs
    using assms by (simp add: iteration_order_def)
  then show ?thesis by (simp add: owners_of_held held_def mset_filter)
qed

lemma sum_units_owners:
  assumes "iteration_order iter"
  shows "sum_list (map unat (map (\<lambda>(_, c). claim_units c) (owners_of (iter (reservations self)) resource)))
    = usage (held self) resource"
proof -
  let ?f = "\<lambda>c. unat (claim_units c)"
  have "map unat (map (\<lambda>(_, c). claim_units c) xs) = map ?f (map snd xs)" for xs :: "(string \<times> resource_claim) list"
    by (induction xs) auto
  then have "sum_list (map unat (map (\<lambda>(_, c). claim_units c) (owners_of (iter (reservations self)) resource)))
    = sum_mset (image_mset ?f (mset (map snd (owners_of (iter (reservations self)) resource))))"
    by (simp only: sum_mset_sum_list flip: mset_map)
  also have "\<dots> = usage (held self) resource"
    by (simp only: mset_owners_of [OF assms] usage_def sum_mset_sum_list flip: mset_map)
  finally show ?thesis .
qed

lemma check_claim_ok:
  assumes "iteration_order iter"
  shows "check_claim iter self c = Ok () \<longleftrightarrow> admissible self c"
proof -
  let ?o = "owners_of (iter (reservations self)) (claim_resource c)"
  let ?h = "filter (\<lambda>h. claim_resource h = claim_resource c) (held self)"
  let ?us = "map (\<lambda>(_, claim). claim_units claim) ?o"
  have set: "snd ` set ?o = set ?h"
    using arg_cong [OF mset_owners_of [OF assms, of self "claim_resource c"], of set_mset] by simp
  have sum: "sum_list (map unat ?us) = usage (held self) (claim_resource c)"
    by (rule sum_units_owners [OF assms])
  show ?thesis
  proof (cases "claim_mode c")
    case Exclusive
    have "?o = [] \<longleftrightarrow> ?h = []" using set by (metis image_is_empty set_empty)
    then show ?thesis using Exclusive
      by (cases ?o) (auto simp: check_claim_def admissible_def Let_def)
  next
    case Shared
    have find: "List.find (\<lambda>(_, claim). claim_mode claim = Exclusive) ?o = None \<longleftrightarrow>
        list_all (\<lambda>h. claim_mode h = Shared) ?h" (is "?l \<longleftrightarrow> ?r")
    proof -
      have "?l \<longleftrightarrow> (\<forall>h \<in> snd ` set ?o. claim_mode h \<noteq> Exclusive)"
        by (auto simp: find_None_iff)
      also have "\<dots> \<longleftrightarrow> ?r"
        unfolding set list_all_iff by (metis resource_mode.exhaust resource_mode.distinct(1))
      finally show ?thesis .
    qed
    have bound: "n \<le> unat (capacity :: u64) \<Longrightarrow> n < 2 ^ 64" for n capacity
      using unsigned_less [of capacity, where ?'a = nat] by simp
    show ?thesis
    proof (cases "usage (held self) (claim_resource c) + unat (claim_units c) < 2 ^ 64")
      case True
      have s: "checked_sum 0 ?us = Some (sum_list ?us)" using True sum by (simp add: checked_sum_eq)
      have u: "unat (sum_list ?us) = usage (held self) (claim_resource c)"
        using True sum unat_sum_list [of ?us] by simp
      have "checked_add (sum_list ?us) (claim_units c) = Some (sum_list ?us + claim_units c)"
        using True u by (simp add: checked_add_def)
      moreover have "unat (sum_list ?us + claim_units c)
          = usage (held self) (claim_resource c) + unat (claim_units c)"
        using True u by (simp add: unat_add_noovf)
      ultimately show ?thesis using Shared find s True
        by (auto simp: check_claim_def admissible_def Let_def within_capacity_def word_less_nat_alt
            outcome_simps not_less unat_max_word split: option.splits)
    next
      case False
      have "\<not> within_capacity self (claim_resource c)
          (usage (held self) (claim_resource c) + unat (claim_units c))"
        using False bound by (auto simp: within_capacity_def split: option.splits)
      moreover have "checked_sum 0 ?us = None \<or>
          checked_add (sum_list ?us) (claim_units c) = None \<and> checked_sum 0 ?us = Some (sum_list ?us)"
        using False sum unat_sum_list [of ?us] by (auto simp: checked_sum_eq checked_add_def)
      ultimately show ?thesis using Shared
        by (auto simp: check_claim_def admissible_def Let_def outcome_simps split: option.splits)
    qed
  qed
qed

lemma check_claims_ok:
  "iteration_order iter \<Longrightarrow> check_claims iter self cs = Ok () \<longleftrightarrow> list_all (admissible self) cs"
  by (induction cs) (auto simp: outcome_simps check_claim_ok)

lemma check_claims_no_panic: "check_claims iter self cs \<noteq> Panic"
  by (induction cs) (auto simp: outcome_simps check_claim_def Let_def split: option.splits)

section \<open>Exclusive claims are exclusive\<close>

lemma update_present:
  "map_of kvs k = Some v \<Longrightarrow>
     \<exists>xs ys. kvs = xs @ (k, v) # ys \<and> k \<notin> fst ` set xs \<and> (\<forall>w. AList.update k w kvs = xs @ (k, w) # ys)"
proof (induction kvs)
  case Nil
  then show ?case by simp
next
  case (Cons p kvs)
  show ?case
  proof (cases "fst p = k")
    case True
    then show ?thesis using Cons.prems by (intro exI [of _ "[]"] exI [of _ kvs]) (cases p, auto)
  next
    case False
    then obtain xs ys where "kvs = xs @ (k, v) # ys" "k \<notin> fst ` set xs"
      "\<forall>w. AList.update k w kvs = xs @ (k, w) # ys"
      using Cons by (cases p) (auto split: if_splits)
    then show ?thesis using False by (intro exI [of _ "p # xs"] exI [of _ ys]) (cases p, auto)
  qed
qed

lemma update_absent: "map_of kvs k = None \<Longrightarrow> AList.update k v kvs = kvs @ [(k, v)]"
  by (induction kvs) (auto split: if_splits)

lemma usage_append [simp]: "usage (xs @ ys) resource = usage xs resource + usage ys resource"
  by (simp add: usage_def)

lemma usage_no_holder: "filter (\<lambda>h. claim_resource h = resource) cs = [] \<Longrightarrow> usage cs resource = 0"
  by (simp add: usage_def)

lemma held_ok_remove: "held_ok (xs @ cs @ ys) \<Longrightarrow> held_ok (xs @ ys)"
proof -
  assume ok: "held_ok (xs @ cs @ ys)"
  have "usage (xs @ ys) resource < 2 ^ 64" for resource
  proof -
    have "usage (xs @ cs @ ys) resource < 2 ^ 64" using ok by (simp add: held_ok_def del: usage_append)
    then show ?thesis by simp
  qed
  moreover have "filter (\<lambda>h. claim_resource h = claim_resource c) (xs @ ys) = [c]"
    if c: "c \<in> set (xs @ ys)" "claim_mode c = Exclusive" for c
  proof -
    let ?f = "filter (\<lambda>h. claim_resource h = claim_resource c)"
    have "?f xs @ ?f cs @ ?f ys = [c]" using ok c by (auto simp: held_ok_def)
    moreover have "?f xs @ ?f ys \<noteq> []"
    proof -
      have "c \<in> set (?f xs @ ?f ys)" using c(1) by auto
      then show ?thesis by (metis empty_iff empty_set)
    qed
    ultimately show ?thesis by (auto simp: append_eq_Cons_conv Cons_eq_append_conv)
  qed
  ultimately show "held_ok (xs @ ys)" unfolding held_ok_def by blast
qed

lemma within_capacity_bound: "within_capacity self resource n \<Longrightarrow> n < 2 ^ 64"
  using unsigned_less [where ?'a = nat and ?'b = 64]
  by (auto simp: within_capacity_def split: option.splits intro: le_less_trans)

lemma distinct_filter_resource:
  "distinct (map claim_resource cs) \<Longrightarrow> c \<in> set cs \<Longrightarrow>
     filter (\<lambda>h. claim_resource h = claim_resource c) cs = [c]"
proof (induction cs)
  case Nil
  then show ?case by simp
next
  case (Cons a cs)
  have a: "claim_resource a \<notin> claim_resource ` set cs" using Cons.prems(1) by simp
  show ?case
  proof (cases "c = a")
    case True
    then have "\<forall>h \<in> set cs. claim_resource h \<noteq> claim_resource c" using a by (metis imageI)
    then show ?thesis using True by (simp add: filter_empty_conv)
  next
    case False
    then have "claim_resource a \<noteq> claim_resource c" using a Cons.prems(2) by (metis imageI set_ConsD)
    then show ?thesis using Cons False by simp
  qed
qed

lemma held_ok_grant:
  assumes ok: "held_ok (held self)" and valid: "list_all claim_valid cs" "distinct (map claim_resource cs)"
    and adm: "list_all (admissible self) cs"
  shows "held_ok (held self @ cs)"
    and "c \<in> set cs \<Longrightarrow> claim_mode c = Shared \<Longrightarrow>
      within_capacity self (claim_resource c) (usage (held self @ cs) (claim_resource c))"
proof -
  let ?f = "\<lambda>c. filter (\<lambda>h. claim_resource h = claim_resource c)"
  have use: "usage (held self @ cs) (claim_resource c)
      = usage (held self) (claim_resource c) + unat (claim_units c)" if "c \<in> set cs" for c
    using distinct_filter_resource [OF valid(2) that] by (simp add: usage_def)
  have cap: "within_capacity self (claim_resource c) (usage (held self @ cs) (claim_resource c))"
    "list_all (\<lambda>h. claim_mode h = Shared) (?f c (held self))"
    if "c \<in> set cs" "claim_mode c = Shared" for c
    using adm that use [OF that(1)] by (auto simp: list_all_iff admissible_def Let_def)
  have excl: "?f c (held self) = []" if "c \<in> set cs" "claim_mode c = Exclusive" for c
    using adm that by (auto simp: list_all_iff admissible_def Let_def)
  have bound: "usage (held self @ cs) resource < 2 ^ 64" for resource
  proof (cases "\<exists>c \<in> set cs. claim_resource c = resource")
    case True
    then obtain c where c: "c \<in> set cs" "claim_resource c = resource" by blast
    show ?thesis
    proof (cases "claim_mode c")
      case Exclusive
      then have "claim_units c = 1" using c valid(1) by (auto simp: list_all_iff claim_valid_def)
      then show ?thesis using use [OF c(1)] usage_no_holder [OF excl [OF c(1) Exclusive]] c(2) by simp
    next
      case Shared
      then show ?thesis using within_capacity_bound [OF cap(1) [OF c(1) Shared]] c(2) by simp
    qed
  next
    case False
    then have "usage cs resource = 0" by (intro usage_no_holder) (auto simp: filter_empty_conv)
    then show ?thesis using ok by (simp add: held_ok_def)
  qed
  have alone: "?f c (held self @ cs) = [c]" if ce: "c \<in> set (held self @ cs)" "claim_mode c = Exclusive" for c
  proof (cases "c \<in> set cs")
    case True
    then show ?thesis using excl [OF True ce(2)] distinct_filter_resource [OF valid(2) True] by simp
  next
    case False
    then have h: "?f c (held self) = [c]" using ok ce by (auto simp: held_ok_def)
    have "claim_resource d \<noteq> claim_resource c" if d: "d \<in> set cs" for d
    proof
      assume same: "claim_resource d = claim_resource c"
      then have "?f d (held self) = [c]" using h by simp
      then show False
        using excl [OF d] cap(2) [OF d] ce(2) by (cases "claim_mode d") auto
    qed
    then have "?f c cs = []" by (auto simp: filter_empty_conv)
    then show ?thesis using h by simp
  qed
  show "held_ok (held self @ cs)" unfolding held_ok_def using bound alone by blast
  show "c \<in> set cs \<Longrightarrow> claim_mode c = Shared \<Longrightarrow>
      within_capacity self (claim_resource c) (usage (held self @ cs) (claim_resource c))"
    by (rule cap(1))
qed

lemma manager_inv_with_reservation:
  assumes inv: "manager_inv self"
    and f: "\<And>r r'. f r = Ok r' \<Longrightarrow> request r' = request r \<and> (held_by r' = held_by r \<or> held_by r' = [])"
  shows "manager_inv (snd (with_reservation self rid f))"
proof (cases "map_of (reservations self) rid")
  case None
  then show ?thesis using inv by (simp add: with_reservation_def)
next
  case (Some r)
  show ?thesis
  proof (cases "f r")
    case (Ok r')
    obtain xs ys where l: "reservations self = xs @ (rid, r) # ys"
      "\<forall>w. AList.update rid w (reservations self) = xs @ (rid, w) # ys"
      using update_present [OF Some] by blast
    have eq: "snd (with_reservation self rid f) = self\<lparr>reservations := xs @ (rid, r') # ys\<rparr>"
      using Some Ok l(2) by (simp add: with_reservation_def)
    let ?h = "\<lambda>zs. concat (map (\<lambda>(_, r). held_by r) zs)"
    have "held_ok (?h xs @ held_by r @ ?h ys)" using inv l(1) by (simp add: manager_inv_def held_def)
    then have "held_ok (?h xs @ held_by r' @ ?h ys)" using f [OF Ok] held_ok_remove by auto
    then show ?thesis
      using inv f [OF Ok] l(1) by (simp add: manager_inv_def held_def eq)
  qed (use inv Some in \<open>simp_all add: with_reservation_def\<close>)
qed

lemma manager_inv_life_cycle:
  assumes "manager_inv self"
  shows "manager_inv (snd (activate self rid))" "manager_inv (snd (begin_release self rid))"
    "manager_inv (snd (finish_release self rid))" "manager_inv (snd (fail_reservation self rid reason))"
  unfolding activate_def begin_release_def finish_release_def fail_reservation_def
  by (auto intro!: manager_inv_with_reservation assms
      simp: held_by_def holds_resources_def assms split: reservation_state.splits if_splits)

lemma manager_inv_set_capacity:
  "manager_inv self \<Longrightarrow> manager_inv (snd (set_capacity self resource units))"
  by (simp add: set_capacity_def manager_inv_def held_def)

lemma reserve_fresh:
  assumes iter: "iteration_order iter" and fresh: "map_of (reservations self) (reservation_id req) = None"
  shows "request_valid req \<Longrightarrow> list_all (admissible self) (claims req) \<Longrightarrow>
      reserve iter self req =
        (let r = \<lparr>request = req, reservation_state = Pending, failure = None\<rparr> in
         (Ok r, self\<lparr>reservations := reservations self @ [(reservation_id req, r)]\<rparr>))"
    and "\<not> (request_valid req \<and> list_all (admissible self) (claims req)) \<Longrightarrow>
      \<exists>e. reserve iter self req = (Err e, self)"
proof -
  let ?v = "and_then (validate_request req) (\<lambda>_. check_claims iter self (claims req))"
  have ok: "?v = Ok () \<longleftrightarrow> request_valid req \<and> list_all (admissible self) (claims req)"
    by (auto simp: outcome_simps validate_request_ok check_claims_ok [OF iter])
  have np: "?v \<noteq> Panic"
    by (auto simp: outcome_simps validate_request_def validate_claims_no_panic check_claims_no_panic)
  show "reserve iter self req =
        (let r = \<lparr>request = req, reservation_state = Pending, failure = None\<rparr> in
         (Ok r, self\<lparr>reservations := reservations self @ [(reservation_id req, r)]\<rparr>))"
    if "request_valid req" "list_all (admissible self) (claims req)"
    using ok that fresh by (simp add: reserve_def update_absent Let_def)
  show "\<exists>e. reserve iter self req = (Err e, self)"
    if "\<not> (request_valid req \<and> list_all (admissible self) (claims req))"
    using ok that np fresh by (cases ?v) (simp_all add: reserve_def)
qed

lemma held_reserved:
  "held (self\<lparr>reservations := reservations self @ [(rid, r)]\<rparr>) = held self @ held_by r"
  by (simp add: held_def)

lemma manager_inv_reserve:
  assumes iter: "iteration_order iter" and inv: "manager_inv self"
  shows "manager_inv (snd (reserve iter self req))"
proof (cases "map_of (reservations self) (reservation_id req)")
  case (Some r)
  then show ?thesis using inv by (simp add: reserve_def)
next
  case None
  show ?thesis
  proof (cases "request_valid req \<and> list_all (admissible self) (claims req)")
    case True
    have "held_ok (held self @ claims req)"
      by (rule held_ok_grant(1)) (use inv True in \<open>auto simp: manager_inv_def request_valid_def\<close>)
    then show ?thesis
      using reserve_fresh(1) [OF iter None] True inv None
      by (auto simp: Let_def manager_inv_def held_reserved held_by_def holds_resources_def map_of_eq_None_iff)
  next
    case False
    then show ?thesis using reserve_fresh(2) [OF iter None False] inv by auto
  qed
qed

datatype manager_operation =
    SetCapacity resource_key u64 | Reserve reservation_request | Activate string
  | BeginRelease string | FinishRelease string | Fail string string

text \<open>A call of one of the manager's operations, under some iteration order of its map.\<close>

definition manager_step :: "resource_manager \<Rightarrow> manager_operation \<Rightarrow> resource_manager \<Rightarrow> bool" where
  "manager_step s operation t =
     (case operation of
        SetCapacity resource units \<Rightarrow> t = snd (set_capacity s resource units)
      | Reserve req \<Rightarrow> (\<exists>iter. iteration_order iter \<and> t = snd (reserve iter s req))
      | Activate rid \<Rightarrow> t = snd (activate s rid)
      | BeginRelease rid \<Rightarrow> t = snd (begin_release s rid)
      | FinishRelease rid \<Rightarrow> t = snd (finish_release s rid)
      | Fail rid reason \<Rightarrow> t = snd (fail_reservation s rid reason))"

definition manager_init :: "resource_manager \<Rightarrow> bool" where
  "manager_init s \<longleftrightarrow> s = new_manager"

interpretation manager: invariant_system manager_init manager_step manager_inv
proof
  show "manager_inv s" if "manager_init s" for s
    using that by (simp add: manager_init_def new_manager_def manager_inv_def held_def held_ok_def usage_def)
  show "manager_inv t" if "manager_inv s" "manager_step s operation t" for s operation t
    using that by (auto simp: manager_step_def manager_inv_life_cycle manager_inv_set_capacity
        manager_inv_reserve split: manager_operation.splits)
qed

text \<open>
  C3.  Exclusive ownership: in every state the manager reaches by any sequence of calls, a claim that
  is exclusive, or whose resource the specification makes exclusive, is the only claim held on its
  resource until its reservation is released, and the units held of a resource never exceed 64 bits,
  so the overflow branch of the capacity check is never taken.
\<close>

theorem exclusive_ownership:
  assumes "reachable manager_init manager_step s" "c \<in> set (held s)"
    and "claim_mode c = Exclusive \<or> requires_exclusive (claim_resource c)"
  shows "filter (\<lambda>h. claim_resource h = claim_resource c) (held s) = [c]
    \<and> (\<forall>resource. usage (held s) resource < 2 ^ 64)"
proof -
  have inv: "manager_inv s" by (rule manager.reachable_inv [OF assms(1)])
  obtain rid r where "(rid, r) \<in> set (reservations s)" "c \<in> set (claims (request r))"
    using assms(2) by (auto simp: held_def held_by_def split: if_splits)
  then have "claim_valid c"
    using inv by (fastforce simp: manager_inv_def request_valid_def list_all_iff)
  then have "claim_mode c = Exclusive" using assms(3) by (auto simp: claim_valid_def)
  then show ?thesis using inv assms(2) by (simp add: manager_inv_def held_ok_def)
qed

definition sample_request :: reservation_request where
  "sample_request =
     \<lparr>reservation_id = ''r1'', request_session = ''s1'',
      claims = [\<lparr>claim_resource = PinnedCpu 3, claim_mode = Exclusive, claim_units = 1\<rparr>]\<rparr>"

definition sample_reservation :: reservation where
  "sample_reservation = \<lparr>request = sample_request, reservation_state = Pending, failure = None\<rparr>"

lemma sample_request_valid: "request_valid sample_request" "list_all (admissible new_manager) (claims sample_request)"
  by (simp_all add: request_valid_def sample_request_def claim_valid_def str_blank_def utf8_chars_def
      char_is_whitespace_def admissible_def new_manager_def held_def)

lemma reserve_sample:
  "reserve id new_manager sample_request = (Ok sample_reservation,
     \<lparr>reservations = [(''r1'', sample_reservation)], capacities = []\<rparr>)"
  using reserve_fresh(1) [OF _ _ sample_request_valid, of id]
  by (simp add: iteration_order_def new_manager_def sample_reservation_def sample_request_def Let_def)

theorem exclusive_ownership_witness:
  "filter (\<lambda>h. claim_resource h = PinnedCpu 3)
     (held \<lparr>reservations = [(''r1'', sample_reservation)], capacities = []\<rparr>)
   = [\<lparr>claim_resource = PinnedCpu 3, claim_mode = Exclusive, claim_units = 1\<rparr>]"
proof -
  let ?s = "\<lparr>reservations = [(''r1'', sample_reservation)], capacities = []\<rparr>"
  have "manager_step new_manager (Reserve sample_request) ?s"
    using reserve_sample by (auto simp: manager_step_def iteration_order_def intro!: exI [of _ id])
  then have "reachable manager_init manager_step ?s"
    by (rule reachable.intros(2) [rotated]) (rule reachable.intros(1), simp add: manager_init_def)
  from exclusive_ownership [OF this, of "\<lparr>claim_resource = PinnedCpu 3, claim_mode = Exclusive, claim_units = 1\<rparr>"]
  show ?thesis
    by (simp add: held_def held_by_def sample_reservation_def sample_request_def holds_resources_def)
qed

text \<open>
  C24.  Reservation is atomic and complete: a request with a new identifier is granted exactly when it
  is well formed and each of its claims fits beside the claims already held; when granted, every
  shared resource it uses stays within its configured capacity, and asking again returns the same
  reservation without a second grant; when refused, nothing of it is kept.
\<close>

theorem reserve_atomic:
  assumes "iteration_order iter" "reachable manager_init manager_step self"
    and "map_of (reservations self) (reservation_id req) = None"
  shows "if request_valid req \<and> list_all (admissible self) (claims req)
    then \<exists>r self'. reserve iter self req = (Ok r, self') \<and> request r = req
      \<and> reservation_state r = Pending \<and> held self' = held self @ claims req
      \<and> (\<forall>c \<in> set (claims req). claim_mode c = Shared \<longrightarrow>
           within_capacity self' (claim_resource c) (usage (held self') (claim_resource c)))
      \<and> reserve iter self' req = (Ok r, self')
    else \<exists>e. reserve iter self req = (Err e, self)"
proof (cases "request_valid req \<and> list_all (admissible self) (claims req)")
  case True
  let ?r = "\<lparr>request = req, reservation_state = Pending, failure = None\<rparr>"
  let ?s = "self\<lparr>reservations := reservations self @ [(reservation_id req, ?r)]\<rparr>"
  have inv: "manager_inv self" by (rule manager.reachable_inv [OF assms(2)])
  have r: "reserve iter self req = (Ok ?r, ?s)"
    using reserve_fresh(1) [OF assms(1,3)] True by (simp add: Let_def)
  have h: "held ?s = held self @ claims req"
    by (simp add: held_reserved held_by_def holds_resources_def)
  have "within_capacity ?s (claim_resource c) (usage (held ?s) (claim_resource c))"
    if "c \<in> set (claims req)" "claim_mode c = Shared" for c
    using held_ok_grant(2) [of self "claims req" c] inv True that
    by (simp add: h within_capacity_def manager_inv_def request_valid_def)
  moreover have "reserve iter ?s req = (Ok ?r, ?s)"
    using assms(3) by (simp add: reserve_def map_add_def)
  ultimately show ?thesis using True r h by auto
next
  case False
  then show ?thesis using reserve_fresh(2) [OF assms(1,3) False] by auto
qed

theorem reserve_atomic_witness:
  "\<exists>r self'. reserve id new_manager sample_request = (Ok r, self') \<and> request r = sample_request
      \<and> held self' = claims sample_request \<and> reserve id self' sample_request = (Ok r, self')"
  using reserve_atomic [of id new_manager sample_request] sample_request_valid
    reachable_init [of manager_init new_manager manager_step]
  by (auto simp: iteration_order_def manager_init_def new_manager_def held_def)

lemma update_last: "map_of xs k = None \<Longrightarrow> AList.update k w (xs @ [(k, v)]) = xs @ [(k, w)]"
  by (induction xs) (auto split: if_splits)

lemma admissible_cong:
  "held s = held t \<Longrightarrow> capacities s = capacities t \<Longrightarrow> admissible s = admissible t"
  by (rule ext) (simp add: admissible_def Let_def within_capacity_def split: resource_mode.split)

text \<open>
  C25.  Release gives everything back: after a granted reservation has been activated, its release
  begun and finished, the claims held are those held before it was granted, and any later request
  is granted exactly when it would have been granted before.  Finishing a release twice changes
  nothing, and before the release has begun it is refused.
\<close>

theorem release_restores:
  assumes "iteration_order iter" "map_of (reservations s) (reservation_id req) = None"
    and "reserve iter s req = (Ok r, s1)"
  shows "\<exists>s2 s3 s4. activate s1 (reservation_id req) = (Ok (r\<lparr>reservation_state := Active\<rparr>), s2)
    \<and> (\<exists>e. finish_release s2 (reservation_id req) = (Err e, s2))
    \<and> begin_release s2 (reservation_id req) = (Ok (r\<lparr>reservation_state := Releasing\<rparr>), s3)
    \<and> held s3 = held s @ claims req
    \<and> finish_release s3 (reservation_id req) = (Ok (r\<lparr>reservation_state := Released\<rparr>), s4)
    \<and> finish_release s4 (reservation_id req) = (Ok (r\<lparr>reservation_state := Released\<rparr>), s4)
    \<and> held s4 = held s
    \<and> (\<forall>req'. map_of (reservations s4) (reservation_id req') = None \<longrightarrow>
         is_ok (fst (reserve iter s4 req')) = is_ok (fst (reserve iter s req')))"
proof -
  let ?id = "reservation_id req"
  let ?s = "\<lambda>x. s\<lparr>reservations := reservations s @ [(?id, r\<lparr>reservation_state := x\<rparr>)]\<rparr>"
  have "request_valid req \<and> list_all (admissible s) (claims req)"
    using reserve_fresh(2) [OF assms(1,2)] assms(3) by auto
  from reserve_fresh(1) [OF assms(1,2)] this
  have r: "r = \<lparr>request = req, reservation_state = Pending, failure = None\<rparr>" and s1: "s1 = ?s Pending"
    using assms(3) by (auto simp: Let_def)
  note calc = with_reservation_def map_add_def assms(2) update_last [OF assms(2)]
  have "activate s1 ?id = (Ok (r\<lparr>reservation_state := Active\<rparr>), ?s Active)"
    by (simp add: s1 r activate_def calc)
  moreover have "\<exists>e. finish_release (?s Active) ?id = (Err e, ?s Active)"
    by (simp add: r finish_release_def calc)
  moreover have "begin_release (?s Active) ?id = (Ok (r\<lparr>reservation_state := Releasing\<rparr>), ?s Releasing)"
    by (simp add: r begin_release_def calc)
  moreover have "held (?s Releasing) = held s @ claims req"
    by (simp add: held_reserved r held_by_def holds_resources_def)
  moreover have "finish_release (?s Releasing) ?id = (Ok (r\<lparr>reservation_state := Released\<rparr>), ?s Released)"
    "finish_release (?s Released) ?id = (Ok (r\<lparr>reservation_state := Released\<rparr>), ?s Released)"
    by (simp_all add: r finish_release_def calc)
  moreover have h: "held (?s Released) = held s"
    by (simp add: held_reserved r held_by_def holds_resources_def)
  moreover have "is_ok (fst (reserve iter (?s Released) req')) = is_ok (fst (reserve iter s req'))"
    if new: "map_of (reservations (?s Released)) (reservation_id req') = None" for req'
  proof -
    have old: "map_of (reservations s) (reservation_id req') = None"
      using new by (auto simp: map_add_None split: if_splits)
    have "admissible (?s Released) = admissible s" by (rule admissible_cong) (simp_all add: h)
    then show ?thesis
      using reserve_fresh [OF assms(1) new] reserve_fresh [OF assms(1) old]
      by (cases "request_valid req' \<and> list_all (admissible s) (claims req')") (auto simp: Let_def)
  qed
  ultimately show ?thesis by blast
qed

theorem release_restores_witness:
  "\<exists>s1 s2 s3 s4. reserve id new_manager sample_request = (Ok sample_reservation, s1)
    \<and> activate s1 ''r1'' = (Ok (sample_reservation\<lparr>reservation_state := Active\<rparr>), s2)
    \<and> begin_release s2 ''r1'' = (Ok (sample_reservation\<lparr>reservation_state := Releasing\<rparr>), s3)
    \<and> finish_release s3 ''r1'' = (Ok (sample_reservation\<lparr>reservation_state := Released\<rparr>), s4)
    \<and> held s4 = []"
proof -
  have i: "reservation_id sample_request = ''r1''" "held new_manager = []"
    "map_of (reservations new_manager) (reservation_id sample_request) = None"
    by (simp_all add: sample_request_def new_manager_def held_def)
  have "iteration_order id" by (simp add: iteration_order_def)
  from release_restores [OF this i(3) reserve_sample] show ?thesis
    using reserve_sample unfolding i(1,2) by blast
qed

text \<open>
  The failure text outlives the failed state: it is documented as present only in \<open>Failed\<close>, but a
  release that begins after a failure keeps it.
\<close>

lemma failure_survives_release:
  assumes "map_of (reservations s) rid = Some r" "reservation_state r \<noteq> Released" "\<not> str_blank reason"
  shows "\<exists>r' s'. begin_release (snd (fail_reservation s rid reason)) rid = (Ok r', s')
    \<and> reservation_state r' = Releasing \<and> failure r' = Some reason"
  using assms by (simp add: fail_reservation_def begin_release_def with_reservation_def update_conv')

end
