(* ===== verification/Ip_Text.thy ===== *)
theory Ip_Text
  imports Net_Types
begin

text \<open>
  The textual form of IP addresses as the standard library has it: \<open>Display\<close> and \<open>FromStr\<close> of
  \<open>std::net::IpAddr\<close>, which the helper uses to render and to check managed hosts entries.
\<close>

section \<open>Display\<close>

definition hex_char :: "nat \<Rightarrow> char" where
  "hex_char d = (if d < 10 then char_of (48 + d) else char_of (87 + d))"

fun segment_hex :: "nat \<Rightarrow> string" where
  "segment_hex n = (if n < 16 then [hex_char n] else segment_hex (n div 16) @ [hex_char (n mod 16)])"

declare segment_hex.simps [simp del]

definition ipv4_display :: "bytes \<Rightarrow> string" where
  "ipv4_display octets =
     decimal (unat (octets ! 0)) @ ''.'' @ decimal (unat (octets ! 1)) @ ''.''
     @ decimal (unat (octets ! 2)) @ ''.'' @ decimal (unat (octets ! 3))"

definition segments :: "u128 \<Rightarrow> nat list" where
  "segments a = map (\<lambda>i. unat (drop_bit (112 - 16 * i) a AND 0xffff)) [0..<8]"

text \<open>The longest run of zero segments, the first of equal ones: its start and its length.\<close>

fun zero_span :: "nat \<Rightarrow> nat \<times> nat \<Rightarrow> nat \<times> nat \<Rightarrow> nat list \<Rightarrow> nat \<times> nat" where
  "zero_span i longest current [] = longest"
| "zero_span i longest current (s # ss) =
     (if s = 0 then
        (let current = (if snd current = 0 then i else fst current, snd current + 1) in
         zero_span (i + 1) (if snd longest < snd current then current else longest) current ss)
      else zero_span (i + 1) longest (0, 0) ss)"

fun fmt_subslice :: "nat list \<Rightarrow> string" where
  "fmt_subslice [] = []"
| "fmt_subslice [s] = segment_hex s"
| "fmt_subslice (s # t # ss) = segment_hex s @ '':'' @ fmt_subslice (t # ss)"

definition ipv6_display :: "u128 \<Rightarrow> string" where
  "ipv6_display a =
     (let ss = segments a in
      if take 6 ss = [0, 0, 0, 0, 0, 0xffff] then ''::ffff:'' @ ipv4_display (drop 12 (to_be_bytes 16 a))
      else
        (case zero_span 0 (0, 0) (0, 0) ss of (start, len) \<Rightarrow>
          if 1 < len then
            fmt_subslice (take start ss) @ ''::'' @ fmt_subslice (drop (start + len) ss)
          else fmt_subslice ss))"

fun ip_display :: "ip_addr \<Rightarrow> string" where
  "ip_display (V4 a) = ipv4_display (to_be_bytes 4 a)"
| "ip_display (V6 a) = ipv6_display a"

section \<open>Parsing\<close>

definition digit_of :: "nat \<Rightarrow> char \<Rightarrow> nat option" where
  "digit_of radix c =
     (let n = of_char c :: nat;
          d = (if 48 \<le> n \<and> n \<le> 57 then n - 48
               else if 97 \<le> n \<and> n \<le> 122 then n - 87
               else if 65 \<le> n \<and> n \<le> 90 then n - 55 else radix) in
      if d < radix then Some d else None)"

definition read_number ::
  "nat \<Rightarrow> nat \<Rightarrow> bool \<Rightarrow> nat \<Rightarrow> string \<Rightarrow> (nat \<times> string) option" where
  "read_number radix max_digits allow_zero_prefix bound s =
     (let ds = takeWhile (\<lambda>c. digit_of radix c \<noteq> None) s;
          n = foldl (\<lambda>acc c. acc * radix + the (digit_of radix c)) 0 ds in
      if ds = [] \<or> length ds > max_digits
         \<or> (\<not> allow_zero_prefix \<and> hd ds = CHR ''0'' \<and> length ds > 1) \<or> n \<ge> bound then None
      else Some (n, drop (length ds) s))"

definition read_given_char :: "char \<Rightarrow> string \<Rightarrow> string option" where
  "read_given_char c s = (case s of [] \<Rightarrow> None | x # xs \<Rightarrow> if x = c then Some xs else None)"

text \<open>\<open>read_separator\<close>: the separator is expected before every element but the first.\<close>

definition read_separator ::
  "char \<Rightarrow> bool \<Rightarrow> (string \<Rightarrow> ('a \<times> string) option) \<Rightarrow> string \<Rightarrow> ('a \<times> string) option" where
  "read_separator c first p s =
     (if first then p s else Option.bind (read_given_char c s) p)"

definition read_octet :: "string \<Rightarrow> (nat \<times> string) option" where
  "read_octet = read_number 10 3 False 256"

definition read_ipv4_addr :: "string \<Rightarrow> (nat list \<times> string) option" where
  "read_ipv4_addr s =
     Option.bind (read_separator CHR ''.'' True read_octet s) (\<lambda>(a, s).
     Option.bind (read_separator CHR ''.'' False read_octet s) (\<lambda>(b, s).
     Option.bind (read_separator CHR ''.'' False read_octet s) (\<lambda>(c, s).
     Option.bind (read_separator CHR ''.'' False read_octet s) (\<lambda>(d, s).
       Some ([a, b, c, d], s)))))"

text \<open>\<open>read_groups\<close> with \<open>n\<close> groups left: the groups, whether they end in an IPv4 address, the rest.\<close>

fun read_groups :: "nat \<Rightarrow> bool \<Rightarrow> string \<Rightarrow> nat list \<times> bool \<times> string" where
  "read_groups 0 first s = ([], False, s)"
| "read_groups (Suc n) first s =
     (case (if 0 < n then read_separator CHR '':'' first read_ipv4_addr s else None) of
        Some (os, s') \<Rightarrow> ([os ! 0 * 256 + os ! 1, os ! 2 * 256 + os ! 3], True, s')
      | None \<Rightarrow>
          (case read_separator CHR '':'' first (read_number 16 4 True 65536) s of
             Some (g, s') \<Rightarrow> (case read_groups n False s' of (gs, v4, r) \<Rightarrow> (g # gs, v4, r))
           | None \<Rightarrow> ([], False, s)))"

definition read_ipv6_addr :: "string \<Rightarrow> (nat list \<times> string) option" where
  "read_ipv6_addr s =
     (case read_groups 8 True s of (head, head_ipv4, s) \<Rightarrow>
        if length head = 8 then Some (head, s)
        else if head_ipv4 then None
        else
          Option.bind (read_given_char CHR '':'' s) (\<lambda>s.
          Option.bind (read_given_char CHR '':'' s) (\<lambda>s.
            (case read_groups (8 - (length head + 1)) True s of (tail, _, s) \<Rightarrow>
               Some (head @ replicate (8 - length head - length tail) 0 @ tail, s)))))"

definition parse_ip :: "string \<Rightarrow> ip_addr option" where
  "parse_ip s =
     (case read_ipv4_addr s of
        Some (os, rest) \<Rightarrow>
          if rest = [] then Some (V4 (of_nat (foldl (\<lambda>acc d. acc * 256 + d) 0 os))) else None
      | None \<Rightarrow>
          (case read_ipv6_addr s of
             Some (gs, rest) \<Rightarrow>
               if rest = [] then Some (V6 (of_nat (foldl (\<lambda>acc d. acc * 65536 + d) 0 gs))) else None
           | None \<Rightarrow> None))"

section \<open>The characters of an address\<close>

text \<open>No address displays with a blank, a control character or a comment sign.\<close>

definition ip_char :: "char \<Rightarrow> bool" where
  "ip_char c \<longleftrightarrow> c \<in> set ''0123456789abcdef.:''"

lemma hex_char_ip: "d < 16 \<Longrightarrow> ip_char (hex_char d)"
proof -
  assume "d < 16"
  then have "d \<in> set [0..<16]" by simp
  moreover have "list_all (\<lambda>d. ip_char (hex_char d)) [0..<16]" by code_simp
  ultimately show ?thesis by (simp only: list_all_iff)
qed

lemma segment_hex_ip: "list_all ip_char (segment_hex n)"
  by (induction n rule: segment_hex.induct) (subst segment_hex.simps, simp add: hex_char_ip)

lemma decimal_ip: "list_all ip_char (decimal n)"
proof (induction n rule: decimal.induct)
  case (1 n)
  have "ip_char (char_of (48 + d))" if "d < 10" for d :: nat
    using hex_char_ip [of d] that by (simp add: hex_char_def)
  with 1 show ?case by (subst decimal.simps) simp
qed

lemma fmt_subslice_ip: "list_all ip_char (fmt_subslice ss)"
  by (induction ss rule: fmt_subslice.induct) (simp_all add: segment_hex_ip, simp add: ip_char_def)

lemma ipv4_display_ip: "list_all ip_char (ipv4_display os)"
  by (simp add: ipv4_display_def decimal_ip) (simp add: ip_char_def)

lemma ip_display_ip: "list_all ip_char (ip_display a)"
proof (cases a)
  case (V4 x)
  then show ?thesis by (simp add: ipv4_display_ip)
next
  case (V6 x)
  then show ?thesis
    by (auto simp: ipv6_display_def Let_def ipv4_display_ip fmt_subslice_ip split: prod.splits)
      (simp_all add: ip_char_def)
qed

lemma decimal_ne [simp]: "decimal n \<noteq> []"
  by (subst decimal.simps) simp

end
