(* ===== verification/Hosts_File.thy ===== *)
theory Hosts_File
  imports Error_Model Ip_Text "HOL-Library.Sublist"
begin

text \<open>
  The managed section of the hosts file (src/crates/helper-core/src/hosts.rs).  The text of the file
  is the list of its Unicode scalar values, on which \<open>str::lines\<close>, \<open>trim\<close>, \<open>contains\<close>, \<open>split\<close> and
  \<open>join\<close> of the standard library are written out.
\<close>

section \<open>Text\<close>

type_synonym utext = "nat list"

definition utxt :: "string \<Rightarrow> utext" where
  "utxt s = map of_char s"

definition utf8_len :: "utext \<Rightarrow> nat" where
  "utf8_len t =
     sum_list (map (\<lambda>c. if c < 0x80 then 1 else if c < 0x800 then 2 else if c < 0x10000 then 3 else 4) t)"

text \<open>\<open>split_inclusive('\n')\<close> and \<open>lines\<close>: a line loses its line feed and one carriage return before it.\<close>

fun split_inclusive :: "utext \<Rightarrow> utext list" where
  "split_inclusive [] = []"
| "split_inclusive (c # cs) =
     (if c = 10 then [10] # split_inclusive cs
      else case split_inclusive cs of [] \<Rightarrow> [[c]] | l # ls \<Rightarrow> (c # l) # ls)"

definition strip_cr :: "utext \<Rightarrow> utext" where
  "strip_cr l = (if l \<noteq> [] \<and> last l = 13 then butlast l else l)"

definition line_content :: "utext \<Rightarrow> utext" where
  "line_content l = (if l \<noteq> [] \<and> last l = 10 then strip_cr (butlast l) else l)"

definition text_lines :: "utext \<Rightarrow> utext list" where
  "text_lines s = map line_content (split_inclusive s)"

definition trim_end :: "(nat \<Rightarrow> bool) \<Rightarrow> utext \<Rightarrow> utext" where
  "trim_end P s = rev (dropWhile P (rev s))"

definition trim :: "utext \<Rightarrow> utext" where
  "trim s = trim_end char_is_whitespace (dropWhile char_is_whitespace s)"

definition starts_with :: "utext \<Rightarrow> utext \<Rightarrow> bool" where
  "starts_with p s \<longleftrightarrow> take (length p) s = p"

definition ends_with :: "utext \<Rightarrow> utext \<Rightarrow> bool" where
  "ends_with p s \<longleftrightarrow> length p \<le> length s \<and> drop (length s - length p) s = p"

fun contains :: "utext \<Rightarrow> utext \<Rightarrow> bool" where
  "contains p [] = (p = [])"
| "contains p (c # cs) = (starts_with p (c # cs) \<or> contains p cs)"

function split_on :: "utext \<Rightarrow> utext \<Rightarrow> utext list" where
  "split_on sep [] = [[]]"
| "split_on sep (c # cs) =
     (if sep \<noteq> [] \<and> starts_with sep (c # cs) then [] # split_on sep (drop (length sep) (c # cs))
      else case split_on sep cs of [] \<Rightarrow> [[c]] | l # ls \<Rightarrow> (c # l) # ls)"
  by pat_completeness auto
termination by (relation "measure (\<lambda>(_, s). length s)") auto

declare split_on.simps(2) [simp del]

fun join_text :: "utext \<Rightarrow> utext list \<Rightarrow> utext" where
  "join_text sep [] = []"
| "join_text sep [l] = l"
| "join_text sep (l # m # ls) = l @ sep @ join_text sep (m # ls)"

section \<open>The managed section\<close>

record managed_hosts_entry =
  host_address :: ip_addr
  hostname :: utext
  host_comment :: "utext option"
  host_enabled :: bool

definition hosts_error :: "string \<Rightarrow> nettool_error" where
  "hosts_error msg = new_error InvalidArgument msg False"

definition ascii_alphanumeric :: "nat \<Rightarrow> bool" where
  "ascii_alphanumeric c \<longleftrightarrow> 48 \<le> c \<and> c \<le> 57 \<or> 65 \<le> c \<and> c \<le> 90 \<or> 97 \<le> c \<and> c \<le> 122"

definition validate_profile_id :: "utext \<Rightarrow> unit result" where
  "validate_profile_id profile_id =
     (if profile_id = []
         \<or> \<not> list_all (\<lambda>c. ascii_alphanumeric c \<or> c \<in> set (utxt ''-_'')) profile_id then
        Err (hosts_error ''hosts profile ID contains unsupported characters'')
      else Ok ())"

definition validate_entry :: "managed_hosts_entry \<Rightarrow> unit result" where
  "validate_entry entry =
     (if hostname entry = [] \<or> utf8_len (hostname entry) > 253
         \<or> \<not> list_all (\<lambda>c. ascii_alphanumeric c \<or> c \<in> set (utxt ''-._'')) (hostname entry) then
        Err (hosts_error ''hosts entry hostname is invalid'')
      else if (case host_comment entry of None \<Rightarrow> False
               | Some comment \<Rightarrow> list_ex (\<lambda>c. c = 13 \<or> c = 10) comment) then
        Err (hosts_error ''hosts entry comment contains a newline'')
      else Ok ())"

fun validate_entries :: "managed_hosts_entry list \<Rightarrow> unit result" where
  "validate_entries [] = Ok ()"
| "validate_entries (e # es) = and_then (validate_entry e) (\<lambda>_. validate_entries es)"

definition begin_marker :: "utext \<Rightarrow> utext" where
  "begin_marker profile_id = utxt ''# BEGIN NETTOOL PROFILE '' @ profile_id"

definition end_marker :: "utext \<Rightarrow> utext" where
  "end_marker profile_id = utxt ''# END NETTOOL PROFILE '' @ profile_id"

definition render_entry :: "managed_hosts_entry \<Rightarrow> utext" where
  "render_entry entry =
     (let comment = (case host_comment entry of None \<Rightarrow> [] | Some c \<Rightarrow> utxt '' # '' @ c) in
      if host_enabled entry then
        utxt (ip_display (host_address entry)) @ utxt '' '' @ hostname entry @ comment
      else
        utxt ''# NETTOOL DISABLED '' @ utxt (ip_display (host_address entry)) @ utxt '' ''
          @ hostname entry @ comment)"

definition render_section :: "utext \<Rightarrow> utext \<Rightarrow> managed_hosts_entry list \<Rightarrow> utext \<Rightarrow> utext" where
  "render_section b e entries newline = join_text newline ([b] @ map render_entry entries @ [e]) @ newline"

definition positions :: "(utext \<Rightarrow> bool) \<Rightarrow> utext list \<Rightarrow> nat list" where
  "positions P ls = map fst (filter (\<lambda>(_, l). P l) (enumerate 0 ls))"

definition append_section :: "utext \<Rightarrow> utext \<Rightarrow> utext \<Rightarrow> utext" where
  "append_section existing newline managed =
     (let result = existing;
          result = (if result \<noteq> [] \<and> \<not> (ends_with [10] result \<or> ends_with [13] result)
                    then result @ newline else result);
          result = (if result \<noteq> [] \<and> \<not> ends_with (newline @ newline) result
                    then result @ newline else result) in
      result @ managed)"

definition replace_managed_section ::
  "utext \<Rightarrow> utext \<Rightarrow> managed_hosts_entry list \<Rightarrow> utext result" where
  "replace_managed_section existing profile_id entries =
     and_then (validate_profile_id profile_id) (\<lambda>_.
     and_then (validate_entries entries) (\<lambda>_.
     let b = begin_marker profile_id;
         e = end_marker profile_id;
         newline = (if contains [13, 10] existing then [13, 10] else [10]);
         ls = text_lines existing;
         begin_positions = positions (\<lambda>l. trim l = b) ls;
         end_positions = positions (\<lambda>l. trim l = e) ls in
     if length begin_positions > 1 \<or> length end_positions > 1
        \<or> length begin_positions \<noteq> length end_positions then
       Err (hosts_error ''managed hosts markers are missing or duplicated'')
     else
       let managed = render_section b e entries newline in
       if begin_positions = [] then Ok (append_section existing newline managed)
       else
         and_then (index_at begin_positions 0) (\<lambda>start.
         and_then (index_at end_positions 0) (\<lambda>finish.
         if finish < start then
           Err (hosts_error ''managed hosts markers are nested or out of order'')
         else
           and_then (slice_range ls (start + 1) finish) (\<lambda>between.
           if list_ex (\<lambda>l. starts_with (utxt ''# BEGIN NETTOOL PROFILE '') (trim l)) between then
             Err (hosts_error ''managed hosts markers are nested or out of order'')
           else
             and_then (slice_to ls start) (\<lambda>before.
             and_then (slice_from ls (finish + 1)) (\<lambda>after.
             let result = join_text newline
                   (before @ split_on newline (trim_end (\<lambda>c. c = 13 \<or> c = 10) managed) @ after) in
             Ok (if ends_with [10] existing then result @ newline else result))))))))"

section \<open>Lines\<close>

lemma split_inclusive_line:
  "10 \<notin> set l \<Longrightarrow> split_inclusive (l @ 10 # r) = (l @ [10]) # split_inclusive r"
  by (induction l) auto

lemma split_inclusive_last: "10 \<notin> set l \<Longrightarrow> l \<noteq> [] \<Longrightarrow> split_inclusive l = [l]"
proof (induction l)
  case Nil
  then show ?case by simp
next
  case (Cons c l)
  then show ?case by (cases "l = []") auto
qed

lemma text_lines_Nil [simp]: "text_lines [] = []"
  by (simp add: text_lines_def)

lemma text_lines_line: "10 \<notin> set l \<Longrightarrow> text_lines (l @ 10 # r) = strip_cr l # text_lines r"
  by (simp add: text_lines_def split_inclusive_line line_content_def)

lemma text_lines_last: "10 \<notin> set l \<Longrightarrow> l \<noteq> [] \<Longrightarrow> text_lines l = [l]"
  by (metis (no_types, lifting) last_in_set line_content_def list.simps(8,9) split_inclusive_last
      text_lines_def)

text \<open>Induction over the lines of a text.\<close>

lemma line_induct [case_names Nil last line]:
  assumes "P []" "\<And>l. l \<noteq> [] \<Longrightarrow> 10 \<notin> set l \<Longrightarrow> P l"
    and step: "\<And>l r. 10 \<notin> set l \<Longrightarrow> P r \<Longrightarrow> P (l @ 10 # r)"
  shows "P (s :: utext)"
proof (induction s rule: length_induct)
  case (1 s)
  show ?case
  proof (cases "10 \<in> set s")
    case True
    then obtain l r where "s = l @ 10 # r" "10 \<notin> set l" by (meson split_list_first)
    then show ?thesis using 1 step by auto
  next
    case False
    then show ?thesis using assms(1,2) by (cases "s = []") auto
  qed
qed

lemma strip_cr_append: "strip_cr (l @ [13]) = l"
  by (simp add: strip_cr_def)

lemma set_strip_cr: "set (strip_cr l) \<subseteq> set l"
  by (auto simp: strip_cr_def dest: in_set_butlastD)

lemma text_lines_no_lf: "l \<in> set (text_lines s) \<Longrightarrow> 10 \<notin> set l"
  by (induction s rule: line_induct)
    (use set_strip_cr in \<open>auto simp: text_lines_line text_lines_last\<close>)

lemma text_lines_last_ne: "s \<noteq> [] \<Longrightarrow> last s \<noteq> 10 \<Longrightarrow> text_lines s \<noteq> [] \<and> last (text_lines s) \<noteq> []"
  by (induction s rule: line_induct) (auto simp: text_lines_line text_lines_last split: if_splits)

lemma contains_append: "contains p r \<Longrightarrow> contains p (l @ r)"
  by (induction l) auto

lemma contains_crlf: "contains [13, 10] (l @ 13 # 10 # r)"
  by (rule contains_append) (simp add: starts_with_def)

lemma contains_line:
  assumes "10 \<notin> set l" "strip_cr l \<noteq> l"
  shows "contains [13, 10] (l @ 10 # r)"
proof -
  have "l = butlast l @ [13]" using assms(2) by (metis append_butlast_last_id strip_cr_def)
  then show ?thesis using contains_crlf [of "butlast l" r] by (metis append.assoc append_Cons append_Nil)
qed

lemma text_lines_lf_clean:
  "\<not> contains [13, 10] s \<Longrightarrow>
     (\<forall>l \<in> set (butlast (text_lines s)). strip_cr l = l)
     \<and> (s \<noteq> [] \<and> last s = 10 \<longrightarrow> (\<forall>l \<in> set (text_lines s). strip_cr l = l))"
proof (induction s rule: line_induct)
  case (line l r)
  have l: "strip_cr l = l" using contains_line [OF line.hyps(1), of r] line.prems by blast
  have "\<not> contains [13, 10] r" using contains_append [of "[13, 10]" r "l @ [10]"] line.prems by auto
  note ih = line.IH [OF this]
  show ?case
    using ih l by (auto simp: text_lines_line [OF line.hyps(1)] split: if_splits)
next
  case (last l)
  then have "last l \<noteq> 10" by (metis last_in_set)
  with last show ?case by (simp add: text_lines_last)
qed simp

definition newline_ok :: "utext \<Rightarrow> bool" where
  "newline_ok nl \<longleftrightarrow> nl = [10] \<or> nl = [13, 10]"

definition line_ok :: "utext \<Rightarrow> utext \<Rightarrow> bool" where
  "line_ok nl l \<longleftrightarrow> 10 \<notin> set l \<and> (nl = [10] \<longrightarrow> strip_cr l = l)"

lemma text_lines_newline:
  assumes "newline_ok nl" "line_ok nl l"
  shows "text_lines (l @ nl @ r) = l # text_lines r"
  using assms text_lines_line [of l r] text_lines_line [of "l @ [13]" r]
  by (auto simp: newline_ok_def line_ok_def strip_cr_append)

lemma text_lines_join_end:
  "newline_ok nl \<Longrightarrow> ls \<noteq> [] \<Longrightarrow> \<forall>l \<in> set ls. line_ok nl l \<Longrightarrow>
     text_lines (join_text nl ls @ nl @ r) = ls @ text_lines r"
  by (induction nl ls rule: join_text.induct) (simp_all add: text_lines_newline)

lemma text_lines_join:
  "newline_ok nl \<Longrightarrow> ls \<noteq> [] \<Longrightarrow> \<forall>l \<in> set (butlast ls). line_ok nl l \<Longrightarrow> 10 \<notin> set (last ls) \<Longrightarrow>
     last ls \<noteq> [] \<Longrightarrow> text_lines (join_text nl ls) = ls"
  by (induction nl ls rule: join_text.induct) (simp_all add: text_lines_newline text_lines_last)

lemma split_on_last: "newline_ok nl \<Longrightarrow> 10 \<notin> set l \<Longrightarrow> split_on nl l = [l]"
proof (induction l)
  case Nil
  then show ?case by simp
next
  case (Cons c l)
  have "\<not> starts_with nl (c # l)"
    using Cons.prems by (cases l) (auto simp: newline_ok_def starts_with_def)
  then show ?case using Cons by (simp add: split_on.simps(2))
qed

lemma split_on_newline: "newline_ok nl \<Longrightarrow> 10 \<notin> set l \<Longrightarrow> split_on nl (l @ nl @ r) = l # split_on nl r"
proof (induction l)
  case Nil
  then show ?case by (auto simp: newline_ok_def split_on.simps(2) starts_with_def)
next
  case (Cons c l)
  have "\<not> starts_with nl (c # l @ nl @ r)"
    using Cons.prems by (cases l) (auto simp: newline_ok_def starts_with_def)
  then show ?case using Cons by (simp add: split_on.simps(2))
qed

lemma split_on_join:
  "newline_ok nl \<Longrightarrow> ls \<noteq> [] \<Longrightarrow> \<forall>l \<in> set ls. 10 \<notin> set l \<Longrightarrow> split_on nl (join_text nl ls) = ls"
  by (induction nl ls rule: join_text.induct) (simp_all add: split_on_last split_on_newline)

lemma last_join: "ls \<noteq> [] \<Longrightarrow> last ls \<noteq> [] \<Longrightarrow> join_text nl ls \<noteq> [] \<and> last (join_text nl ls) = last (last ls)"
  by (induction nl ls rule: join_text.induct) auto

lemma trim_end_append: "x \<noteq> [] \<Longrightarrow> \<not> P (last x) \<Longrightarrow> trim_end P (x @ y) = x @ trim_end P y"
  by (cases x rule: rev_cases) (auto simp: trim_end_def dropWhile_append)

lemma trim_end_all: "list_all P y \<Longrightarrow> trim_end P y = []"
  by (simp add: trim_end_def list_all_iff)

section \<open>Marker positions\<close>

lemma filter_enumerate_none:
  "\<forall>l \<in> set ls. \<not> P l \<Longrightarrow> filter (\<lambda>(_, l). P l) (enumerate n ls) = []"
  by (induction ls arbitrary: n) auto

lemma positions_Nil_iff: "positions P ls = [] \<longleftrightarrow> (\<forall>l \<in> set ls. \<not> P l)"
proof -
  have "filter (\<lambda>(_, l). P l) (enumerate n ls) = [] \<longleftrightarrow> (\<forall>l \<in> set ls. \<not> P l)" for n
    by (induction ls arbitrary: n) auto
  then show ?thesis by (simp add: positions_def)
qed

lemma length_positions: "length (positions P ls) = length (filter P ls)"
proof -
  have "length (filter (\<lambda>(_, l). P l) (enumerate n ls)) = length (filter P ls)" for n
    by (induction ls arbitrary: n) simp_all
  then show ?thesis by (simp add: positions_def)
qed

lemma positions_single:
  "P y \<Longrightarrow> \<forall>l \<in> set xs \<union> set zs. \<not> P l \<Longrightarrow> positions P (xs @ y # zs) = [length xs]"
  by (simp add: positions_def enumerate_append_eq filter_enumerate_none)

lemma positions_first:
  assumes "positions P ls \<noteq> []"
  obtains xs y zs where "ls = xs @ y # zs" "P y" "\<forall>l \<in> set xs. \<not> P l"
    "length (positions P ls) \<le> 1 \<Longrightarrow> \<forall>l \<in> set zs. \<not> P l"
proof -
  have "\<exists>l \<in> set ls. P l" using assms by (simp add: positions_Nil_iff)
  then obtain xs y zs where l: "ls = xs @ y # zs" "P y" "\<forall>l \<in> set xs. \<not> P l"
    by (rule split_list_first_propE)
  have "\<forall>l \<in> set zs. \<not> P l" if "length (positions P ls) \<le> 1"
  proof -
    have "filter P xs = []" using l(3) by (simp add: filter_empty_conv)
    then have "length (filter P zs) = 0"
      using that by (simp add: length_positions l(1,2))
    then show ?thesis by (simp add: filter_empty_conv)
  qed
  with l show ?thesis by (rule that)
qed

section \<open>Rendered lines\<close>

definition id_char :: "nat \<Rightarrow> bool" where
  "id_char c \<longleftrightarrow> ascii_alphanumeric c \<or> c \<in> set (utxt ''-._'')"

lemma id_char_facts: "id_char c \<Longrightarrow> \<not> char_is_whitespace c \<and> c \<noteq> 10 \<and> c \<noteq> 13"
  by (auto simp: id_char_def ascii_alphanumeric_def utxt_def char_is_whitespace_def)

definition profile_ok :: "utext \<Rightarrow> bool" where
  "profile_ok pid \<longleftrightarrow> validate_profile_id pid = Ok ()"

lemma profile_okD:
  assumes "profile_ok pid"
  shows "pid \<noteq> []" "list_all id_char pid"
proof -
  show "pid \<noteq> []" using assms by (auto simp: profile_ok_def validate_profile_id_def)
  have "list_all (\<lambda>c. ascii_alphanumeric c \<or> c \<in> set (utxt ''-_'')) pid"
    using assms by (auto simp: profile_ok_def validate_profile_id_def split: if_splits)
  then show "list_all id_char pid" by (auto simp: list_all_iff id_char_def utxt_def)
qed

lemma validate_entries_ok: "validate_entries es = Ok () \<longleftrightarrow> list_all (\<lambda>e. validate_entry e = Ok ()) es"
  by (induction es) (auto simp: outcome_simps)

lemma validate_no_panic: "validate_profile_id pid \<noteq> Panic" "validate_entries es \<noteq> Panic"
  by (simp add: validate_profile_id_def, induction es) (auto simp: outcome_simps validate_entry_def)

lemma begin_text: "utxt ''# BEGIN NETTOOL PROFILE '' =
    [35, 32, 66, 69, 71, 73, 78, 32, 78, 69, 84, 84, 79, 79, 76, 32, 80, 82, 79, 70, 73, 76, 69, 32]"
  by code_simp

lemma end_text: "utxt ''# END NETTOOL PROFILE '' =
    [35, 32, 69, 78, 68, 32, 78, 69, 84, 84, 79, 79, 76, 32, 80, 82, 79, 70, 73, 76, 69, 32]"
  by code_simp

lemma disabled_text: "utxt ''# NETTOOL DISABLED '' =
    [35, 32, 78, 69, 84, 84, 79, 79, 76, 32, 68, 73, 83, 65, 66, 76, 69, 68] @ [32]"
  by code_simp

lemma trim_end_id: "x \<noteq> [] \<Longrightarrow> \<not> P (last x) \<Longrightarrow> trim_end P x = x"
  using trim_end_append [of x P "[]"] by (simp add: trim_end_def)

lemma trim_marker:
  assumes "profile_ok pid"
  shows "trim (begin_marker pid) = begin_marker pid" "trim (end_marker pid) = end_marker pid"
proof -
  have "\<not> char_is_whitespace (last pid)"
    using profile_okD [OF assms] id_char_facts by (simp add: list_all_iff)
  then have "trim (35 # xs @ pid) = 35 # xs @ pid" for xs
    using trim_end_id [of "35 # xs @ pid" char_is_whitespace] profile_okD(1) [OF assms]
    by (simp add: trim_def char_is_whitespace_def)
  from this [of "tl (utxt ''# BEGIN NETTOOL PROFILE '')"] this [of "tl (utxt ''# END NETTOOL PROFILE '')"]
  show "trim (begin_marker pid) = begin_marker pid" "trim (end_marker pid) = end_marker pid"
    by (simp_all add: begin_marker_def end_marker_def begin_text end_text)
qed

lemma markers_differ: "begin_marker pid \<noteq> end_marker pid"
  by (simp add: begin_marker_def end_marker_def begin_text end_text)

lemma ip_char_text: "ip_char c \<Longrightarrow> \<not> char_is_whitespace (of_char c) \<and> of_char c \<noteq> (10 :: nat)
    \<and> of_char c \<noteq> (13 :: nat) \<and> of_char c \<noteq> (35 :: nat)"
  by (auto simp: ip_char_def char_is_whitespace_def)

lemma ip_display_ne: "ip_display a \<noteq> []"
proof (cases a)
  case (V4 x)
  then show ?thesis by (simp add: ipv4_display_def)
next
  case (V6 x)
  have "segments x \<noteq> []" by (simp add: segments_def)
  moreover have "segment_hex n \<noteq> []" for n by (subst segment_hex.simps) simp
  ultimately have "fmt_subslice (segments x) \<noteq> []"
    by (cases "segments x" rule: fmt_subslice.cases) auto
  then show ?thesis using V6 by (auto simp: ipv6_display_def Let_def split: prod.splits)
qed

definition managed_lines :: "utext \<Rightarrow> managed_hosts_entry list \<Rightarrow> utext list" where
  "managed_lines pid es = [begin_marker pid] @ map render_entry es @ [end_marker pid]"

definition no_marker :: "utext \<Rightarrow> utext \<Rightarrow> bool" where
  "no_marker pid l \<longleftrightarrow> trim l \<noteq> begin_marker pid \<and> trim l \<noteq> end_marker pid"

text \<open>A rendered entry is never taken for a marker, whatever its comment says.\<close>

lemma trim_render_entry:
  "(\<exists>c s. trim (render_entry e) = c # s \<and> c \<noteq> 35) \<or> (\<exists>s. trim (render_entry e) = [35, 32, 78] @ s)"
proof (cases "host_enabled e")
  case True
  obtain c s where c: "ip_display (host_address e) = c # s" by (cases "ip_display (host_address e)")
      (use ip_display_ne in auto)
  have "ip_char c" using ip_display_ip [of "host_address e"] c by simp
  note facts = ip_char_text [OF this]
  obtain r where "render_entry e = of_char c # r" using True c by (simp add: render_entry_def utxt_def)
  then have "trim (render_entry e) = of_char c # trim_end char_is_whitespace r"
    using facts trim_end_append [of "[of_char c]" char_is_whitespace r] by (simp add: trim_def)
  then show ?thesis using facts by blast
next
  case False
  let ?d = "[35, 32, 78, 69, 84, 84, 79, 79, 76, 32, 68, 73, 83, 65, 66, 76, 69, 68]"
  obtain r where "render_entry e = ?d @ r"
    using False by (simp add: render_entry_def disabled_text)
  then have "trim (render_entry e) = ?d @ trim_end char_is_whitespace r"
    using trim_end_append [of ?d char_is_whitespace r] by (simp add: trim_def char_is_whitespace_def)
  then show ?thesis by simp
qed

lemma render_entry_no_marker:
  "no_marker pid (render_entry e)" "\<not> starts_with (utxt ''# BEGIN NETTOOL PROFILE '') (trim (render_entry e))"
  using trim_render_entry [of e]
  by (auto simp: no_marker_def begin_marker_def end_marker_def begin_text end_text starts_with_def)

lemma render_entry_chars:
  assumes "validate_entry e = Ok ()"
  shows "10 \<notin> set (render_entry e)" "13 \<notin> set (render_entry e)"
proof -
  have h: "list_all id_char (hostname e)"
    using assms by (auto simp: validate_entry_def id_char_def list_all_iff split: if_splits)
  have c: "host_comment e = Some c \<Longrightarrow> 10 \<notin> set c \<and> 13 \<notin> set c" for c
    using assms by (auto simp: validate_entry_def list_ex_iff split: if_splits)
  have i: "10 \<notin> set (utxt (ip_display a)) \<and> 13 \<notin> set (utxt (ip_display a))" for a
  proof -
    have "\<forall>c \<in> set (ip_display a). of_char c \<noteq> (10 :: nat) \<and> of_char c \<noteq> (13 :: nat)"
      using ip_display_ip [of a] ip_char_text unfolding list_all_iff by blast
    then show ?thesis unfolding utxt_def set_map by (metis imageE)
  qed
  have "10 \<notin> set (hostname e) \<and> 13 \<notin> set (hostname e)"
    using h id_char_facts by (auto simp: list_all_iff)
  then show "10 \<notin> set (render_entry e)" "13 \<notin> set (render_entry e)"
    using c i by (auto simp: render_entry_def Let_def disabled_text utxt_def [of "'' # ''"]
        utxt_def [of "'' ''"] split: option.splits)
qed

lemma marker_chars:
  assumes "profile_ok pid"
  shows "10 \<notin> set (begin_marker pid) \<and> 13 \<notin> set (begin_marker pid)"
    "10 \<notin> set (end_marker pid) \<and> 13 \<notin> set (end_marker pid)"
  using profile_okD(2) [OF assms] id_char_facts
  by (auto simp: begin_marker_def end_marker_def begin_text end_text list_all_iff)

lemma line_ok_no_cr: "10 \<notin> set l \<Longrightarrow> 13 \<notin> set l \<Longrightarrow> line_ok nl l"
  by (auto simp: line_ok_def strip_cr_def) (metis last_in_set)

lemma managed_lines_ok:
  assumes "profile_ok pid" "list_all (\<lambda>e. validate_entry e = Ok ()) es" "l \<in> set (managed_lines pid es)"
  shows "line_ok nl l" "10 \<notin> set l"
proof -
  have "10 \<notin> set l \<and> 13 \<notin> set l"
    using assms marker_chars [OF assms(1)] render_entry_chars
    by (auto simp: managed_lines_def list_all_iff)
  then show "line_ok nl l" "10 \<notin> set l" using line_ok_no_cr by auto
qed

section \<open>Replacing the section\<close>

lemma render_section_eq:
  "render_section (begin_marker pid) (end_marker pid) es nl = join_text nl (managed_lines pid es) @ nl"
  by (simp add: render_section_def managed_lines_def)

lemma split_rendered:
  assumes "newline_ok nl" "profile_ok pid" "list_all (\<lambda>e. validate_entry e = Ok ()) es"
  shows "split_on nl (trim_end (\<lambda>c. c = 13 \<or> c = 10)
      (render_section (begin_marker pid) (end_marker pid) es nl)) = managed_lines pid es"
proof -
  have ne: "managed_lines pid es \<noteq> []" "last (managed_lines pid es) = end_marker pid" "end_marker pid \<noteq> []"
    by (simp_all add: managed_lines_def end_marker_def end_text)
  have "last (end_marker pid) \<in> set (end_marker pid)" using ne(3) by simp
  then have "\<not> (last (end_marker pid) = 13 \<or> last (end_marker pid) = 10)"
    using marker_chars(2) [OF assms(2)] by metis
  then have "trim_end (\<lambda>c. c = 13 \<or> c = 10) (join_text nl (managed_lines pid es) @ nl)
      = join_text nl (managed_lines pid es) @ trim_end (\<lambda>c. c = 13 \<or> c = 10) nl"
    using last_join [OF ne(1), of nl] ne by (intro trim_end_append) simp_all
  also have "trim_end (\<lambda>c. c = 13 \<or> c = 10) nl = []"
    using assms(1) by (auto simp: newline_ok_def trim_end_all)
  finally show ?thesis
    using split_on_join [OF assms(1) ne(1)] managed_lines_ok(2) [OF assms(2,3)]
    by (simp add: render_section_eq)
qed

definition newline_of :: "utext \<Rightarrow> utext" where
  "newline_of s = (if contains [13, 10] s then [13, 10] else [10])"

lemma newline_of_ok: "newline_ok (newline_of s)"
  by (simp add: newline_of_def newline_ok_def)

lemma existing_line_ok:
  "l \<in> set (butlast (text_lines s)) \<Longrightarrow> line_ok (newline_of s) l"
  "s \<noteq> [] \<Longrightarrow> last s = 10 \<Longrightarrow> l \<in> set (text_lines s) \<Longrightarrow> line_ok (newline_of s) l"
  using text_lines_no_lf [of l s] text_lines_lf_clean [of s]
  by (auto simp: line_ok_def newline_of_def dest: in_set_butlastD)

lemma ends_with_lf: "ends_with [10] s \<longleftrightarrow> s \<noteq> [] \<and> last s = 10"
  by (cases s rule: rev_cases) (auto simp: ends_with_def)

lemma text_lines_replaced:
  assumes ls: "text_lines s = xs @ y # mid @ v # ws" and m: "\<forall>l \<in> set ms. line_ok (newline_of s) l"
    and ms: "ms \<noteq> []" "last ms \<noteq> []"
  shows "text_lines (let r = join_text (newline_of s) (xs @ ms @ ws) in
      if ends_with [10] s then r @ newline_of s else r) = xs @ ms @ ws"
proof (cases "ends_with [10] s")
  case True
  then have "\<forall>l \<in> set (xs @ ms @ ws). line_ok (newline_of s) l"
    using m existing_line_ok(2) [of s] ls by (auto simp: ends_with_lf)
  then show ?thesis
    using True text_lines_join_end [OF newline_of_ok, of "xs @ ms @ ws" s "[]"] ms by simp
next
  case False
  have "s \<noteq> []" using ls by auto
  then have l: "last (text_lines s) \<noteq> []" using False text_lines_last_ne by (auto simp: ends_with_lf)
  have last: "last (xs @ ms @ ws) \<noteq> []"
    using l ls ms by (cases "ws = []") auto
  have "\<forall>l \<in> set (butlast (xs @ ms @ ws)). line_ok (newline_of s) l"
    using m existing_line_ok(1) [of _ s] ls ms
    by (auto simp: butlast_append split: if_splits dest: in_set_butlastD)
  moreover have "10 \<notin> set (last (xs @ ms @ ws))"
  proof (cases "ws = []")
    case True
    then show ?thesis using m ms(1) by (simp add: line_ok_def)
  next
    case ws: False
    then have "last ws \<in> set (text_lines s)" using ls by simp
    then show ?thesis using text_lines_no_lf ws ms by simp
  qed
  ultimately show ?thesis
    using False text_lines_join [OF newline_of_ok, of "xs @ ms @ ws" s] last ms by simp
qed

lemma managed_lines_last: "managed_lines pid es \<noteq> [] \<and> last (managed_lines pid es) \<noteq> []"
  by (simp add: managed_lines_def end_marker_def end_text)

lemma no_marker_positions:
  "\<forall>l \<in> set ls. no_marker pid l \<Longrightarrow> positions (\<lambda>l. trim l = begin_marker pid) ls = []
     \<and> positions (\<lambda>l. trim l = end_marker pid) ls = []"
  by (auto simp: positions_Nil_iff no_marker_def)

lemma replace_present:
  assumes p: "profile_ok pid" and es: "list_all (\<lambda>e. validate_entry e = Ok ()) es"
    and ls: "text_lines s = xs @ y # mid @ v # ws"
    and y: "trim y = begin_marker pid" and v: "trim v = end_marker pid"
    and none: "\<forall>l \<in> set xs \<union> set mid \<union> set ws. no_marker pid l"
    and nested: "\<forall>l \<in> set mid. \<not> starts_with (utxt ''# BEGIN NETTOOL PROFILE '') (trim l)"
  shows "\<exists>r. replace_managed_section s pid es = Ok r \<and> text_lines r = xs @ managed_lines pid es @ ws"
proof -
  have b: "positions (\<lambda>l. trim l = begin_marker pid) (text_lines s) = [length xs]"
    unfolding ls by (rule positions_single) (use y v none markers_differ [of pid] in \<open>auto simp: no_marker_def\<close>)
  have ls': "text_lines s = (xs @ y # mid) @ v # ws" using ls by simp
  define k where "k = length (xs @ y # mid)"
  have e: "positions (\<lambda>l. trim l = end_marker pid) (text_lines s) = [k]"
    unfolding ls' k_def
    by (rule positions_single) (use y v none markers_differ [of pid] in \<open>auto simp: no_marker_def\<close>)
  have mid: "\<not> k < length xs" "slice_range (text_lines s) (Suc (length xs)) k = (Ok mid :: utext list result)"
    by (simp_all add: slice_range_def ls k_def)
  have before: "slice_to (text_lines s) (length xs) = (Ok xs :: utext list result)" by (simp add: ls)
  have after: "slice_from (text_lines s) (Suc k) = (Ok ws :: utext list result)" by (simp add: ls k_def)
  have ok: "validate_profile_id pid = Ok ()" "validate_entries es = Ok ()"
    using p es by (simp_all add: profile_ok_def validate_entries_ok)
  have nest: "\<not> list_ex (\<lambda>l. starts_with (utxt ''# BEGIN NETTOOL PROFILE '') (trim l)) mid"
    using nested by (simp add: list_ex_iff)
  let ?r = "join_text (newline_of s) (xs @ managed_lines pid es @ ws)"
  have "replace_managed_section s pid es
      = Ok (if ends_with [10] s then ?r @ newline_of s else ?r)"
    using ok b e mid before after nest split_rendered [OF newline_of_ok p es, of s]
    by (simp add: replace_managed_section_def Let_def flip: newline_of_def)
  moreover have "text_lines (if ends_with [10] s then ?r @ newline_of s else ?r)
      = xs @ managed_lines pid es @ ws"
    using text_lines_replaced [OF ls, of "managed_lines pid es"] managed_lines_ok(1) [OF p es]
      managed_lines_last [of pid es] by (simp add: Let_def)
  ultimately show ?thesis by blast
qed

lemma text_lines_append:
  "s = [] \<or> last s = 10 \<Longrightarrow> text_lines (s @ r) = text_lines s @ text_lines r"
proof (induction s rule: line_induct)
  case (last l)
  then show ?case by (metis last_in_set)
next
  case (line l r')
  then show ?case by (auto simp: text_lines_line split: if_splits)
qed simp

lemma trim_strip_cr: "trim (strip_cr l) = trim l"
proof (cases "l \<noteq> [] \<and> last l = 13")
  case True
  then obtain l' where l: "l = l' @ [13]" by (metis append_butlast_last_id)
  have ws: "char_is_whitespace 13" by (simp add: char_is_whitespace_def)
  have "trim (l' @ [13]) = trim l'"
  proof (cases "\<forall>x \<in> set l'. char_is_whitespace x")
    case True
    then have "dropWhile char_is_whitespace l' = []" "dropWhile char_is_whitespace (l' @ [13]) = []"
      using ws by (simp_all add: dropWhile_eq_Nil_conv)
    then show ?thesis by (simp only: trim_def)
  next
    case False
    then show ?thesis using ws by (auto simp: trim_def dropWhile_append trim_end_def)
  qed
  then show ?thesis by (simp add: l strip_cr_def)
next
  case False
  then show ?thesis by (auto simp: strip_cr_def)
qed

lemma no_marker_strip_cr [simp]: "no_marker pid (strip_cr l) = no_marker pid l"
  by (simp add: no_marker_def trim_strip_cr)

lemma no_marker_blank: "no_marker pid []" "no_marker pid [13]"
  by (simp_all add: no_marker_def trim_def trim_end_def char_is_whitespace_def begin_marker_def
      end_marker_def begin_text end_text)

lemma no_marker_padded:
  assumes "newline_ok nl" "\<forall>l \<in> set (text_lines s). no_marker pid l"
  shows "\<forall>l \<in> set (text_lines (s @ nl)). no_marker pid l"
  using assms(2)
proof (induction s rule: line_induct)
  case Nil
  have "text_lines ([] @ nl) = [[]]"
    using text_lines_newline [OF assms(1), of "[]" "[]"] by (simp add: line_ok_def strip_cr_def)
  then show ?case using no_marker_blank by simp
next
  case (last l)
  then show ?case
    using assms(1) text_lines_line [of l "[]"] text_lines_line [of "l @ [13]" "[]"]
    by (auto simp: newline_ok_def text_lines_last strip_cr_append)
next
  case (line l r)
  then show ?case by (simp add: text_lines_line)
qed

lemma ends_with_last: "ends_with p s \<Longrightarrow> p \<noteq> [] \<Longrightarrow> s \<noteq> [] \<and> last s = last p"
  by (auto simp: ends_with_def) (metis append_take_drop_id last_appendR)

lemma append_section_lines:
  assumes p: "profile_ok pid" and es: "list_all (\<lambda>e. validate_entry e = Ok ()) es"
    and nl: "newline_ok nl" and none: "\<forall>l \<in> set (text_lines s). no_marker pid l"
  shows "\<exists>pad. set pad \<subseteq> {10, 13}
    \<and> append_section s nl (join_text nl (managed_lines pid es) @ nl) = s @ pad @ join_text nl (managed_lines pid es) @ nl
    \<and> text_lines (s @ pad @ join_text nl (managed_lines pid es) @ nl) = text_lines (s @ pad) @ managed_lines pid es
    \<and> (\<forall>l \<in> set (text_lines (s @ pad)). no_marker pid l)"
proof -
  let ?m = "join_text nl (managed_lines pid es) @ nl"
  define s1 where "s1 = (if s \<noteq> [] \<and> \<not> (ends_with [10] s \<or> ends_with [13] s) then s @ nl else s)"
  define s2 where "s2 = (if s1 \<noteq> [] \<and> \<not> ends_with (nl @ nl) s1 then s1 @ nl else s1)"
  have app: "append_section s nl ?m = s2 @ ?m"
    by (simp add: append_section_def s1_def s2_def Let_def)
  have nls: "last nl = 10" "nl \<noteq> []" "set nl \<subseteq> {10, 13}" using nl by (auto simp: newline_ok_def)
  have "s1 = s \<or> s1 = s @ nl" "s2 = s1 \<or> s2 = s1 @ nl" by (simp_all add: s1_def s2_def)
  then have "\<exists>pad. s2 = s @ pad \<and> set pad \<subseteq> {10, 13}" using nls(3) by (elim disjE) auto
  then obtain pad where pad: "s2 = s @ pad" "set pad \<subseteq> {10, 13}" by blast
  have "s2 = [] \<or> last s2 = 10"
  proof (cases "s1 \<noteq> [] \<and> \<not> ends_with (nl @ nl) s1")
    case True
    then show ?thesis using nls by (simp add: s2_def)
  next
    case False
    then show ?thesis using ends_with_last [of "nl @ nl" s1] nls by (auto simp: s2_def)
  qed
  then have "text_lines (s2 @ ?m) = text_lines s2 @ managed_lines pid es"
    using text_lines_append [of s2 ?m] managed_lines_last [of pid es] managed_lines_ok(1) [OF p es]
      text_lines_join_end [OF nl, of "managed_lines pid es" "[]"] by simp
  moreover have "\<forall>l \<in> set (text_lines s2). no_marker pid l"
  proof -
    have "\<forall>l \<in> set (text_lines s1). no_marker pid l"
      using none no_marker_padded [OF nl none] by (simp add: s1_def)
    then show ?thesis using no_marker_padded [OF nl, of s1 pid] by (simp add: s2_def)
  qed
  ultimately show ?thesis using app pad by auto
qed

lemma replace_absent:
  assumes p: "profile_ok pid" and es: "list_all (\<lambda>e. validate_entry e = Ok ()) es"
    and none: "\<forall>l \<in> set (text_lines s). no_marker pid l"
  shows "\<exists>r pad. replace_managed_section s pid es = Ok r \<and> set pad \<subseteq> {10, 13} \<and> prefix (s @ pad) r
    \<and> text_lines r = text_lines (s @ pad) @ managed_lines pid es
    \<and> (\<forall>l \<in> set (text_lines (s @ pad)). no_marker pid l)"
proof -
  have ok: "validate_profile_id pid = Ok ()" "validate_entries es = Ok ()"
    using p es by (simp_all add: profile_ok_def validate_entries_ok)
  have "replace_managed_section s pid es =
      Ok (append_section s (newline_of s) (join_text (newline_of s) (managed_lines pid es) @ newline_of s))"
    using no_marker_positions [OF none] ok
    by (simp add: replace_managed_section_def Let_def render_section_eq flip: newline_of_def)
  then show ?thesis
    using append_section_lines [OF p es newline_of_ok none, of s] by (metis prefixI append.assoc)
qed

lemma marker_split:
  assumes eq: "ls = xs @ y # zs" "ls = us @ v # ws" and ne: "y \<noteq> v" and le: "length xs \<le> length us"
  obtains mid where "us = xs @ y # mid" "zs = mid @ v # ws"
proof -
  have "xs @ y # zs = us @ v # ws" using eq by simp
  then consider t where "xs = us @ t" "t @ y # zs = v # ws" | t where "xs @ t = us" "y # zs = t @ v # ws"
    by (auto simp: append_eq_append_conv2)
  then show ?thesis
  proof cases
    case (1 t)
    then have "t = []" using le by simp
    then show ?thesis using 1 ne by simp
  next
    case (2 t)
    then show ?thesis using ne that by (cases t) auto
  qed
qed

lemma replace_okD:
  assumes "replace_managed_section s pid es = Ok r"
  shows "profile_ok pid \<and> list_all (\<lambda>e. validate_entry e = Ok ()) es
    \<and> ((\<forall>l \<in> set (text_lines s). no_marker pid l)
       \<or> (\<exists>xs y mid v ws. text_lines s = xs @ y # mid @ v # ws \<and> trim y = begin_marker pid
            \<and> trim v = end_marker pid \<and> (\<forall>l \<in> set xs \<union> set mid \<union> set ws. no_marker pid l)
            \<and> (\<forall>l \<in> set mid. \<not> starts_with (utxt ''# BEGIN NETTOOL PROFILE '') (trim l))))"
proof -
  let ?ls = "text_lines s"
  let ?B = "\<lambda>l. trim l = begin_marker pid" and ?E = "\<lambda>l. trim l = end_marker pid"
  have ok: "validate_profile_id pid = Ok ()" "validate_entries es = Ok ()"
    using assms by (auto simp: replace_managed_section_def outcome_simps)
  have valid: "profile_ok pid \<and> list_all (\<lambda>e. validate_entry e = Ok ()) es"
    using ok by (simp add: profile_ok_def validate_entries_ok)
  have len: "length (positions ?B ?ls) \<le> 1" "length (positions ?E ?ls) \<le> 1"
    "length (positions ?B ?ls) = length (positions ?E ?ls)"
    using assms ok by (auto simp: replace_managed_section_def Let_def split: if_splits)
  show ?thesis
  proof (cases "positions ?B ?ls = []")
    case True
    then have "positions ?E ?ls = []" using len by simp
    then show ?thesis using True valid by (auto simp: positions_Nil_iff no_marker_def)
  next
    case False
    then have E: "positions ?E ?ls \<noteq> []" using len by auto
    obtain xs y zs where b: "?ls = xs @ y # zs" "?B y" "\<forall>l \<in> set xs. \<not> ?B l" "\<forall>l \<in> set zs. \<not> ?B l"
      using positions_first [OF False] len(1) by metis
    obtain us v ws where e: "?ls = us @ v # ws" "?E v" "\<forall>l \<in> set us. \<not> ?E l" "\<forall>l \<in> set ws. \<not> ?E l"
      using positions_first [OF E] len(2) by metis
    have pb: "positions ?B ?ls = [length xs]" unfolding b(1) by (rule positions_single) (use b in auto)
    have pe: "positions ?E ?ls = [length us]" unfolding e(1) by (rule positions_single) (use e in auto)
    have ne: "y \<noteq> v" using b(2) e(2) markers_differ [of pid] by auto
    have le: "length xs \<le> length us" and
      sl: "\<exists>m. slice_range ?ls (Suc (length xs)) (length us) = (Ok m :: utext list result)
        \<and> \<not> list_ex (\<lambda>l. starts_with (utxt ''# BEGIN NETTOOL PROFILE '') (trim l)) m"
      using assms ok pb pe
      by (auto simp: replace_managed_section_def Let_def outcome_simps split: if_splits)
    obtain mid where mid: "us = xs @ y # mid" "zs = mid @ v # ws"
      using marker_split [OF b(1) e(1) ne le] by blast
    have "slice_range ?ls (Suc (length xs)) (length us) = (Ok mid :: utext list result)"
      by (simp add: slice_range_def b(1) mid)
    then have "\<forall>l \<in> set mid. \<not> starts_with (utxt ''# BEGIN NETTOOL PROFILE '') (trim l)"
      using sl by (auto simp: list_ex_iff)
    moreover have "?ls = xs @ y # mid @ v # ws" using b(1) mid by simp
    moreover have "\<forall>l \<in> set xs \<union> set mid \<union> set ws. no_marker pid l"
      using b(3,4) e(3,4) mid by (auto simp: no_marker_def)
    ultimately show ?thesis using valid b(2) e(2) by blast
  qed
qed

lemma hosts_section_replaced_lines:
  assumes "replace_managed_section s pid es = Ok r"
  shows "\<exists>before after. text_lines r = before @ managed_lines pid es @ after
    \<and> (\<forall>l \<in> set before \<union> set after. no_marker pid l)
    \<and> ((\<exists>b mid e. text_lines s = before @ b # mid @ e # after
          \<and> trim b = begin_marker pid \<and> trim e = end_marker pid)
       \<or> (\<forall>l \<in> set (text_lines s). no_marker pid l) \<and> after = [] \<and> prefix s r)"
proof -
  have p: "profile_ok pid" and es: "list_all (\<lambda>e. validate_entry e = Ok ()) es"
    using replace_okD [OF assms] by auto
  from replace_okD [OF assms] consider
    (absent) "\<forall>l \<in> set (text_lines s). no_marker pid l"
    | (present) xs y mid v ws where "text_lines s = xs @ y # mid @ v # ws" "trim y = begin_marker pid"
        "trim v = end_marker pid" "\<forall>l \<in> set xs \<union> set mid \<union> set ws. no_marker pid l"
        "\<forall>l \<in> set mid. \<not> starts_with (utxt ''# BEGIN NETTOOL PROFILE '') (trim l)"
    by blast
  then show ?thesis
  proof cases
    case absent
    obtain pad where "prefix (s @ pad) r" "text_lines r = text_lines (s @ pad) @ managed_lines pid es"
      "\<forall>l \<in> set (text_lines (s @ pad)). no_marker pid l"
      using replace_absent [OF p es absent] assms by auto
    then show ?thesis using absent
      by (intro exI [of _ "text_lines (s @ pad)"] exI [of _ "[]"]) (auto dest: append_prefixD)
  next
    case present
    then have "text_lines r = xs @ managed_lines pid es @ ws"
      using replace_present [OF p es present] assms by auto
    then show ?thesis using present by blast
  qed
qed

text \<open>
  C36.  Replacing a profile's section keeps everything else: on success the lines of the new file are
  some lines before, the rendered section, and some lines after, with no other marker of that profile;
  if there was a section, exactly its lines from marker to marker were replaced; if there was none, the
  old text is kept as it was, character by character, in front of the appended section.
\<close>

theorem hosts_section_replaced:
  assumes "replace_managed_section s pid es = Ok r"
  shows "\<exists>before after. text_lines r = before @ managed_lines pid es @ after
    \<and> (\<forall>l \<in> set before \<union> set after. no_marker pid l)
    \<and> ((\<exists>b mid e. text_lines s = before @ b # mid @ e # after
          \<and> trim b = begin_marker pid \<and> trim e = end_marker pid)
       \<or> (\<forall>l \<in> set (text_lines s). no_marker pid l) \<and> after = [] \<and> prefix s r)"
  by (rule hosts_section_replaced_lines [OF assms])

definition sample_entry :: managed_hosts_entry where
  "sample_entry =
     \<lparr>host_address = V4 0xc0000201, hostname = utxt ''api.lab'', host_comment = None, host_enabled = True\<rparr>"

lemma sample_entry_valid: "validate_entry sample_entry = Ok ()" "profile_ok (utxt ''lab'')"
  by code_simp+

lemma sample_hosts: "\<forall>l \<in> set (text_lines [35, 10]). no_marker pid l"
  by (simp add: text_lines_def line_content_def strip_cr_def no_marker_def trim_def trim_end_def
      char_is_whitespace_def begin_marker_def end_marker_def begin_text end_text)

theorem hosts_section_replaced_witness:
  "\<exists>r before after. replace_managed_section [35, 10] (utxt ''lab'') [sample_entry] = Ok r
    \<and> text_lines r = before @ managed_lines (utxt ''lab'') [sample_entry] @ after \<and> prefix [35, 10] r"
proof -
  have none: "\<forall>l \<in> set (text_lines [35, 10]). no_marker (utxt ''lab'') l"
    by (rule sample_hosts)
  obtain r where r: "replace_managed_section [35, 10] (utxt ''lab'') [sample_entry] = Ok r"
    using replace_absent [OF sample_entry_valid(2) _ none, of "[sample_entry]"] sample_entry_valid(1) by auto
  have "\<not> (\<exists>l \<in> set (text_lines [35, 10]). trim l = begin_marker (utxt ''lab''))"
    using none by (auto simp: no_marker_def)
  then show ?thesis using hosts_section_replaced [OF r] r
    by (metis in_set_conv_decomp)
qed

text \<open>
  C37.  A managed section can always be replaced again: after a successful replacement a second one
  with any valid entries succeeds, and leaves the lines around the section as they are, so that
  switching a profile on and off never loses or duplicates anything.
\<close>

theorem hosts_replace_again:
  assumes "replace_managed_section s pid es = Ok r" "validate_entries es' = Ok ()"
  shows "\<exists>r' before after. replace_managed_section r pid es' = Ok r'
    \<and> text_lines r = before @ managed_lines pid es @ after
    \<and> text_lines r' = before @ managed_lines pid es' @ after"
proof -
  have p: "profile_ok pid" using replace_okD [OF assms(1)] by auto
  have es': "list_all (\<lambda>e. validate_entry e = Ok ()) es'" using assms(2) by (simp add: validate_entries_ok)
  obtain before after where l: "text_lines r = before @ managed_lines pid es @ after"
    "\<forall>l \<in> set before \<union> set after. no_marker pid l"
    using hosts_section_replaced_lines [OF assms(1)] by blast
  have l': "text_lines r = before @ begin_marker pid # map render_entry es @ end_marker pid # after"
    using l(1) by (simp add: managed_lines_def)
  obtain r' where "replace_managed_section r pid es' = Ok r'"
    "text_lines r' = before @ managed_lines pid es' @ after"
    using replace_present [OF p es' l' trim_marker [OF p]] l(2) render_entry_no_marker by auto
  then show ?thesis using l(1) by blast
qed

theorem hosts_replace_again_witness:
  "\<exists>r r' before after. replace_managed_section [35, 10] (utxt ''lab'') [sample_entry] = Ok r
    \<and> replace_managed_section r (utxt ''lab'') [] = Ok r'
    \<and> text_lines r' = before @ managed_lines (utxt ''lab'') [] @ after"
proof -
  have none: "\<forall>l \<in> set (text_lines [35, 10]). no_marker (utxt ''lab'') l"
    by (rule sample_hosts)
  obtain r where r: "replace_managed_section [35, 10] (utxt ''lab'') [sample_entry] = Ok r"
    using replace_absent [OF sample_entry_valid(2) _ none, of "[sample_entry]"] sample_entry_valid(1) by auto
  then show ?thesis using hosts_replace_again [OF r, of "[]"] by auto
qed

text \<open>
  Only the lines outside the section are kept, not their terminators: in a file that mixes both
  styles every line feed becomes a carriage return and a line feed, although the function is
  documented to keep everything outside the section.
\<close>

lemma mixed_newlines_rewritten:
  "replace_managed_section ([97, 10] @ begin_marker (utxt ''p'') @ [13, 10] @ end_marker (utxt ''p'') @ [13, 10])
     (utxt ''p'') []
   = Ok ([97, 13, 10] @ begin_marker (utxt ''p'') @ [13, 10] @ end_marker (utxt ''p'') @ [13, 10])"
proof -
  have pid: "utxt ''p'' = [112]" by code_simp
  show ?thesis
    by (simp add: replace_managed_section_def pid validate_profile_id_def ascii_alphanumeric_def
        begin_marker_def end_marker_def begin_text end_text starts_with_def text_lines_def
        line_content_def strip_cr_def positions_def trim_def trim_end_def char_is_whitespace_def
        slice_range_def render_section_def split_on.simps ends_with_def)
qed

end
