(* ===== verification/Helper_Protocol.thy ===== *)
theory Helper_Protocol
  imports Error_Model Ip_Text
begin

text \<open>
  The request contract of the privileged helper (src/crates/helper-protocol/src/lib.rs) with the
  configuration types it carries (src/crates/domain/src/model.rs): the closed set of operations, the
  validation of their arguments, and the shape check of a network state on the wire.  Validation
  errors are static strings.  JSON values come from a library; a value is the tree that library
  gives, with its numbers left abstract, and its typed deserializer is a parameter.
\<close>

type_synonym 'a checked = "(string, 'a) outcome"

section \<open>Configuration types\<close>

record ip_prefix =
  prefix_address :: ip_addr
  prefix_length :: u8

datatype ipv4_configuration = Dhcp | StaticV4 "ip_prefix list" | DisabledV4

datatype ipv6_configuration = Automatic | StaticV6 "ip_prefix list" | DisabledV6

record dns_configuration =
  dns_automatic :: bool
  dns_servers :: "ip_addr list"
  search_domains :: "string list"

record route_configuration =
  route_destination :: ip_prefix
  route_gateway :: "ip_addr option"
  route_metric :: "u32 option"

record network_desired_state =
  state_ipv4 :: ipv4_configuration
  state_ipv6 :: ipv6_configuration
  state_dns :: dns_configuration
  state_routes :: "route_configuration list"
  state_mtu :: "u32 option"

section \<open>Validation of a network state\<close>

fun is_unspecified :: "ip_addr \<Rightarrow> bool" where
  "is_unspecified (V4 a) = (a = 0)"
| "is_unspecified (V6 a) = (a = 0)"

definition validate_prefix :: "ip_prefix \<Rightarrow> bool \<Rightarrow> unit checked" where
  "validate_prefix prefix ipv4 =
     (let family_matches = (is_ipv4 (prefix_address prefix) = ipv4);
          maximum = (if ipv4 then 32 else 128) in
      if \<not> family_matches \<or> prefix_length prefix > maximum \<or> is_unspecified (prefix_address prefix) then
        Err ''IP prefix address family or length is invalid''
      else Ok ())"

fun validate_prefix_loop ::
  "bool \<Rightarrow> (ip_addr \<times> u8) list \<Rightarrow> ip_prefix list \<Rightarrow> unit checked" where
  "validate_prefix_loop ipv4 unique [] = Ok ()"
| "validate_prefix_loop ipv4 unique (p # ps) =
     and_then (validate_prefix p ipv4) (\<lambda>_.
     if (prefix_address p, prefix_length p) \<in> set unique then
       Err ''duplicate static address is not allowed''
     else validate_prefix_loop ipv4 ((prefix_address p, prefix_length p) # unique) ps)"

definition validate_prefixes :: "ip_prefix list \<Rightarrow> bool \<Rightarrow> unit checked" where
  "validate_prefixes prefixes ipv4 =
     (if prefixes = [] \<or> length prefixes > 16 then
        Err ''static address count must be between one and sixteen''
      else validate_prefix_loop ipv4 [] prefixes)"

type_synonym route_identity = "ip_addr \<times> u8 \<times> ip_addr option \<times> u32 option"

definition identity_of_route :: "route_configuration \<Rightarrow> route_identity" where
  "identity_of_route r =
     (prefix_address (route_destination r), prefix_length (route_destination r), route_gateway r,
      route_metric r)"

fun validate_routes :: "route_identity list \<Rightarrow> route_configuration list \<Rightarrow> unit checked" where
  "validate_routes seen [] = Ok ()"
| "validate_routes seen (r # rs) =
     and_then (validate_prefix (route_destination r) (is_ipv4 (prefix_address (route_destination r)))) (\<lambda>_.
     if (case route_gateway r of None \<Rightarrow> False
         | Some g \<Rightarrow> is_ipv4 g \<noteq> is_ipv4 (prefix_address (route_destination r)) \<or> is_unspecified g) then
       Err ''route gateway address family is invalid''
     else if identity_of_route r \<in> set seen then Err ''duplicate route is not allowed''
     else validate_routes (identity_of_route r # seen) rs)"

definition valid_domain :: "string \<Rightarrow> bool" where
  "valid_domain domain \<longleftrightarrow>
     domain \<noteq> [] \<and> length domain \<le> 253 \<and> hd domain \<noteq> CHR ''.'' \<and> last domain \<noteq> CHR ''.''
     \<and> list_all (\<lambda>label. label \<noteq> [] \<and> length label \<le> 63 \<and> hd label \<noteq> CHR ''-'' \<and> last label \<noteq> CHR ''-''
          \<and> list_all (\<lambda>b. ascii_alnum b \<or> b = CHR ''-'') label) (split_char CHR ''.'' domain)"

definition validate_static_ipv4 :: "ipv4_configuration \<Rightarrow> unit checked" where
  "validate_static_ipv4 config =
     (case config of StaticV4 addresses \<Rightarrow> validate_prefixes addresses True | _ \<Rightarrow> Ok ())"

definition validate_static_ipv6 :: "ipv6_configuration \<Rightarrow> unit checked" where
  "validate_static_ipv6 config =
     (case config of StaticV6 addresses \<Rightarrow> validate_prefixes addresses False | _ \<Rightarrow> Ok ())"

definition validate_state :: "network_desired_state \<Rightarrow> unit checked" where
  "validate_state self =
     and_then (validate_static_ipv4 (state_ipv4 self)) (\<lambda>_.
     and_then (validate_static_ipv6 (state_ipv6 self)) (\<lambda>_.
     if length (state_routes self) > 256 then Err ''route count exceeds limit''
     else
       and_then (validate_routes [] (state_routes self)) (\<lambda>_.
       if length (dns_servers (state_dns self)) > 16 \<or> length (search_domains (state_dns self)) > 32 then
         Err ''DNS configuration exceeds limit''
       else if list_ex is_unspecified (dns_servers (state_dns self)) then
         Err ''DNS server must not be unspecified''
       else if list_ex (\<lambda>d. \<not> valid_domain d) (search_domains (state_dns self)) then
         Err ''DNS search domain is invalid''
       else if (case state_mtu self of None \<Rightarrow> False | Some mtu \<Rightarrow> mtu < 576 \<or> mtu > 65535) then
         Err ''MTU must be between 576 and 65535''
       else Ok ())))"

section \<open>Operations\<close>

record wire_hosts_entry =
  wire_address :: string
  wire_hostname :: string
  wire_comment :: "string option"
  wire_enabled :: bool

datatype privileged_operation =
    NetworkReadState string
  | NetworkApply string network_desired_state u64
  | NetworkRestore string
  | HostsRead
  | HostsBackup
  | HostsRestore
  | HostsAtomicReplace string "wire_hosts_entry list"
  | NicPrepareDpdk string
  | NicRestoreDriver string string
  | HugepagePrepare "u32 option" u64 u64
  | HugepageRelease string
  | SafeApplyConfirm string
  | SafeApplyRollback string
  | SafeApplyListPending

fun operation_name :: "privileged_operation \<Rightarrow> string" where
  "operation_name (NetworkReadState _) = ''network.read_state''"
| "operation_name (NetworkApply _ _ _) = ''network.apply''"
| "operation_name (NetworkRestore _) = ''network.restore''"
| "operation_name HostsRead = ''hosts.read''"
| "operation_name HostsBackup = ''hosts.backup''"
| "operation_name HostsRestore = ''hosts.restore''"
| "operation_name (HostsAtomicReplace _ _) = ''hosts.atomic_replace''"
| "operation_name (NicPrepareDpdk _) = ''nic.prepare_dpdk''"
| "operation_name (NicRestoreDriver _ _) = ''nic.restore_driver''"
| "operation_name (HugepagePrepare _ _ _) = ''hugepage.prepare''"
| "operation_name (HugepageRelease _) = ''hugepage.release''"
| "operation_name (SafeApplyConfirm _) = ''safe_apply.confirm''"
| "operation_name (SafeApplyRollback _) = ''safe_apply.rollback''"
| "operation_name SafeApplyListPending = ''safe_apply.list_pending''"

definition non_empty :: "string \<Rightarrow> unit checked" where
  "non_empty value =
     (if str_blank value \<or> length value > 256
         \<or> list_ex (\<lambda>c. c = 0 \<or> char_is_control c) (utf8_chars value) then
        Err ''required identifier is empty''
      else Ok ())"

text \<open>The indexing is guarded by the length test in front of it.\<close>

definition pci_shape :: "string \<Rightarrow> bool" where
  "pci_shape value \<longleftrightarrow>
     length value = 12 \<and> value ! 4 = CHR '':'' \<and> value ! 7 = CHR '':'' \<and> value ! 10 = CHR ''.''
     \<and> list_all (\<lambda>(i, b). i \<in> {4, 7, 10} \<or> ascii_hexdigit b) (enumerate 0 value)"

definition validate_pci_address :: "string \<Rightarrow> unit checked" where
  "validate_pci_address value =
     (if pci_shape value then Ok () else Err ''PCI address must use dddd:bb:ss.f format'')"

fun validate_hosts_loop :: "wire_hosts_entry list \<Rightarrow> unit checked" where
  "validate_hosts_loop [] = Ok ()"
| "validate_hosts_loop (e # es) =
     (if parse_ip (wire_address e) = None then Err ''hosts entry address is invalid''
      else if wire_hostname e = [] \<or> length (wire_hostname e) > 253
          \<or> \<not> list_all (\<lambda>c. ascii_alnum c \<or> c \<in> set ''-._'') (wire_hostname e) then
        Err ''hosts entry hostname is invalid''
      else if (case wire_comment e of None \<Rightarrow> False
               | Some c \<Rightarrow> list_ex (\<lambda>x. x = CHR 0x0D \<or> x = CHR 0x0A) c) then
        Err ''hosts entry comment contains a newline''
      else validate_hosts_loop es)"

definition validate_hosts :: "string \<Rightarrow> wire_hosts_entry list \<Rightarrow> unit checked" where
  "validate_hosts profile_id entries =
     (if profile_id = [] \<or> \<not> list_all (\<lambda>c. ascii_alnum c \<or> c \<in> set ''-_'') profile_id then
        Err ''hosts profile ID contains unsupported characters''
      else if length entries > 10000 then Err ''managed hosts entry count exceeds limit''
      else validate_hosts_loop entries)"

definition validate_hugepages :: "u64 \<Rightarrow> u64 \<Rightarrow> unit checked" where
  "validate_hugepages pages page_size_kib =
     (if pages = 0 \<or> page_size_kib = 0 then Err ''huge page count and size must be non-zero''
      else if (case checked_mul pages page_size_kib of
                 None \<Rightarrow> True | Some total_kib \<Rightarrow> total_kib > 1073741824) then
        Err ''requested huge page capacity exceeds one TiB safety limit''
      else Ok ())"

definition validate_operation :: "privileged_operation \<Rightarrow> unit checked" where
  "validate_operation self =
     (case self of
        NetworkReadState interface_id \<Rightarrow> non_empty interface_id
      | NetworkRestore snapshot_id \<Rightarrow> non_empty snapshot_id
      | NetworkApply interface_id desired_state confirm_timeout_seconds \<Rightarrow>
          and_then (non_empty interface_id) (\<lambda>_.
          if confirm_timeout_seconds < 10 \<or> confirm_timeout_seconds > 600 then
            Err ''confirm timeout must be between 10 and 600 seconds''
          else validate_state desired_state)
      | HostsAtomicReplace profile_id entries \<Rightarrow> validate_hosts profile_id entries
      | NicPrepareDpdk pci_address \<Rightarrow> validate_pci_address pci_address
      | NicRestoreDriver pci_address prepare_operation_id \<Rightarrow>
          and_then (validate_pci_address pci_address) (\<lambda>_. non_empty prepare_operation_id)
      | HugepagePrepare _ pages page_size_kib \<Rightarrow> validate_hugepages pages page_size_kib
      | HugepageRelease operation_id \<Rightarrow> non_empty operation_id
      | SafeApplyConfirm operation_id \<Rightarrow> non_empty operation_id
      | SafeApplyRollback operation_id \<Rightarrow> non_empty operation_id
      | _ \<Rightarrow> Ok ())"

section \<open>Requests and responses\<close>

record caller_identity =
  principal :: string
  process_id :: "u32 option"

record privileged_wire_request =
  wire_request_id :: string
  wire_operation_id :: string
  wire_operation :: privileged_operation
  wire_dry_run :: bool

record privileged_request =
  request_id :: string
  request_operation_id :: string
  request_caller :: caller_identity
  request_operation :: privileged_operation
  request_dry_run :: bool

definition authenticate :: "privileged_wire_request \<Rightarrow> caller_identity \<Rightarrow> privileged_request" where
  "authenticate self caller =
     \<lparr>request_id = wire_request_id self, request_operation_id = wire_operation_id self,
      request_caller = caller, request_operation = wire_operation self,
      request_dry_run = wire_dry_run self\<rparr>"

record privileged_error =
  error_code_text :: string
  error_message :: string
  error_retryable :: bool

record 'v privileged_response =
  response_id :: string
  response_result :: "'v option"
  response_error :: "privileged_error option"

section \<open>The shape of a network state on the wire\<close>

datatype 'n json =
    JNull | JBool bool | JNumber 'n | JString string | JArray "'n json list"
  | JObject "(string \<times> 'n json) list"

fun as_object :: "'n json \<Rightarrow> (string \<times> 'n json) list option" where
  "as_object (JObject fs) = Some fs"
| "as_object _ = None"

fun as_array :: "'n json \<Rightarrow> 'n json list option" where
  "as_array (JArray xs) = Some xs"
| "as_array _ = None"

fun as_string :: "'n json \<Rightarrow> string option" where
  "as_string (JString s) = Some s"
| "as_string _ = None"

definition validate_keys :: "'n json \<Rightarrow> string list \<Rightarrow> unit checked" where
  "validate_keys value allowed =
     and_then (ok_or ''configuration item must be an object'' (as_object value)) (\<lambda>fields.
     if list_ex (\<lambda>(key, _). key \<notin> set allowed) fields then
       Err ''configuration contains an unknown field''
     else Ok ())"

fun validate_each :: "('a \<Rightarrow> unit checked) \<Rightarrow> 'a list \<Rightarrow> unit checked" where
  "validate_each f [] = Ok ()"
| "validate_each f (x # xs) = and_then (f x) (\<lambda>_. validate_each f xs)"

definition validate_ip_configuration :: "'n json option \<Rightarrow> bool \<Rightarrow> unit checked" where
  "validate_ip_configuration value_opt ipv4 =
     and_then (ok_or ''IP configuration is required'' value_opt) (\<lambda>value.
     and_then (ok_or ''IP configuration must be an object'' (as_object value)) (\<lambda>fields.
     and_then (ok_or ''IP configuration mode is required''
         (Option.bind (map_of fields ''mode'') as_string)) (\<lambda>mode.
     let static_mode = (mode = ''static'');
         allowed_mode = (if ipv4 then mode \<in> {''dhcp'', ''static'', ''disabled''}
                         else mode \<in> {''automatic'', ''static'', ''disabled''}) in
     if \<not> allowed_mode then Err ''IP configuration mode is invalid''
     else
       and_then (validate_keys value (if static_mode then [''mode'', ''addresses''] else [''mode''])) (\<lambda>_.
       if static_mode then
         and_then (ok_or ''static addresses must be an array''
             (Option.bind (map_of fields ''addresses'') as_array)) (\<lambda>addresses.
           validate_each (\<lambda>a. validate_keys a [''address'', ''prefix_length'']) addresses)
       else Ok ()))))"

definition validate_route_shape :: "'n json \<Rightarrow> unit checked" where
  "validate_route_shape route =
     and_then (validate_keys route [''destination'', ''gateway'', ''metric'']) (\<lambda>_.
     and_then (ok_or ''route destination is required''
         (Option.bind (as_object route) (\<lambda>fs. map_of fs ''destination''))) (\<lambda>destination.
       validate_keys destination [''address'', ''prefix_length'']))"

definition validate_wire_shape :: "'n json \<Rightarrow> unit checked" where
  "validate_wire_shape value =
     and_then (validate_keys value [''ipv4'', ''ipv6'', ''dns'', ''routes'', ''mtu'']) (\<lambda>_.
     and_then (ok_or ''network state must be an object'' (as_object value)) (\<lambda>fields.
     and_then (validate_ip_configuration (map_of fields ''ipv4'') True) (\<lambda>_.
     and_then (validate_ip_configuration (map_of fields ''ipv6'') False) (\<lambda>_.
     and_then (ok_or ''DNS configuration is required'' (map_of fields ''dns'')) (\<lambda>dns.
     and_then (validate_keys dns [''automatic'', ''servers'', ''search_domains'']) (\<lambda>_.
     and_then (ok_or ''routes must be an array'' (Option.bind (map_of fields ''routes'') as_array)) (\<lambda>routes.
       validate_each validate_route_shape routes)))))))"

text \<open>
  \<open>deserialize\<close>: the shape is checked before the derived deserializer \<open>from_value\<close> sees the value.
\<close>

definition deserialize_state ::
  "('n json \<Rightarrow> network_desired_state checked) \<Rightarrow> 'n json \<Rightarrow> network_desired_state checked" where
  "deserialize_state from_value value =
     and_then (validate_wire_shape value) (\<lambda>_. from_value value)"

section \<open>What validation accepts\<close>










lemma validate_hugepages_ok:
  "validate_hugepages pages size_kib = Ok () \<longleftrightarrow>
     0 < unat pages \<and> 0 < unat size_kib \<and> unat pages * unat size_kib \<le> 2 ^ 30"
proof -
  have ne: "w \<noteq> 0 \<longleftrightarrow> 0 < unat w" for w :: u64 by (simp add: unat_gt_0)
  show ?thesis
  proof (cases "unat pages * unat size_kib < 2 ^ 64")
    case True
    then have "unat (pages * size_kib) = unat pages * unat size_kib"
      by (simp add: unat_mult_noovf)
    then show ?thesis
      using True by (auto simp: validate_hugepages_def checked_mul_def word_less_nat_alt not_less ne)
  next
    case False
    then show ?thesis by (auto simp: validate_hugepages_def checked_mul_def)
  qed
qed

end
