(* ===== verification/Safe_Apply.thy ===== *)
theory Safe_Apply
  imports Helper_Protocol
begin

text \<open>
  Safe Apply (src/crates/helper-core/src/lib.rs): network changes as transactions with a persisted
  snapshot and deadline, rolled back unless they are confirmed in time.

  One record holds the manager's list together with its environment: the platform executor's state
  (\<open>'x\<close>, operated through the functions of the \<open>NetworkExecutor\<close> trait), the state file as last
  renamed into place, the audit log, the clock, and the outcomes of the file system calls to come.
  Each file system call takes the next outcome (\<open>None\<close>, or the end of the list, is success; \<open>Some\<close>
  an error), so every sequence of failures is covered.  The JSON codec of the state file and the
  hash of a JSON value are parameters.
\<close>

section \<open>State\<close>

datatype safe_apply_state =
  Prepared | PendingConfirmation | Confirmed | RollingBack | RolledBack | SafeApplyFailed

record pending_safe_apply =
  operation_id :: string
  target_interface :: string
  snapshot_id :: string
  deadline_unix_seconds :: u64
  apply_state :: safe_apply_state
  old_state_hash :: string
  new_state_hash :: string

record ('x, 'v) network_executor =
  read_state :: "'x \<Rightarrow> string \<Rightarrow> 'v result \<times> 'x"
  snapshot :: "'x \<Rightarrow> string \<Rightarrow> (string \<times> 'v) result \<times> 'x"
  apply_network :: "'x \<Rightarrow> string \<Rightarrow> network_desired_state \<Rightarrow> unit result \<times> 'x"
  verify_network :: "'x \<Rightarrow> string \<Rightarrow> network_desired_state \<Rightarrow> unit result \<times> 'x"
  restore :: "'x \<Rightarrow> string \<Rightarrow> unit result \<times> 'x"

record ('b, 'v) state_codec =
  encode_state :: "pending_safe_apply list \<Rightarrow> (string, 'b) outcome"
  decode_state :: "'b \<Rightarrow> (string, pending_safe_apply list) outcome"
  encode_event :: "string \<Rightarrow> (string, 'b) outcome"
  hash_desired :: "network_desired_state \<Rightarrow> string result"
  hash_value :: "'v \<Rightarrow> string result"

record audit_event =
  event_time :: u64
  event_operation_id :: string
  event_target :: string
  event_old_hash :: string
  event_new_hash :: string
  event_result :: string

record ('x, 'b) safe_apply_manager =
  pending_records :: "pending_safe_apply list"
  executor :: 'x
  state_file :: "'b option"
  audit_log :: "audit_event list"
  clock :: u64
  io_outcomes :: "string option list"

record begin_safe_apply =
  begin_operation_id :: string
  begin_interface_id :: string
  begin_desired_state :: network_desired_state
  begin_timeout_seconds :: u64
  begin_now :: u64

definition is_pending :: "safe_apply_state \<Rightarrow> bool" where
  "is_pending state = (state \<in> {Prepared, PendingConfirmation, RollingBack})"

definition helper_io_error :: "string \<Rightarrow> nettool_error" where
  "helper_io_error e = new_error PersistenceFailed (''helper persistence failed: '' @ e) True"

definition state_error :: "string \<Rightarrow> nettool_error" where
  "state_error e = new_error PersistenceFailed (''helper state is invalid: '' @ e) False"

section \<open>Persistence\<close>

text \<open>Sequencing of operations that return a result and the next state: \<open>?\<close> in a method.\<close>

fun seq_st :: "('e, 'a) outcome \<times> 's \<Rightarrow> ('a \<Rightarrow> 's \<Rightarrow> ('e, 'c) outcome \<times> 's) \<Rightarrow> ('e, 'c) outcome \<times> 's" where
  "seq_st (Ok x, s) f = f x s"
| "seq_st (Err e, s) f = (Err e, s)"
| "seq_st (Panic, s) f = (Panic, s)"

definition io_call :: "('x, 'b) safe_apply_manager \<Rightarrow> unit result \<times> ('x, 'b) safe_apply_manager" where
  "io_call self =
     (case io_outcomes self of
        [] \<Rightarrow> (Ok (), self)
      | None # rest \<Rightarrow> (Ok (), self\<lparr>io_outcomes := rest\<rparr>)
      | Some e # rest \<Rightarrow> (Err (helper_io_error e), self\<lparr>io_outcomes := rest\<rparr>))"

definition sync_parent :: "('x, 'b) safe_apply_manager \<Rightarrow> unit result \<times> ('x, 'b) safe_apply_manager" where
  "sync_parent self = seq_st (io_call self) (\<lambda>_ self. io_call self)"

text \<open>
  \<open>persist\<close>: create the directory and serialize, then open, write and sync the temporary file, rename
  it over the state file and sync the directory.
\<close>

definition replace_file ::
  "'b \<Rightarrow> ('x, 'b) safe_apply_manager \<Rightarrow> unit result \<times> ('x, 'b) safe_apply_manager" where
  "replace_file bytes self =
     seq_st (io_call self) (\<lambda>_ self.
     seq_st (io_call self) (\<lambda>_ self.
     seq_st (io_call self) (\<lambda>_ self.
     seq_st (io_call self) (\<lambda>_ self.
     sync_parent (self\<lparr>state_file := Some bytes\<rparr>)))))"

definition persist ::
  "('b, 'v) state_codec \<Rightarrow> ('x, 'b) safe_apply_manager \<Rightarrow> unit result \<times> ('x, 'b) safe_apply_manager" where
  "persist codec self =
     seq_st (io_call self) (\<lambda>_ self.
     seq_st (map_err state_error (encode_state codec (pending_records self)), self) (\<lambda>bytes self.
     replace_file bytes self))"

definition audit ::
  "('b, 'v) state_codec \<Rightarrow> ('x, 'b) safe_apply_manager \<Rightarrow> pending_safe_apply \<Rightarrow> string
     \<Rightarrow> unit result \<times> ('x, 'b) safe_apply_manager" where
  "audit codec self record outcome_name =
     seq_st (io_call self) (\<lambda>_ self.
     seq_st (io_call self) (\<lambda>_ self.
     seq_st (map_err state_error (encode_event codec outcome_name), self) (\<lambda>_ self.
     seq_st (io_call self) (\<lambda>_ self.
     io_call (self\<lparr>audit_log := audit_log self @
        [\<lparr>event_time = clock self, event_operation_id = operation_id record,
          event_target = target_interface record, event_old_hash = old_state_hash record,
          event_new_hash = new_state_hash record, event_result = outcome_name\<rparr>]\<rparr>)))))"

definition open_manager ::
  "('b, 'v) state_codec \<Rightarrow> ('x, 'b) safe_apply_manager \<Rightarrow> unit result \<times> ('x, 'b) safe_apply_manager" where
  "open_manager codec self =
     seq_st (io_call self) (\<lambda>_ self.
     case state_file self of
       None \<Rightarrow> (Ok (), self\<lparr>pending_records := []\<rparr>)
     | Some bytes \<Rightarrow>
         seq_st (map_err state_error (decode_state codec bytes), self) (\<lambda>ps self.
           (Ok (), self\<lparr>pending_records := ps\<rparr>)))"

definition find_active ::
  "('x, 'b) safe_apply_manager \<Rightarrow> string \<Rightarrow> pending_safe_apply result" where
  "find_active self oid =
     ok_or (new_error InvalidState ''Safe Apply operation is not pending'' False)
       (List.find (\<lambda>item. operation_id item = oid \<and> is_pending (apply_state item)) (pending_records self))"

fun replace_first :: "pending_safe_apply \<Rightarrow> pending_safe_apply list \<Rightarrow> pending_safe_apply list option" where
  "replace_first r [] = None"
| "replace_first r (item # items) =
     (if operation_id item = operation_id r then Some (r # items)
      else map_option (Cons item) (replace_first r items))"

definition replace_record ::
  "('b, 'v) state_codec \<Rightarrow> ('x, 'b) safe_apply_manager \<Rightarrow> pending_safe_apply
     \<Rightarrow> unit result \<times> ('x, 'b) safe_apply_manager" where
  "replace_record codec self r =
     (case replace_first r (pending_records self) of
        None \<Rightarrow> (Err (new_error InvalidState ''Safe Apply record disappeared'' False), self)
      | Some items \<Rightarrow> persist codec (self\<lparr>pending_records := items\<rparr>))"

section \<open>Transactions\<close>

definition rollback_internal ::
  "('x, 'v) network_executor \<Rightarrow> ('b, 'v) state_codec \<Rightarrow> ('x, 'b) safe_apply_manager \<Rightarrow> string \<Rightarrow> string
     \<Rightarrow> unit result \<times> ('x, 'b) safe_apply_manager" where
  "rollback_internal ex codec self oid outcome_name =
     seq_st (find_active self oid, self) (\<lambda>found self.
     let r = found\<lparr>apply_state := RollingBack\<rparr> in
     seq_st (replace_record codec self r) (\<lambda>_ self.
     (case restore ex (executor self) (snapshot_id r) of
        (Err e, x) \<Rightarrow>
          (let self = self\<lparr>executor := x\<rparr>; r = r\<lparr>apply_state := SafeApplyFailed\<rparr> in
           seq_st (replace_record codec self r) (\<lambda>_ self.
           seq_st (audit codec self r ''rollback_failed'') (\<lambda>_ self. (Err e, self))))
      | (Panic, x) \<Rightarrow> (Panic, self\<lparr>executor := x\<rparr>)
      | (Ok _, x) \<Rightarrow>
          (let self = self\<lparr>executor := x\<rparr>; r = r\<lparr>apply_state := RolledBack\<rparr> in
           seq_st (replace_record codec self r) (\<lambda>_ self. audit codec self r outcome_name)))))"

definition rollback ::
  "('x, 'v) network_executor \<Rightarrow> ('b, 'v) state_codec \<Rightarrow> ('x, 'b) safe_apply_manager \<Rightarrow> string
     \<Rightarrow> unit result \<times> ('x, 'b) safe_apply_manager" where
  "rollback ex codec self oid = rollback_internal ex codec self oid ''explicit_rollback''"

text \<open>The checks of \<open>begin\<close> before anything changes: the record of the same request, or none.\<close>

definition begin_checks ::
  "('b, 'v) state_codec \<Rightarrow> ('x, 'b) safe_apply_manager \<Rightarrow> begin_safe_apply
     \<Rightarrow> (string \<times> pending_safe_apply option) result" where
  "begin_checks codec self req =
     (if str_blank (begin_operation_id req) \<or> str_blank (begin_interface_id req) then
        Err (new_error InvalidArgument ''operation and interface IDs are required'' False)
      else if begin_timeout_seconds req < 10 \<or> begin_timeout_seconds req > 600 then
        Err (new_error InvalidArgument ''confirm timeout must be between 10 and 600 seconds'' False)
      else
        and_then (map_err (\<lambda>m. new_error InvalidArgument m False)
            (validate_state (begin_desired_state req))) (\<lambda>_.
        and_then (hash_desired codec (begin_desired_state req)) (\<lambda>desired_hash.
        case List.find (\<lambda>item. operation_id item = begin_operation_id req) (pending_records self) of
          Some existing \<Rightarrow>
            if is_pending (apply_state existing) \<and> target_interface existing = begin_interface_id req
               \<and> new_state_hash existing = desired_hash then Ok (desired_hash, Some existing)
            else Err (new_error OperationConflict
              ''operation ID was reused with a different Safe Apply request'' False)
        | None \<Rightarrow>
            if list_ex (\<lambda>item. is_pending (apply_state item)
                \<and> target_interface item = begin_interface_id req) (pending_records self) then
              Err (new_error ResourceConflict ''interface already has a pending Safe Apply'' False)
            else Ok (desired_hash, None))))"

text \<open>Snapshot, deadline and the durable \<open>Prepared\<close> record.\<close>

definition begin_prepare ::
  "('x, 'v) network_executor \<Rightarrow> ('b, 'v) state_codec \<Rightarrow> ('x, 'b) safe_apply_manager \<Rightarrow> begin_safe_apply
     \<Rightarrow> string \<Rightarrow> pending_safe_apply result \<times> ('x, 'b) safe_apply_manager" where
  "begin_prepare ex codec self req desired_hash =
     (case snapshot ex (executor self) (begin_interface_id req) of (res, x) \<Rightarrow>
      seq_st (res, self\<lparr>executor := x\<rparr>) (\<lambda>(sid, old_state) self.
      seq_st (ok_or (new_error InvalidArgument ''rollback deadline overflow'' False)
          (checked_add (begin_now req) (begin_timeout_seconds req)), self) (\<lambda>deadline self.
      seq_st (hash_value codec old_state, self) (\<lambda>old_hash self.
      let r = \<lparr>operation_id = begin_operation_id req, target_interface = begin_interface_id req,
               snapshot_id = sid, deadline_unix_seconds = deadline, apply_state = Prepared,
               old_state_hash = old_hash, new_state_hash = desired_hash\<rparr> in
      seq_st (persist codec (self\<lparr>pending_records := pending_records self @ [r]\<rparr>)) (\<lambda>_ self.
        (Ok r, self))))))"

definition apply_and_verify ::
  "('x, 'v) network_executor \<Rightarrow> 'x \<Rightarrow> begin_safe_apply \<Rightarrow> unit result \<times> 'x" where
  "apply_and_verify ex x req =
     seq_st (apply_network ex x (begin_interface_id req) (begin_desired_state req)) (\<lambda>_ x.
       verify_network ex x (begin_interface_id req) (begin_desired_state req))"

definition begin_apply ::
  "('x, 'v) network_executor \<Rightarrow> ('b, 'v) state_codec \<Rightarrow> ('x, 'b) safe_apply_manager \<Rightarrow> begin_safe_apply
     \<Rightarrow> pending_safe_apply \<Rightarrow> pending_safe_apply result \<times> ('x, 'b) safe_apply_manager" where
  "begin_apply ex codec self req r =
     (case apply_and_verify ex (executor self) req of
        (Panic, x) \<Rightarrow> (Panic, self\<lparr>executor := x\<rparr>)
      | (Err apply_error, x) \<Rightarrow>
          (case rollback_internal ex codec (self\<lparr>executor := x\<rparr>) (begin_operation_id req) ''apply_failed'' of
             (Ok _, self) \<Rightarrow> (Err apply_error, self)
           | (Panic, self) \<Rightarrow> (Panic, self)
           | (Err rollback_error, self) \<Rightarrow>
               (Err (new_error RollbackFailed
                  (''apply failed ('' @ error_display apply_error @ ''); rollback also failed (''
                   @ error_display rollback_error @ '')'') False), self))
      | (Ok _, x) \<Rightarrow>
          (let self = self\<lparr>executor := x\<rparr>; r = r\<lparr>apply_state := PendingConfirmation\<rparr> in
           seq_st (replace_record codec self r) (\<lambda>_ self.
           seq_st (audit codec self r ''pending_confirmation'') (\<lambda>_ self. (Ok r, self)))))"

definition begin_transaction ::
  "('x, 'v) network_executor \<Rightarrow> ('b, 'v) state_codec \<Rightarrow> ('x, 'b) safe_apply_manager \<Rightarrow> begin_safe_apply
     \<Rightarrow> pending_safe_apply result \<times> ('x, 'b) safe_apply_manager" where
  "begin_transaction ex codec self req =
     seq_st (begin_checks codec self req, self) (\<lambda>(desired_hash, existing) self.
     case existing of
       Some r \<Rightarrow> (Ok r, self)
     | None \<Rightarrow>
         seq_st (begin_prepare ex codec self req desired_hash) (\<lambda>r self.
           begin_apply ex codec self req r))"

definition confirm_at ::
  "('b, 'v) state_codec \<Rightarrow> ('x, 'b) safe_apply_manager \<Rightarrow> string \<Rightarrow> u64
     \<Rightarrow> pending_safe_apply result \<times> ('x, 'b) safe_apply_manager" where
  "confirm_at codec self oid now =
     seq_st (find_active self oid, self) (\<lambda>found self.
     if now \<ge> deadline_unix_seconds found then
       (Err (new_error InvalidState ''Safe Apply deadline has expired; rollback is required'' False), self)
     else
       let r = found\<lparr>apply_state := Confirmed\<rparr> in
       seq_st (replace_record codec self r) (\<lambda>_ self.
       seq_st (audit codec self r ''confirmed'') (\<lambda>_ self. (Ok r, self))))"

definition confirm ::
  "('b, 'v) state_codec \<Rightarrow> ('x, 'b) safe_apply_manager \<Rightarrow> string
     \<Rightarrow> pending_safe_apply result \<times> ('x, 'b) safe_apply_manager" where
  "confirm codec self oid = confirm_at codec self oid (clock self)"

fun rollback_all ::
  "('x, 'v) network_executor \<Rightarrow> ('b, 'v) state_codec \<Rightarrow> string list \<Rightarrow> ('x, 'b) safe_apply_manager
     \<Rightarrow> unit result \<times> ('x, 'b) safe_apply_manager" where
  "rollback_all ex codec [] self = (Ok (), self)"
| "rollback_all ex codec (oid # oids) self =
     seq_st (rollback_internal ex codec self oid ''deadline_expired'') (\<lambda>_ self.
       rollback_all ex codec oids self)"

definition expired_at :: "u64 \<Rightarrow> pending_safe_apply \<Rightarrow> bool" where
  "expired_at now item \<longleftrightarrow> is_pending (apply_state item) \<and> deadline_unix_seconds item \<le> now"

definition recover_expired ::
  "('x, 'v) network_executor \<Rightarrow> ('b, 'v) state_codec \<Rightarrow> ('x, 'b) safe_apply_manager \<Rightarrow> u64
     \<Rightarrow> string list result \<times> ('x, 'b) safe_apply_manager" where
  "recover_expired ex codec self now =
     (let expired = map operation_id (filter (expired_at now) (pending_records self)) in
      seq_st (rollback_all ex codec expired self) (\<lambda>_ self. (Ok expired, self)))"

definition pending_list :: "('x, 'b) safe_apply_manager \<Rightarrow> pending_safe_apply list" where
  "pending_list self = filter (\<lambda>item. is_pending (apply_state item)) (pending_records self)"

section \<open>Sequencing and file system calls\<close>

lemma seq_st_Ok: "seq_st p f = (Ok y, s') \<longleftrightarrow> (\<exists>x s. p = (Ok x, s) \<and> f x s = (Ok y, s'))"
  by (cases "(p, f)" rule: seq_st.cases) auto

lemma seq_st_inv:
  "P (snd p) \<Longrightarrow> (\<And>x s. p = (Ok x, s) \<Longrightarrow> P (snd (f x s))) \<Longrightarrow> P (snd (seq_st p f))"
  by (cases "(p, f)" rule: seq_st.cases) auto

lemma seq_st_keeps:
  "P (snd p) \<Longrightarrow> (\<And>x s. P s \<Longrightarrow> P (snd (f x s))) \<Longrightarrow> P (snd (seq_st p f))"
  by (cases "(p, f)" rule: seq_st.cases) auto

text \<open>Equal up to the audit log and the outcomes to come.\<close>

definition frame :: "('x, 'b) safe_apply_manager \<Rightarrow> ('x, 'b) safe_apply_manager \<Rightarrow> bool" where
  "frame s t \<longleftrightarrow>
     pending_records t = pending_records s \<and> executor t = executor s \<and> state_file t = state_file s
     \<and> clock t = clock s"

lemma frame_refl: "frame s s"
  by (simp add: frame_def)

lemma frame_io_call: "frame s t \<Longrightarrow> frame s (snd (io_call t))"
  by (auto simp: frame_def io_call_def split: list.splits option.splits)

lemma frame_log: "frame s t \<Longrightarrow> frame s (t\<lparr>audit_log := l\<rparr>)"
  by (simp add: frame_def)

lemma frame_pure: "frame s t \<Longrightarrow> frame s (snd (r, t))"
  by simp

lemma frame_seq:
  "frame s (snd p) \<Longrightarrow> (\<And>x t. frame s t \<Longrightarrow> frame s (snd (f x t))) \<Longrightarrow> frame s (snd (seq_st p f))"
  by (cases "(p, f)" rule: seq_st.cases) auto

lemmas frame_intros = frame_seq frame_io_call frame_log frame_pure

lemma frame_audit: "frame self (snd (audit codec self r res))"
  unfolding audit_def by (intro frame_intros) (rule frame_refl | assumption)+

text \<open>Persisting leaves the old file or puts the serialized records in its place, whole.\<close>

definition persisted ::
  "('b, 'v) state_codec \<Rightarrow> ('x, 'b) safe_apply_manager \<Rightarrow> ('x, 'b) safe_apply_manager \<Rightarrow> bool" where
  "persisted codec s t \<longleftrightarrow>
     (\<exists>b. encode_state codec (pending_records s) = Ok b \<and> frame (s\<lparr>state_file := Some b\<rparr>) t)"

lemma io_call_OkD: "io_call s = (Ok u, t) \<Longrightarrow> frame s t"
  using frame_io_call [OF frame_refl, of s] by simp

lemma frame_trans: "frame s t \<Longrightarrow> frame t u \<Longrightarrow> frame s u"
  by (simp add: frame_def)

lemma frame_sync_parent: "frame s t \<Longrightarrow> frame s (snd (sync_parent t))"
  unfolding sync_parent_def by (intro frame_intros)

text \<open>Either nothing but the environment changed and the call failed, or the file was replaced.\<close>

definition replaced ::
  "'b \<Rightarrow> ('x, 'b) safe_apply_manager \<Rightarrow> unit result \<times> ('x, 'b) safe_apply_manager \<Rightarrow> bool" where
  "replaced b s p \<longleftrightarrow>
     frame s (snd p) \<and> fst p \<noteq> Ok () \<or> frame (s\<lparr>state_file := Some b\<rparr>) (snd p)"

lemma replaced_seq:
  "frame s (snd p) \<Longrightarrow> (\<And>x t. frame s t \<Longrightarrow> replaced b s (f x t)) \<Longrightarrow> replaced b s (seq_st p f)"
  by (cases "(p, f)" rule: seq_st.cases) (auto simp: replaced_def)

lemma replace_file_cases: "frame s t \<Longrightarrow> replaced b s (replace_file b t)"
proof -
  have "replaced b s (sync_parent (t\<lparr>state_file := Some b\<rparr>))" if "frame s t" for t
    using that frame_sync_parent [of "s\<lparr>state_file := Some b\<rparr>" "t\<lparr>state_file := Some b\<rparr>"]
    by (auto simp: replaced_def frame_def)
  then show "frame s t \<Longrightarrow> replaced b s (replace_file b t)"
    unfolding replace_file_def by (intro replaced_seq frame_io_call)
qed

lemma persist_cases:
  "frame self (snd (persist codec self)) \<and> fst (persist codec self) \<noteq> Ok ()
   \<or> persisted codec self (snd (persist codec self))"
proof (cases "io_call self")
  case (Pair res t)
  then have t: "frame self t" using frame_io_call [OF frame_refl, of self] by simp
  then have p: "pending_records t = pending_records self" by (simp add: frame_def)
  show ?thesis
  proof (cases res)
    case (Ok u)
    show ?thesis
    proof (cases "encode_state codec (pending_records self)")
      case enc: (Ok b)
      then show ?thesis
        using replace_file_cases [OF t, of b] Ok Pair p
        by (auto simp: persist_def replaced_def persisted_def)
    qed (use Ok Pair p t in \<open>simp_all add: persist_def\<close>)
  qed (use Pair t in \<open>simp_all add: persist_def\<close>)
qed

section \<open>One transaction per operation and per interface\<close>

definition records_ok :: "pending_safe_apply list \<Rightarrow> bool" where
  "records_ok ps \<longleftrightarrow>
     distinct (map operation_id ps)
     \<and> distinct (map target_interface (filter (\<lambda>r. is_pending (apply_state r)) ps))"

text \<open>Both the records in memory and those a restart would read back.\<close>

definition manager_ok :: "('b, 'v) state_codec \<Rightarrow> ('x, 'b) safe_apply_manager \<Rightarrow> bool" where
  "manager_ok codec self \<longleftrightarrow>
     records_ok (pending_records self)
     \<and> (\<forall>b. state_file self = Some b \<longrightarrow> (\<exists>ps. decode_state codec b = Ok ps \<and> records_ok ps))"

text \<open>The law of the codec: what was serialized is read back.\<close>

definition codec_law :: "('b, 'v) state_codec \<Rightarrow> bool" where
  "codec_law codec \<longleftrightarrow> (\<forall>ps b. encode_state codec ps = Ok b \<longrightarrow> decode_state codec b = Ok ps)"

lemma manager_ok_frame: "frame s t \<Longrightarrow> manager_ok codec t = manager_ok codec s"
  by (simp add: frame_def manager_ok_def)

lemma manager_ok_executor [simp]: "manager_ok codec (self\<lparr>executor := x\<rparr>) = manager_ok codec self"
  by (simp add: manager_ok_def)

lemma manager_ok_persist:
  assumes "codec_law codec" "manager_ok codec self"
  shows "manager_ok codec (snd (persist codec self))"
  using persist_cases [of self codec]
proof (elim disjE conjE)
  assume "frame self (snd (persist codec self))"
  then show ?thesis using assms by (simp add: manager_ok_frame)
next
  assume "persisted codec self (snd (persist codec self))"
  then show ?thesis
    using assms by (auto simp: persisted_def frame_def manager_ok_def codec_law_def)
qed

lemma pending_persist: "pending_records (snd (persist codec self)) = pending_records self"
  "executor (snd (persist codec self)) = executor self"
  using persist_cases [of self codec] by (auto simp: persisted_def frame_def)

lemma replace_first_split:
  "replace_first r ps = Some qs \<Longrightarrow>
     \<exists>xs y zs. ps = xs @ y # zs \<and> operation_id y = operation_id r \<and> qs = xs @ r # zs"
proof (induction ps arbitrary: qs)
  case Nil
  then show ?case by simp
next
  case (Cons p ps)
  show ?case
  proof (cases "operation_id p = operation_id r")
    case True
    then show ?thesis using Cons.prems by (intro exI [of _ "[]"]) auto
  next
    case False
    then obtain xs y zs where "ps = xs @ y # zs" "operation_id y = operation_id r"
      "qs = p # xs @ r # zs" using Cons by auto
    then show ?thesis by (intro exI [of _ "p # xs"]) auto
  qed
qed

lemma distinct_operation:
  "records_ok ps \<Longrightarrow> y \<in> set ps \<Longrightarrow> z \<in> set ps \<Longrightarrow> operation_id y = operation_id z \<Longrightarrow> y = z"
  by (auto simp: records_ok_def distinct_map dest: inj_onD)

text \<open>A replacement that keeps the identity and the interface and does not revive a finished record.\<close>

definition succeeds :: "pending_safe_apply \<Rightarrow> pending_safe_apply \<Rightarrow> bool" where
  "succeeds y r \<longleftrightarrow>
     operation_id r = operation_id y \<and> target_interface r = target_interface y
     \<and> (is_pending (apply_state r) \<longrightarrow> is_pending (apply_state y))"

lemma records_ok_replace: "records_ok (xs @ y # zs) \<Longrightarrow> succeeds y r \<Longrightarrow> records_ok (xs @ r # zs)"
  by (cases "is_pending (apply_state y)") (auto simp: records_ok_def succeeds_def split: if_splits)

lemma manager_ok_replace:
  assumes law: "codec_law codec" and ok: "manager_ok codec self" and y: "y \<in> set (pending_records self)"
    and r: "succeeds y r"
  shows "manager_ok codec (snd (replace_record codec self r))"
    and "replace_record codec self r = (Ok u, t) \<Longrightarrow> r \<in> set (pending_records t)"
proof -
  have "manager_ok codec (snd (replace_record codec self r))
    \<and> (fst (replace_record codec self r) = Ok u \<longrightarrow> r \<in> set (pending_records (snd (replace_record codec self r))))"
  proof (cases "replace_first r (pending_records self)")
    case None
    then show ?thesis using ok by (simp add: replace_record_def)
  next
    case (Some qs)
    then obtain xs z zs where l: "pending_records self = xs @ z # zs" "operation_id z = operation_id r"
      "qs = xs @ r # zs" using replace_first_split [OF Some] by blast
    have "z = y"
      by (rule distinct_operation [of "pending_records self"]) (use ok y r l in \<open>auto simp: manager_ok_def succeeds_def\<close>)
    then have "records_ok qs" using records_ok_replace [of xs y zs r] ok l r by (simp add: manager_ok_def)
    then have "manager_ok codec (self\<lparr>pending_records := qs\<rparr>)" using ok by (simp add: manager_ok_def)
    then show ?thesis
      using manager_ok_persist [OF law] l Some by (simp add: replace_record_def pending_persist)
  qed
  then show "manager_ok codec (snd (replace_record codec self r))"
    and "replace_record codec self r = (Ok u, t) \<Longrightarrow> r \<in> set (pending_records t)" by auto
qed

lemma find_active_Ok:
  "find_active self oid = Ok r \<Longrightarrow>
     r \<in> set (pending_records self) \<and> operation_id r = oid \<and> is_pending (apply_state r)"
  by (auto simp: find_active_def outcome_simps find_Some_iff)

lemma manager_ok_audit: "manager_ok codec (snd (audit codec self r res)) = manager_ok codec self"
  by (rule manager_ok_frame [OF frame_audit])

lemma manager_ok_audit_seq:
  "manager_ok codec self \<Longrightarrow> manager_ok codec (snd (seq_st (audit codec self r res) (\<lambda>_ self. (x, self))))"
  by (rule seq_st_keeps) (simp_all add: manager_ok_audit)

lemma manager_ok_rollback:
  assumes law: "codec_law codec" and ok: "manager_ok codec self"
  shows "manager_ok codec (snd (rollback_internal ex codec self oid res))"
proof (cases "find_active self oid")
  case (Ok found)
  note f = find_active_Ok [OF Ok]
  let ?r = "\<lambda>st. found\<lparr>apply_state := st\<rparr>"
  have s: "succeeds found (?r st)" "succeeds (?r RollingBack) (?r st)" for st
    using f by (simp_all add: succeeds_def is_pending_def)
  have finish: "manager_ok codec (snd (seq_st (replace_record codec (t\<lparr>executor := x\<rparr>) (?r st)) k))"
    if t: "replace_record codec self (?r RollingBack) = (Ok u, t)"
      and k: "\<And>u v. manager_ok codec v \<Longrightarrow> manager_ok codec (snd (k u v))" for t x st u k
  proof -
    have "manager_ok codec t" "?r RollingBack \<in> set (pending_records t)"
      using manager_ok_replace [OF law ok _ s(1), of RollingBack] f t by (metis snd_conv)+
    then have "manager_ok codec (snd (replace_record codec (t\<lparr>executor := x\<rparr>) (?r st)))"
      using manager_ok_replace(1) [OF law, of "t\<lparr>executor := x\<rparr>" "?r RollingBack" "?r st"] s by simp
    then show ?thesis by (rule seq_st_keeps) (rule k)
  qed
  have first: "manager_ok codec (snd (replace_record codec self (?r RollingBack)))"
    using manager_ok_replace(1) [OF law ok _ s(1)] f by blast
  show ?thesis
    unfolding rollback_internal_def Ok seq_st.simps Let_def
    apply (rule seq_st_inv [of "manager_ok codec"])
     apply (rule first)
    subgoal for u t
      using first
      by (auto split: prod.split outcome.split simp: manager_ok_audit intro!: finish manager_ok_audit_seq)
    done
qed (use ok in \<open>simp_all add: rollback_internal_def\<close>)

lemma begin_checks_fresh:
  assumes "begin_checks codec self req = Ok (h, None)"
  shows "\<forall>p \<in> set (pending_records self). operation_id p \<noteq> begin_operation_id req"
    and "\<forall>p \<in> set (pending_records self). is_pending (apply_state p) \<longrightarrow> target_interface p \<noteq> begin_interface_id req"
  using assms
  by (auto simp: begin_checks_def outcome_simps find_None_iff list_ex_iff split: if_splits option.splits)

text \<open>Preparing fails before the list changes, or has added the record and tried to persist it.\<close>

lemma begin_prepare_cases:
  obtains (unchanged) x where "snd (begin_prepare ex codec self req d) = self\<lparr>executor := x\<rparr>"
      "\<And>r. fst (begin_prepare ex codec self req d) \<noteq> Ok r"
  | (added) x r where "operation_id r = begin_operation_id req" "target_interface r = begin_interface_id req"
      "apply_state r = Prepared" "new_state_hash r = d"
      "checked_add (begin_now req) (begin_timeout_seconds req) = Some (deadline_unix_seconds r)"
      "begin_prepare ex codec self req d =
         seq_st (persist codec (self\<lparr>executor := x, pending_records := pending_records self @ [r]\<rparr>))
           (\<lambda>_ self. (Ok r, self))"
proof -
  obtain res x where snap: "snapshot ex (executor self) (begin_interface_id req) = (res, x)" by fastforce
  show ?thesis
  proof (cases res)
    case (Ok p)
    obtain sid old where p: "p = (sid, old)" by fastforce
    show ?thesis
    proof (cases "checked_add (begin_now req) (begin_timeout_seconds req)")
      case None
      then show ?thesis using snap Ok p by (intro unchanged [of x]) (simp_all add: begin_prepare_def)
    next
      case (Some deadline)
      show ?thesis
      proof (cases "hash_value codec old")
        case hash: (Ok old_hash)
        show ?thesis
          by (rule added [of "\<lparr>operation_id = begin_operation_id req, target_interface = begin_interface_id req,
               snapshot_id = sid, deadline_unix_seconds = deadline, apply_state = Prepared,
               old_state_hash = old_hash, new_state_hash = d\<rparr>" x])
            (use snap Ok p Some hash in \<open>simp_all add: begin_prepare_def Let_def\<close>)
      qed (use snap Ok p Some in \<open>intro unchanged [of x]; simp add: begin_prepare_def\<close>)+
    qed
  qed (use snap in \<open>intro unchanged [of x]; simp add: begin_prepare_def\<close>)+
qed

lemma begin_prepare_ok:
  assumes law: "codec_law codec" and ok: "manager_ok codec self"
    and fresh: "begin_checks codec self req = Ok (h, None)"
  shows "manager_ok codec (snd (begin_prepare ex codec self req d))"
    and "begin_prepare ex codec self req d = (Ok r, t) \<Longrightarrow>
      r \<in> set (pending_records t) \<and> apply_state r = Prepared \<and> operation_id r = begin_operation_id req"
proof -
  have "manager_ok codec (snd (begin_prepare ex codec self req d))
    \<and> (begin_prepare ex codec self req d = (Ok r, t) \<longrightarrow>
        r \<in> set (pending_records t) \<and> apply_state r = Prepared \<and> operation_id r = begin_operation_id req)"
  proof (cases rule: begin_prepare_cases [of ex codec self req d])
    case (unchanged x)
    show ?thesis using ok unchanged(1) unchanged(2) [of r] by auto
  next
    case (added x q)
    let ?t = "self\<lparr>executor := x, pending_records := pending_records self @ [q]\<rparr>"
    have "records_ok (pending_records self @ [q])"
      using begin_checks_fresh [OF fresh] ok added(1,2) by (auto simp: records_ok_def manager_ok_def)
    then have "manager_ok codec ?t" using ok by (simp add: manager_ok_def)
    then have p: "manager_ok codec (snd (persist codec ?t))" by (rule manager_ok_persist [OF law])
    then have "manager_ok codec (snd (begin_prepare ex codec self req d))"
      unfolding added(6) by (rule seq_st_keeps) simp
    moreover have "q \<in> set (pending_records (snd (persist codec ?t)))" by (simp add: pending_persist)
    ultimately show ?thesis using added by (auto simp: seq_st_Ok)
  qed
  then show "manager_ok codec (snd (begin_prepare ex codec self req d))"
    and "begin_prepare ex codec self req d = (Ok r, t) \<Longrightarrow>
      r \<in> set (pending_records t) \<and> apply_state r = Prepared \<and> operation_id r = begin_operation_id req"
    by blast+
qed

lemma begin_apply_ok:
  assumes law: "codec_law codec" and ok: "manager_ok codec self"
    and r: "r \<in> set (pending_records self)" "apply_state r = Prepared"
  shows "manager_ok codec (snd (begin_apply ex codec self req r))"
proof -
  obtain res x where a: "apply_and_verify ex (executor self) req = (res, x)" by fastforce
  show ?thesis
  proof (cases res)
    case (Ok u)
    have rep: "manager_ok codec (snd (replace_record codec (self\<lparr>executor := x\<rparr>) (r\<lparr>apply_state := PendingConfirmation\<rparr>)))"
      by (rule manager_ok_replace(1) [OF law, of _ r])
        (use ok r in \<open>simp_all add: succeeds_def is_pending_def\<close>)
    have "manager_ok codec (snd (seq_st (replace_record codec (self\<lparr>executor := x\<rparr>)
        (r\<lparr>apply_state := PendingConfirmation\<rparr>))
        (\<lambda>_ self. seq_st (audit codec self q res') (\<lambda>_ self. (Ok q, self)))))" for q res'
      by (rule seq_st_keeps [of "manager_ok codec"], rule rep, rule manager_ok_audit_seq)
    then show ?thesis using a Ok by (simp add: begin_apply_def Let_def)
  next
    case (Err e)
    have "manager_ok codec (snd (rollback_internal ex codec (self\<lparr>executor := x\<rparr>) (begin_operation_id req) ''apply_failed''))"
      by (rule manager_ok_rollback [OF law]) (use ok in simp)
    then show ?thesis using a Err by (auto simp: begin_apply_def split: prod.splits outcome.splits)
  next
    case Panic
    then show ?thesis using a ok by (simp add: begin_apply_def)
  qed
qed

lemma manager_ok_begin:
  assumes law: "codec_law codec" and ok: "manager_ok codec self"
  shows "manager_ok codec (snd (begin_transaction ex codec self req))"
proof (cases "begin_checks codec self req")
  case (Ok p)
  obtain h e where p: "p = (h, e)" by fastforce
  show ?thesis
  proof (cases e)
    case (Some r)
    then show ?thesis using Ok p ok by (simp add: begin_transaction_def)
  next
    case None
    have fresh: "begin_checks codec self req = Ok (h, None)" using Ok p None by simp
    note prep = begin_prepare_ok [OF law ok fresh, of ex h]
    show ?thesis
      unfolding begin_transaction_def fresh seq_st.simps prod.case option.case
      apply (rule seq_st_inv [of "manager_ok codec"])
       apply (rule prep(1))
      subgoal for r t
        using prep begin_apply_ok [OF law, of t r ex req] by simp
      done
  qed
qed (use ok in \<open>simp_all add: begin_transaction_def\<close>)

lemma manager_ok_confirm:
  assumes law: "codec_law codec" and ok: "manager_ok codec self"
  shows "manager_ok codec (snd (confirm_at codec self oid now))"
proof (cases "find_active self oid")
  case (Ok found)
  note f = find_active_Ok [OF Ok]
  have rep: "manager_ok codec (snd (replace_record codec self (found\<lparr>apply_state := Confirmed\<rparr>)))"
    by (rule manager_ok_replace(1) [OF law ok, of found]) (use f in \<open>simp_all add: succeeds_def is_pending_def\<close>)
  have "manager_ok codec (snd (seq_st (replace_record codec self (found\<lparr>apply_state := Confirmed\<rparr>))
        (\<lambda>_ self. seq_st (audit codec self q res) (\<lambda>_ self. (Ok q, self)))))" for q res
    by (rule seq_st_keeps [of "manager_ok codec"], rule rep, rule manager_ok_audit_seq)
  then show ?thesis using Ok ok by (simp add: confirm_at_def Let_def)
qed (use ok in \<open>simp_all add: confirm_at_def\<close>)

lemma manager_ok_rollback_all:
  "codec_law codec \<Longrightarrow> manager_ok codec self \<Longrightarrow> manager_ok codec (snd (rollback_all ex codec oids self))"
proof (induction oids arbitrary: self)
  case (Cons oid oids)
  show ?case
    unfolding rollback_all.simps
    by (rule seq_st_keeps [of "manager_ok codec"])
      (use Cons manager_ok_rollback [OF Cons.prems] in auto)
qed simp

lemma manager_ok_recover:
  assumes "codec_law codec" "manager_ok codec self"
  shows "manager_ok codec (snd (recover_expired ex codec self now))"
  unfolding recover_expired_def Let_def
  by (rule seq_st_keeps [of "manager_ok codec"]) (use manager_ok_rollback_all [OF assms] in auto)

lemma manager_ok_open:
  assumes "manager_ok codec self"
  shows "manager_ok codec (snd (open_manager codec self))"
  unfolding open_manager_def
proof (rule seq_st_keeps [of "manager_ok codec"])
  show "manager_ok codec (snd (io_call self))"
    using assms manager_ok_frame [OF frame_io_call [OF frame_refl]] by blast
  show "manager_ok codec (snd (case state_file s of None \<Rightarrow> (Ok (), s\<lparr>pending_records := []\<rparr>)
      | Some bytes \<Rightarrow> seq_st (map_err state_error (decode_state codec bytes), s)
          (\<lambda>ps self. (Ok (), self\<lparr>pending_records := ps\<rparr>))))" if "manager_ok codec s" for s
    using that
    by (cases "state_file s"; cases "decode_state codec (the (state_file s))")
      (auto simp: manager_ok_def records_ok_def)
qed

datatype safe_operation =
  Begin begin_safe_apply | Confirm string | Rollback string | Recover | Restart

text \<open>
  A call of one of the operations, after the environment has moved: the clock and the platform's
  state may have changed and any file system outcomes may follow.  A restart forgets the records in
  memory and reads the state file.
\<close>

definition safe_step ::
  "('x, 'v) network_executor \<Rightarrow> ('b, 'v) state_codec \<Rightarrow> ('x, 'b) safe_apply_manager \<Rightarrow> safe_operation
     \<Rightarrow> ('x, 'b) safe_apply_manager \<Rightarrow> bool" where
  "safe_step ex codec s operation t \<longleftrightarrow>
     (\<exists>ios now x. let s' = s\<lparr>io_outcomes := ios, clock := now, executor := x\<rparr> in
        t = (case operation of
               Begin req \<Rightarrow> snd (begin_transaction ex codec s' req)
             | Confirm oid \<Rightarrow> snd (confirm codec s' oid)
             | Rollback oid \<Rightarrow> snd (rollback ex codec s' oid)
             | Recover \<Rightarrow> snd (recover_expired ex codec s' now)
             | Restart \<Rightarrow> snd (open_manager codec s')))"

definition safe_init :: "('x, 'b) safe_apply_manager \<Rightarrow> bool" where
  "safe_init s \<longleftrightarrow> pending_records s = [] \<and> state_file s = None"

interpretation safe_apply: invariant_system safe_init "safe_step ex codec"
    "\<lambda>s. codec_law codec \<longrightarrow> manager_ok codec s"
  for ex :: "('x, 'v) network_executor" and codec :: "('b, 'v) state_codec"
proof
  show "codec_law codec \<longrightarrow> manager_ok codec s" if "safe_init s" for s :: "('x, 'b) safe_apply_manager"
    using that by (simp add: safe_init_def manager_ok_def records_ok_def)
  show "codec_law codec \<longrightarrow> manager_ok codec t"
    if inv: "codec_law codec \<longrightarrow> manager_ok codec s" and step: "safe_step ex codec s operation t"
    for s t and operation
  proof
    assume law: "codec_law codec"
    obtain ios now x where t: "t = (let s' = s\<lparr>io_outcomes := ios, clock := now, executor := x\<rparr> in
        (case operation of
               Begin req \<Rightarrow> snd (begin_transaction ex codec s' req)
             | Confirm oid \<Rightarrow> snd (confirm codec s' oid)
             | Rollback oid \<Rightarrow> snd (rollback ex codec s' oid)
             | Recover \<Rightarrow> snd (recover_expired ex codec s' now)
             | Restart \<Rightarrow> snd (open_manager codec s')))"
      using step unfolding safe_step_def Let_def by blast
    have ok: "manager_ok codec (s\<lparr>io_outcomes := ios, clock := now, executor := x\<rparr>)"
      using inv law by (simp add: manager_ok_def)
    show "manager_ok codec t"
      unfolding t Let_def using manager_ok_begin [OF law ok] manager_ok_confirm [OF law ok]
        manager_ok_rollback [OF law ok] manager_ok_recover [OF law ok] manager_ok_open [OF ok]
      by (simp add: confirm_def rollback_def split: safe_operation.split)
  qed
qed

text \<open>
  C26.  Safe Apply keeps one transaction per operation identifier and at most one pending transaction
  per interface, in every state reached by any sequence of begin, confirm, rollback, recovery and
  restart, whatever the platform does and whichever file system calls fail; the same holds of the
  records on disk, so that a restart at any moment finds a consistent list.
\<close>

theorem safe_apply_consistent:
  assumes "codec_law codec" "reachable safe_init (safe_step ex codec) s"
  shows "distinct (map operation_id (pending_records s))
    \<and> distinct (map target_interface (pending_list s))
    \<and> (\<forall>b. state_file s = Some b \<longrightarrow> (\<exists>ps. decode_state codec b = Ok ps \<and> records_ok ps))"
  using safe_apply.reachable_inv [OF assms(2)] assms(1)
  by (simp add: manager_ok_def records_ok_def pending_list_def)

text \<open>A platform on which everything succeeds, and a codec that stores the records as they are.\<close>

definition sample_executor :: "(string list, unit) network_executor" where
  "sample_executor =
     \<lparr>read_state = (\<lambda>x i. (Ok (), x)), snapshot = (\<lambda>x i. (Ok (''snap'', ()), x)),
      apply_network = (\<lambda>x i s. (Ok (), x)), verify_network = (\<lambda>x i s. (Ok (), x)),
      restore = (\<lambda>x sid. (Ok (), x @ [sid]))\<rparr>"

definition sample_codec :: "(pending_safe_apply list, unit) state_codec" where
  "sample_codec =
     \<lparr>encode_state = Ok, decode_state = Ok, encode_event = (\<lambda>_. Ok []),
      hash_desired = (\<lambda>_. Ok ''h''), hash_value = (\<lambda>_. Ok ''h'')\<rparr>"

definition sample_manager :: "(string list, pending_safe_apply list) safe_apply_manager" where
  "sample_manager =
     \<lparr>pending_records = [], executor = [], state_file = None, audit_log = [], clock = 0,
      io_outcomes = []\<rparr>"

lemma sample_codec_law: "codec_law sample_codec"
  by (simp add: codec_law_def sample_codec_def)

theorem safe_apply_consistent_witness:
  "distinct (map operation_id (pending_records sample_manager))
   \<and> distinct (map target_interface (pending_list sample_manager))"
  using safe_apply_consistent [of sample_codec sample_executor sample_manager, OF sample_codec_law reachable_init]
  by (simp add: safe_init_def sample_manager_def)

section \<open>Recovery\<close>

text \<open>Serialization does not fail on the records and events the manager writes.\<close>

definition codec_total :: "('b, 'v) state_codec \<Rightarrow> bool" where
  "codec_total codec \<longleftrightarrow>
     (\<forall>ps. \<exists>b. encode_state codec ps = Ok b) \<and> (\<forall>n. \<exists>b. encode_event codec n = Ok b)"

text \<open>With a working file system the manager's state is what its records serialize to.\<close>

definition stored :: "('b, 'v) state_codec \<Rightarrow> ('x, 'b) safe_apply_manager \<Rightarrow> bool" where
  "stored codec self \<longleftrightarrow> (\<exists>b. encode_state codec (pending_records self) = Ok b \<and> state_file self = Some b)"

lemma io_call_healthy [simp]: "io_outcomes self = [] \<Longrightarrow> io_call self = (Ok (), self)"
  by (simp add: io_call_def)

lemma persist_healthy:
  assumes "codec_total codec" "io_outcomes self = []"
  shows "\<exists>b. persist codec self = (Ok (), self\<lparr>state_file := Some b\<rparr>)
    \<and> encode_state codec (pending_records self) = Ok b"
proof -
  obtain b where "encode_state codec (pending_records self) = Ok b"
    using assms(1) by (auto simp: codec_total_def)
  then show ?thesis using assms(2) by (simp add: persist_def replace_file_def sync_parent_def)
qed

lemma audit_healthy:
  assumes "codec_total codec" "io_outcomes self = []"
  shows "\<exists>l. audit codec self r res = (Ok (), self\<lparr>audit_log := l\<rparr>)"
proof -
  obtain b where "encode_event codec res = Ok b" using assms(1) by (auto simp: codec_total_def)
  then show ?thesis using assms(2) by (simp add: audit_def) blast
qed

lemma replace_first_at:
  "operation_id y = operation_id r \<Longrightarrow> operation_id r \<notin> operation_id ` set xs \<Longrightarrow>
     replace_first r (xs @ y # zs) = Some (xs @ r # zs)"
  by (induction xs) auto

lemma replace_record_healthy:
  assumes "codec_total codec" "io_outcomes self = []" "pending_records self = xs @ y # zs"
    and "operation_id y = operation_id r" "operation_id r \<notin> operation_id ` set xs"
  shows "\<exists>b. replace_record codec self r = (Ok (), self\<lparr>pending_records := xs @ r # zs, state_file := Some b\<rparr>)
    \<and> encode_state codec (xs @ r # zs) = Ok b"
  using persist_healthy [OF assms(1), of "self\<lparr>pending_records := xs @ r # zs\<rparr>"] assms(2)
    replace_first_at [OF assms(4,5), of zs] assms(3)
  by (simp add: replace_record_def)

lemma find_active_at:
  assumes "records_ok (pending_records self)" "r \<in> set (pending_records self)" "is_pending (apply_state r)"
  shows "find_active self (operation_id r) = Ok r"
proof -
  have "List.find (\<lambda>item. operation_id item = operation_id r \<and> is_pending (apply_state item)) (pending_records self)
      \<noteq> None"
    using assms(2,3) by (auto simp: find_None_iff)
  then obtain q where q: "List.find (\<lambda>item. operation_id item = operation_id r \<and> is_pending (apply_state item))
      (pending_records self) = Some q" by blast
  then have "q \<in> set (pending_records self)" "operation_id q = operation_id r"
    by (auto simp: find_Some_iff)
  then have "q = r" using distinct_operation [OF assms(1)] assms(2) by blast
  then show ?thesis using q by (simp add: find_active_def)
qed

definition mark :: "string set \<Rightarrow> pending_safe_apply list \<Rightarrow> pending_safe_apply list" where
  "mark ids ps = map (\<lambda>r. if operation_id r \<in> ids then r\<lparr>apply_state := RolledBack\<rparr> else r) ps"

lemma mark_single:
  assumes "records_ok (xs @ y # zs)"
  shows "mark {operation_id y} (xs @ y # zs) = xs @ y\<lparr>apply_state := RolledBack\<rparr> # zs"
proof -
  have "operation_id y \<notin> operation_id ` set xs" "operation_id y \<notin> operation_id ` set zs"
    using assms by (auto simp: records_ok_def)
  then have "\<forall>r \<in> set xs \<union> set zs. operation_id r \<noteq> operation_id y" by (metis UnE imageI)
  then show ?thesis by (auto simp: mark_def map_idI)
qed

lemma mark_mark: "mark ids (mark {oid} ps) = mark (insert oid ids) ps"
  by (simp add: mark_def)

lemma rollback_healthy:
  assumes codec: "codec_total codec" and io: "io_outcomes self = []"
    and ok: "records_ok (pending_records self)" and r: "r \<in> set (pending_records self)" "is_pending (apply_state r)"
    and rest: "restore ex (executor self) (snapshot_id r) = (Ok u, x)"
  shows "\<exists>t. rollback_internal ex codec self (operation_id r) res = (Ok (), t)
    \<and> pending_records t = mark {operation_id r} (pending_records self) \<and> executor t = x
    \<and> io_outcomes t = [] \<and> stored codec t"
proof -
  obtain xs zs where l: "pending_records self = xs @ r # zs" using r(1) by (meson split_list)
  have id: "operation_id r \<notin> operation_id ` set xs" using ok l by (auto simp: records_ok_def)
  let ?r = "\<lambda>st. r\<lparr>apply_state := st\<rparr>"
  obtain b1 where r1: "replace_record codec self (?r RollingBack)
      = (Ok (), self\<lparr>pending_records := xs @ ?r RollingBack # zs, state_file := Some b1\<rparr>)"
    using replace_record_healthy [OF codec io l, of "?r RollingBack"] id by auto
  let ?t = "self\<lparr>pending_records := xs @ ?r RollingBack # zs, state_file := Some b1, executor := x\<rparr>"
  obtain b2 where r2: "replace_record codec ?t (?r RolledBack)
      = (Ok (), ?t\<lparr>pending_records := xs @ ?r RolledBack # zs, state_file := Some b2\<rparr>)"
    and b2: "encode_state codec (xs @ ?r RolledBack # zs) = Ok b2"
    using replace_record_healthy [OF codec, of ?t xs "?r RollingBack" zs "?r RolledBack"] id io by auto
  obtain l2 where a: "audit codec (?t\<lparr>pending_records := xs @ ?r RolledBack # zs, state_file := Some b2\<rparr>)
      (?r RolledBack) res
      = (Ok (), ?t\<lparr>pending_records := xs @ ?r RolledBack # zs, state_file := Some b2, audit_log := l2\<rparr>)"
    using audit_healthy [OF codec, of "?t\<lparr>pending_records := xs @ ?r RolledBack # zs, state_file := Some b2\<rparr>"
        "?r RolledBack" res] io by auto
  have "rollback_internal ex codec self (operation_id r) res
      = (Ok (), ?t\<lparr>pending_records := xs @ ?r RolledBack # zs, state_file := Some b2, audit_log := l2\<rparr>)"
    using find_active_at [OF ok r] r1 rest r2 a by (simp add: rollback_internal_def Let_def)
  moreover have "mark {operation_id r} (pending_records self) = xs @ ?r RolledBack # zs"
    using mark_single [of xs r zs] ok l by simp
  ultimately show ?thesis using io b2 by (auto simp: stored_def)
qed

definition restore_all :: "('x, 'v) network_executor \<Rightarrow> string list \<Rightarrow> 'x \<Rightarrow> 'x" where
  "restore_all ex sids x = fold (\<lambda>sid x. snd (restore ex x sid)) sids x"

text \<open>The platform can restore every snapshot.\<close>

definition restores :: "('x, 'v) network_executor \<Rightarrow> bool" where
  "restores ex \<longleftrightarrow> (\<forall>x sid. fst (restore ex x sid) = Ok ())"

lemma records_ok_mark: "records_ok ps \<Longrightarrow> records_ok (mark ids ps)"
proof -
  assume ok: "records_ok ps"
  have "map operation_id (mark ids ps) = map operation_id ps" by (simp add: mark_def)
  moreover have "map target_interface (filter (\<lambda>r. is_pending (apply_state r)) (mark ids ps))
      = map target_interface (filter (\<lambda>r. is_pending (apply_state r) \<and> operation_id r \<notin> ids) ps)"
    by (induction ps) (auto simp: mark_def is_pending_def)
  moreover have "distinct (map target_interface (filter (\<lambda>r. is_pending (apply_state r) \<and> operation_id r \<notin> ids) ps))"
    using ok distinct_map_filter [of target_interface "filter (\<lambda>r. is_pending (apply_state r)) ps" "\<lambda>r. operation_id r \<notin> ids"]
    by (simp add: records_ok_def conj_commute)
  ultimately show "records_ok (mark ids ps)" using ok by (simp add: records_ok_def)
qed

lemma rollback_all_healthy:
  assumes codec: "codec_total codec" and ex: "restores ex"
  shows "io_outcomes self = [] \<Longrightarrow> records_ok (pending_records self) \<Longrightarrow> distinct (map operation_id es) \<Longrightarrow>
    \<forall>e \<in> set es. e \<in> set (pending_records self) \<and> is_pending (apply_state e) \<Longrightarrow>
    \<exists>t. rollback_all ex codec (map operation_id es) self = (Ok (), t)
      \<and> pending_records t = mark (operation_id ` set es) (pending_records self)
      \<and> executor t = restore_all ex (map snapshot_id es) (executor self) \<and> io_outcomes t = []
      \<and> (es \<noteq> [] \<longrightarrow> stored codec t)"
proof (induction es arbitrary: self)
  case Nil
  then show ?case by (simp add: mark_def restore_all_def)
next
  case (Cons e es)
  have rest: "restore ex (executor self) (snapshot_id e) = (Ok (), snd (restore ex (executor self) (snapshot_id e)))"
    using ex by (metis restores_def prod.collapse)
  obtain t where t: "rollback_internal ex codec self (operation_id e) ''deadline_expired'' = (Ok (), t)"
    "pending_records t = mark {operation_id e} (pending_records self)"
    "executor t = snd (restore ex (executor self) (snapshot_id e))" "io_outcomes t = []" "stored codec t"
    using rollback_healthy [OF codec Cons.prems(1,2) _ _ rest, of "''deadline_expired''"] Cons.prems(4) by auto
  have ok: "records_ok (pending_records t)" using t(2) records_ok_mark Cons.prems(2) by simp
  have es: "\<forall>e' \<in> set es. e' \<in> set (pending_records t) \<and> is_pending (apply_state e')"
  proof
    fix e' assume e': "e' \<in> set es"
    then have "operation_id e' \<noteq> operation_id e" using Cons.prems(3) by (auto simp: image_iff)
    then show "e' \<in> set (pending_records t) \<and> is_pending (apply_state e')"
      using Cons.prems(4) e' unfolding t(2) mark_def by (auto simp: image_iff)
  qed
  obtain u where u: "rollback_all ex codec (map operation_id es) t = (Ok (), u)"
    "pending_records u = mark (operation_id ` set es) (pending_records t)"
    "executor u = restore_all ex (map snapshot_id es) (executor t)" "io_outcomes u = []"
    "es \<noteq> [] \<longrightarrow> stored codec u"
    using Cons.IH [OF t(4) ok _ es] Cons.prems(3) by auto
  have "stored codec u" using u t by (cases es) auto
  then show ?case using t u by (simp add: mark_mark restore_all_def)
qed

lemma recover_expired_healthy:
  fixes now :: u64
  assumes "codec_total codec" "restores ex" "io_outcomes self = []" "records_ok (pending_records self)"
  defines "es \<equiv> filter (expired_at now) (pending_records self)"
  shows "\<exists>t. recover_expired ex codec self now = (Ok (map operation_id es), t)
    \<and> pending_records t = map (\<lambda>r. if expired_at now r then r\<lparr>apply_state := RolledBack\<rparr> else r) (pending_records self)
    \<and> executor t = restore_all ex (map snapshot_id es) (executor self) \<and> (es \<noteq> [] \<longrightarrow> stored codec t)"
proof -
  have d: "distinct (map operation_id es)"
    using assms(4) by (simp add: es_def records_ok_def distinct_map_filter)
  have e: "\<forall>e \<in> set es. e \<in> set (pending_records self) \<and> is_pending (apply_state e)"
    by (auto simp: es_def expired_at_def)
  have "mark (operation_id ` set es) (pending_records self)
      = map (\<lambda>r. if expired_at now r then r\<lparr>apply_state := RolledBack\<rparr> else r) (pending_records self)"
    unfolding mark_def
  proof (rule map_cong [OF refl])
    fix r assume r: "r \<in> set (pending_records self)"
    have "operation_id r \<in> operation_id ` set es \<longleftrightarrow> expired_at now r"
    proof
      assume "operation_id r \<in> operation_id ` set es"
      then obtain q where "q \<in> set es" "operation_id q = operation_id r" by (metis imageE)
      then have "q = r" "q \<in> set es" using distinct_operation [OF assms(4), of q r] r by (auto simp: es_def)
      then show "expired_at now r" by (simp add: es_def)
    qed (use r in \<open>auto simp: es_def\<close>)
    then show "(if operation_id r \<in> operation_id ` set es then r\<lparr>apply_state := RolledBack\<rparr> else r)
        = (if expired_at now r then r\<lparr>apply_state := RolledBack\<rparr> else r)" by simp
  qed
  then show ?thesis
    using rollback_all_healthy [OF assms(1,2,3,4) d e] unfolding recover_expired_def es_def [symmetric]
    by (auto simp: Let_def)
qed


definition sample_begin :: begin_safe_apply where
  "sample_begin =
     \<lparr>begin_operation_id = ''op'', begin_interface_id = ''eth0'',
      begin_desired_state = \<lparr>state_ipv4 = Dhcp, state_ipv6 = Automatic,
        state_dns = \<lparr>dns_automatic = True, dns_servers = [], search_domains = []\<rparr>,
        state_routes = [], state_mtu = None\<rparr>,
      begin_timeout_seconds = 60, begin_now = 100\<rparr>"

definition sample_transaction :: pending_safe_apply where
  "sample_transaction =
     \<lparr>operation_id = ''op'', target_interface = ''eth0'', snapshot_id = ''snap'',
      deadline_unix_seconds = 160, apply_state = Prepared, old_state_hash = ''h'', new_state_hash = ''h''\<rparr>"

lemma sample_begin_checks: "begin_checks sample_codec sample_manager sample_begin = Ok (''h'', None)"
  by (simp add: begin_checks_def sample_begin_def sample_codec_def sample_manager_def str_blank_def
      utf8_chars_def char_is_whitespace_def validate_state_def validate_static_ipv4_def
      validate_static_ipv6_def)

lemma sample_begin_prepare:
  "begin_prepare sample_executor sample_codec sample_manager sample_begin ''h''
   = (Ok sample_transaction, sample_manager\<lparr>pending_records := [sample_transaction], state_file := Some [sample_transaction]\<rparr>)"
  by (simp add: begin_prepare_def sample_begin_def sample_codec_def sample_manager_def sample_executor_def
      sample_transaction_def checked_add_def persist_def replace_file_def sync_parent_def Let_def)

lemma sample_healthy: "codec_total sample_codec" "restores sample_executor"
  by (simp_all add: codec_total_def sample_codec_def restores_def sample_executor_def)


text \<open>
  C9.  Confirmation is decisive: from the deadline on a confirmation is refused with the state left as
  it was, so that the rollback cannot be escaped; before the deadline it is recorded, and from then on no
  recovery, at any time, touches the transaction.
\<close>

theorem confirm_or_rollback:
  assumes "codec_total codec" "restores ex" "io_outcomes self = []" "codec_law codec"
    and "reachable safe_init (safe_step ex codec) self" "find_active self oid = Ok r"
  shows "if deadline_unix_seconds r \<le> now
    then \<exists>e. confirm_at codec self oid now = (Err e, self) \<and> code e = InvalidState
    else \<exists>t. confirm_at codec self oid now = (Ok (r\<lparr>apply_state := Confirmed\<rparr>), t) \<and> stored codec t
      \<and> (\<forall>later. \<exists>ids u. recover_expired ex codec t later = (Ok ids, u) \<and> oid \<notin> set ids
           \<and> r\<lparr>apply_state := Confirmed\<rparr> \<in> set (pending_records u))"
proof (cases "deadline_unix_seconds r \<le> now")
  case True
  then show ?thesis using assms(6) by (simp add: confirm_at_def)
next
  case False
  have "manager_ok codec self" using safe_apply.reachable_inv [OF assms(5)] assms(4) by blast
  then have ok: "records_ok (pending_records self)" by (simp add: manager_ok_def)
  note f = find_active_Ok [OF assms(6)]
  obtain xs zs where l: "pending_records self = xs @ r # zs" using f by (meson split_list)
  have out: "oid \<notin> operation_id ` set xs" "oid \<notin> operation_id ` set zs"
    using ok l f by (auto simp: records_ok_def)
  let ?r = "r\<lparr>apply_state := Confirmed\<rparr>"
  obtain b where rep: "replace_record codec self ?r = (Ok (), self\<lparr>pending_records := xs @ ?r # zs, state_file := Some b\<rparr>)"
    "encode_state codec (xs @ ?r # zs) = Ok b"
    using replace_record_healthy [OF assms(1,3) l, of ?r] out f by auto
  let ?s = "self\<lparr>pending_records := xs @ ?r # zs, state_file := Some b\<rparr>"
  obtain lg where aud: "audit codec ?s ?r ''confirmed'' = (Ok (), ?s\<lparr>audit_log := lg\<rparr>)"
    using audit_healthy [OF assms(1), of ?s ?r "''confirmed''"] assms(3) by auto
  let ?t = "?s\<lparr>audit_log := lg\<rparr>"
  have conf: "confirm_at codec self oid now = (Ok ?r, ?t)"
    using False assms(6) rep aud by (simp add: confirm_at_def Let_def)
  have okt: "records_ok (pending_records ?t)"
    using records_ok_replace [of xs r zs ?r] ok l f by (simp add: succeeds_def is_pending_def)
  have "\<exists>ids u. recover_expired ex codec ?t later = (Ok ids, u) \<and> oid \<notin> set ids \<and> ?r \<in> set (pending_records u)"
    for later
  proof -
    have ne: "\<not> expired_at later ?r" by (simp add: expired_at_def is_pending_def)
    obtain u where u: "recover_expired ex codec ?t later
        = (Ok (map operation_id (filter (expired_at later) (pending_records ?t))), u)"
      "pending_records u = map (\<lambda>r. if expired_at later r then r\<lparr>apply_state := RolledBack\<rparr> else r) (pending_records ?t)"
      using recover_expired_healthy [OF assms(1,2), of ?t later] okt assms(3) by auto
    have "oid \<notin> set (map operation_id (filter (expired_at later) (pending_records ?t)))"
      using out ne by auto
    moreover have "?r \<in> set (pending_records u)" using ne unfolding u(2) by auto
    ultimately show ?thesis using u(1) by blast
  qed
  moreover have "stored codec ?t" using rep(2) by (simp add: stored_def)
  ultimately show ?thesis using False conf by auto
qed

theorem confirm_or_rollback_witness:
  "\<exists>t. confirm_at sample_codec
      (sample_manager\<lparr>pending_records := [sample_transaction], state_file := Some [sample_transaction]\<rparr>)
      ''op'' 120 = (Ok (sample_transaction\<lparr>apply_state := Confirmed\<rparr>), t) \<and> stored sample_codec t"
proof -
  let ?s = "sample_manager\<lparr>pending_records := [sample_transaction], state_file := Some [sample_transaction]\<rparr>"
  have init: "reachable safe_init (safe_step ex sample_codec) sample_manager" for ex
    by (rule reachable_init) (simp add: safe_init_def sample_manager_def)
  let ?ex = "sample_executor\<lparr>apply_network := \<lambda>x i s. (Panic, x)\<rparr>"
  have "begin_prepare ?ex sample_codec sample_manager sample_begin ''h'' = (Ok sample_transaction, ?s)"
    using sample_begin_prepare by (simp add: begin_prepare_def)
  then have "begin_transaction ?ex sample_codec sample_manager sample_begin = (Panic, ?s)"
    using sample_begin_checks
    by (simp add: begin_transaction_def begin_apply_def apply_and_verify_def sample_manager_def)
  moreover have "sample_manager\<lparr>io_outcomes := [], clock := 0, executor := []\<rparr> = sample_manager"
    by (simp add: sample_manager_def)
  ultimately have "safe_step ?ex sample_codec sample_manager (Begin sample_begin) ?s"
    unfolding safe_step_def Let_def
    by (intro exI [of _ "[]"] exI [of _ 0]) simp
  then have reach: "reachable safe_init (safe_step ?ex sample_codec) ?s" by (rule reachable_step [OF init])
  have rest: "restores ?ex" using sample_healthy(2) by (simp add: restores_def)
  have find: "find_active ?s ''op'' = Ok sample_transaction"
    by (simp add: find_active_def sample_transaction_def is_pending_def)
  have io: "io_outcomes ?s = []" by (simp add: sample_manager_def)
  have dl: "\<not> deadline_unix_seconds sample_transaction \<le> 120" by (simp add: sample_transaction_def)
  show ?thesis
    using confirm_or_rollback [OF sample_healthy(1) rest io sample_codec_law reach find, of 120] dl by auto
qed

text \<open>
  A record need not have been verified to be confirmed: one that is only prepared, or already rolling
  back, is accepted as well.  And a transaction whose restore failed is neither retried by an explicit
  rollback nor by recovery, although its state is documented as one to retry.
\<close>

lemma confirm_accepts_unverified:
  assumes "codec_total codec" "io_outcomes self = []" "pending_records self = [r]"
    and "apply_state r = Prepared \<or> apply_state r = RollingBack" "now < deadline_unix_seconds r"
  shows "fst (confirm_at codec self (operation_id r) now) = Ok (r\<lparr>apply_state := Confirmed\<rparr>)"
proof -
  have f: "find_active self (operation_id r) = Ok r"
    using assms(3,4) by (auto simp: find_active_def is_pending_def)
  obtain b where rep: "replace_record codec self (r\<lparr>apply_state := Confirmed\<rparr>)
      = (Ok (), self\<lparr>pending_records := [r\<lparr>apply_state := Confirmed\<rparr>], state_file := Some b\<rparr>)"
    using replace_record_healthy [OF assms(1,2), of "[]" r "[]" "r\<lparr>apply_state := Confirmed\<rparr>"] assms(3) by auto
  then show ?thesis
    using f assms(5) audit_healthy [OF assms(1), of "self\<lparr>pending_records := [r\<lparr>apply_state := Confirmed\<rparr>],
        state_file := Some b\<rparr>" "r\<lparr>apply_state := Confirmed\<rparr>" "''confirmed''"] assms(2)
    by (auto simp: confirm_at_def Let_def)
qed

lemma failed_never_retried:
  assumes "pending_records self = [r]" "apply_state r = SafeApplyFailed"
  shows "\<exists>e. rollback ex codec self (operation_id r) = (Err e, self) \<and> code e = InvalidState"
    and "recover_expired ex codec self now = (Ok [], self)"
  using assms
  by (simp_all add: rollback_def rollback_internal_def find_active_def is_pending_def recover_expired_def
      expired_at_def)

end
