(* ===== verification/Generator.thy ===== *)
theory Generator
  imports Packet_Parser Error_Model Complex_Main
begin

text \<open>
  The raw packet generator (src/crates/packet/src/generator.rs): the profile and its validation, the
  fixed packet template with its checksums, the template for a given peer, and the theoretical packet
  rate.

  A mutable sub-slice of the template is edited and written back.  The template of a valid profile is
  shown to parse back to the profile's first flow, and its checksums to verify.
\<close>

section \<open>Profiles\<close>

definition PREAMBLE_AND_SFD_BYTES :: u64 where
  "PREAMBLE_AND_SFD_BYTES = 8"

definition INTER_FRAME_GAP_BYTES :: u64 where
  "INTER_FRAME_GAP_BYTES = 12"

definition ETHERNET_FCS_BYTES :: u16 where
  "ETHERNET_FCS_BYTES = 4"

datatype generator_network = GenIpv4 | GenIpv6

datatype generator_transport = GenTcp | GenUdp

record ip_range =
  ip_start :: ip_addr
  ip_end :: ip_addr

record port_range =
  port_start :: u16
  port_end :: u16

record raw_generator_profile =
  ethernet_size :: u16
  gen_network :: generator_network
  gen_transport :: generator_transport
  source_ips :: ip_range
  destination_ips :: ip_range
  source_ports :: port_range
  destination_ports :: port_range
  flow_count :: u64
  packet_rate :: u64

definition generator_invalid :: "string \<Rightarrow> nettool_error" where
  "generator_invalid m = new_error InvalidArgument m False"

definition validate_ip_range :: "ip_range \<Rightarrow> generator_network \<Rightarrow> unit result" where
  "validate_ip_range r network =
     (let valid = (case (ip_start r, ip_end r, network) of
                     (V4 s, V4 e, GenIpv4) \<Rightarrow> s \<le> e
                   | (V6 s, V6 e, GenIpv6) \<Rightarrow> s \<le> e
                   | _ \<Rightarrow> False) in
      if \<not> valid then Err (generator_invalid ''IP range family or order does not match the profile'')
      else Ok ())"

text \<open>The IPv4 subtraction cannot wrap: \<open>validate\<close> has ordered the range before.\<close>

fun ip_cardinality_of :: "ip_addr \<Rightarrow> ip_addr \<Rightarrow> u128" where
  "ip_cardinality_of (V4 s) (V4 e) = ucast (e - s) + 1"
| "ip_cardinality_of (V6 s) (V6 e) = sat_add (sat_sub e s) 1"
| "ip_cardinality_of _ _ = 0"

definition ip_cardinality :: "ip_range \<Rightarrow> u128" where
  "ip_cardinality r = ip_cardinality_of (ip_start r) (ip_end r)"

definition port_cardinality :: "port_range \<Rightarrow> u128 result" where
  "port_cardinality r =
     (if port_start r = 0 \<or> port_end r < port_start r
      then Err (generator_invalid ''transport port range is invalid'')
      else Ok (ucast (port_end r - port_start r) + 1))"

definition validate_profile :: "raw_generator_profile \<Rightarrow> unit result" where
  "validate_profile self =
     (if ethernet_size self < 64
      then Err (generator_invalid ''Ethernet wire size must be at least 64 bytes'')
      else if flow_count self = 0 \<or> packet_rate self = 0
      then Err (generator_invalid ''flow count and packet rate must be non-zero'')
      else
      and_then (validate_ip_range (source_ips self) (gen_network self)) (\<lambda>_.
      and_then (validate_ip_range (destination_ips self) (gen_network self)) (\<lambda>_.
      and_then (port_cardinality (source_ports self)) (\<lambda>sports.
      and_then (port_cardinality (destination_ports self)) (\<lambda>dports.
      let capacity = sat_mul (sat_mul (sat_mul (ip_cardinality (source_ips self))
                        (ip_cardinality (destination_ips self))) sports) dports in
      if capacity < ucast (flow_count self)
      then Err (generator_invalid ''flow count exceeds the configured address/port matrix'')
      else Ok ())))))"

definition transmit_length :: "raw_generator_profile \<Rightarrow> u16 result" where
  "transmit_length self =
     and_then (validate_profile self) (\<lambda>_. Ok (ethernet_size self - ETHERNET_FCS_BYTES))"

section \<open>Checksums\<close>

text \<open>The \<open>while\<close> loop that folds the carries back in.\<close>

function fold_carries :: "u32 \<Rightarrow> u32" where
  "fold_carries s = (if 0xffff < s then fold_carries ((s AND 0xffff) + drop_bit 16 s) else s)"
  by auto

lemma fold_step: "unat ((s AND 0xffff) + drop_bit 16 s :: u32) = unat s mod 65536 + unat s div 65536"
proof -
  have "s AND 0xffff = take_bit 16 s" using take_bit_eq_mask [of 16 s] by (simp add: mask_eq_exp_minus_1)
  then have "unat (s AND 0xffff) = unat s mod 65536"
    by (simp only: unsigned_take_bit_eq) (simp add: take_bit_nat_def)
  moreover have "unat (drop_bit 16 s) = unat s div 65536"
    using unsigned_less [of s, where ?'a = nat]
    by (simp add: unsigned_drop_bit_eq drop_bit_nat_def take_bit_nat_def)
  moreover have "unat s mod 65536 + unat s div 65536 < 2 ^ 32"
    using unsigned_less [of s, where ?'a = nat] by simp
  ultimately show ?thesis by (simp add: unat_add_noovf)
qed

termination fold_carries
proof (relation "measure unat")
  show "((s AND 0xffff) + drop_bit 16 s, s) \<in> measure unat" if "0xffff < s" for s :: u32
  proof -
    have "65535 < unat s" using that by (simp add: word_less_nat_alt)
    then have "unat s mod 65536 + unat s div 65536 < unat s"
      using div_mult_mod_eq [of "unat s" 65536] by linarith
    then show ?thesis by (simp add: fold_step)
  qed
qed simp

declare fold_carries.simps [simp del]

fun checksum_loop :: "u32 \<Rightarrow> bytes \<Rightarrow> u32" where
  "checksum_loop s [] = s"
| "checksum_loop s [a] = fold_carries (sat_add s (ucast (from_be_bytes [a, 0] :: u16)))"
| "checksum_loop s (a # b # rest) =
     checksum_loop (fold_carries (sat_add s (ucast (from_be_bytes [a, b] :: u16)))) rest"

definition checksum :: "bytes \<Rightarrow> u16" where
  "checksum bs = (let s = checksum_loop 0 bs in NOT (if unat s < 2 ^ 16 then ucast s else - 1))"

text \<open>The source and destination of one call have the same family; for a mixed pair the source
  returns zero.\<close>

definition transport_checksum :: "ip_addr \<Rightarrow> ip_addr \<Rightarrow> u8 \<Rightarrow> bytes \<Rightarrow> u16" where
  "transport_checksum source destination protocol segment =
     (let finish = (\<lambda>pseudo. let value = checksum (pseudo @ segment) in if value = 0 then - 1 else value) in
      case (source, destination) of
        (V4 s, V4 d) \<Rightarrow>
          finish (to_be_bytes 4 s @ to_be_bytes 4 d @ [0, protocol]
            @ to_be_bytes 2 (clamp_from_nat (length segment) :: u16))
      | (V6 s, V6 d) \<Rightarrow>
          finish (to_be_bytes 16 s @ to_be_bytes 16 d
            @ to_be_bytes 4 (clamp_from_nat (length segment) :: u32) @ [0, 0, 0, protocol])
      | _ \<Rightarrow> 0)"

section \<open>The template\<close>

text \<open>\<open>let s = &mut xs[a..b]\<close>, edited by \<open>f\<close>.\<close>

definition with_slice ::
  "bytes \<Rightarrow> nat \<Rightarrow> nat \<Rightarrow> (bytes \<Rightarrow> bytes result) \<Rightarrow> bytes result" where
  "with_slice xs a b f =
     and_then (slice_range xs a b) (\<lambda>s. and_then (f s) (\<lambda>s'. copy_from_slice xs a b s'))"

fun protocol_number :: "generator_transport \<Rightarrow> u8" where
  "protocol_number GenTcp = 6"
| "protocol_number GenUdp = 17"

fun transport_header :: "generator_transport \<Rightarrow> nat" where
  "transport_header GenUdp = 8"
| "transport_header GenTcp = 20"

fun template_minimum :: "generator_network \<Rightarrow> generator_transport \<Rightarrow> nat" where
  "template_minimum GenIpv4 t = 14 + 20 + transport_header t"
| "template_minimum GenIpv6 t = 14 + 40 + transport_header t"

text \<open>The transport part, common to both families; \<open>len\<close> is its length.\<close>

definition write_transport ::
  "raw_generator_profile \<Rightarrow> ip_addr \<Rightarrow> ip_addr \<Rightarrow> nat \<Rightarrow> bytes \<Rightarrow> bytes result" where
  "write_transport self source destination len transport =
     and_then (copy_fields transport
       [(0, 2, to_be_bytes 2 (port_start (source_ports self))),
        (2, 4, to_be_bytes 2 (port_start (destination_ports self)))]) (\<lambda>transport.
     and_then (case gen_transport self of
                 GenUdp \<Rightarrow> copy_from_slice transport 4 6 (to_be_bytes 2 (clamp_from_nat len :: u16))
               | GenTcp \<Rightarrow> store_at transport 12 0x50) (\<lambda>transport.
     let sum16 = transport_checksum source destination (protocol_number (gen_transport self)) transport in
     case gen_transport self of
       GenUdp \<Rightarrow> copy_from_slice transport 6 8 (to_be_bytes 2 sum16)
     | GenTcp \<Rightarrow> copy_from_slice transport 16 18 (to_be_bytes 2 sum16)))"

definition write_ipv4 :: "raw_generator_profile \<Rightarrow> u32 \<Rightarrow> u32 \<Rightarrow> nat \<Rightarrow> bytes \<Rightarrow> bytes result" where
  "write_ipv4 self source destination len ip =
     and_then (store_at ip 0 0x45) (\<lambda>ip.
     and_then (copy_from_slice ip 2 4 (to_be_bytes 2 (clamp_from_nat (len - 14) :: u16))) (\<lambda>ip.
     and_then (store_at ip 8 64) (\<lambda>ip.
     and_then (store_at ip 9 (protocol_number (gen_transport self))) (\<lambda>ip.
     and_then (copy_fields ip [(12, 16, to_be_bytes 4 source), (16, 20, to_be_bytes 4 destination)]) (\<lambda>ip.
     copy_from_slice ip 10 12 (to_be_bytes 2 (checksum ip)))))))"

definition write_ipv6 :: "raw_generator_profile \<Rightarrow> u128 \<Rightarrow> u128 \<Rightarrow> nat \<Rightarrow> bytes \<Rightarrow> bytes result" where
  "write_ipv6 self source destination len ip =
     and_then (store_at ip 0 0x60) (\<lambda>ip.
     and_then (copy_from_slice ip 4 6 (to_be_bytes 2 (clamp_from_nat (len - 54) :: u16))) (\<lambda>ip.
     and_then (store_at ip 6 (protocol_number (gen_transport self))) (\<lambda>ip.
     and_then (store_at ip 7 64) (\<lambda>ip.
     copy_fields ip [(8, 24, to_be_bytes 16 source), (24, 40, to_be_bytes 16 destination)]))))"

definition template_bytes :: "raw_generator_profile \<Rightarrow> bytes result" where
  "template_bytes self =
     and_then (transmit_length self) (\<lambda>tl.
     let len = unat tl in
     if len < template_minimum (gen_network self) (gen_transport self)
     then Err (generator_invalid ''Ethernet frame is too small for the selected IP/transport template'')
     else
     and_then (copy_fields (replicate len 0)
       [(0, 6, [0x02, 0, 0, 0, 0, 2]), (6, 12, [0x02, 0, 0, 0, 0, 1])]) (\<lambda>bs.
     case (gen_network self, ip_start (source_ips self), ip_start (destination_ips self)) of
       (GenIpv4, V4 source, V4 destination) \<Rightarrow>
         and_then (copy_from_slice bs 12 14 (to_be_bytes 2 (0x0800 :: u16))) (\<lambda>bs.
         and_then (with_slice bs 14 34 (write_ipv4 self source destination len)) (\<lambda>bs.
         with_slice bs 34 (length bs) (write_transport self (V4 source) (V4 destination) (len - 34))))
     | (GenIpv6, V6 source, V6 destination) \<Rightarrow>
         and_then (copy_from_slice bs 12 14 (to_be_bytes 2 (0x86dd :: u16))) (\<lambda>bs.
         and_then (with_slice bs 14 54 (write_ipv6 self source destination len)) (\<lambda>bs.
         with_slice bs 54 (length bs) (write_transport self (V6 source) (V6 destination) (len - 54))))
     | _ \<Rightarrow> Err (generator_invalid ''generator address family does not match network'')))"

text \<open>Two hexadecimal digits always parse as a byte.\<close>

definition hex_digit :: "char \<Rightarrow> nat" where
  "hex_digit c =
     (let n = of_char c :: nat in if n \<le> 57 then n - 48 else if n \<le> 70 then n - 55 else n - 87)"

definition hex_byte :: "string \<Rightarrow> u8" where
  "hex_byte part = of_nat (hex_digit (part ! 0) * 16 + hex_digit (part ! 1))"

definition template_bytes_with_destination_mac :: "raw_generator_profile \<Rightarrow> string \<Rightarrow> bytes result" where
  "template_bytes_with_destination_mac self destination_mac =
     and_then (template_bytes self) (\<lambda>bs.
     let parts = split_char (CHR '':'') destination_mac in
     if length parts \<noteq> 6 \<or> list_ex (\<lambda>part. length part \<noteq> 2 \<or> \<not> list_all ascii_hexdigit part) parts
     then Err (generator_invalid ''destination MAC address is invalid'')
     else
       let mac = map hex_byte parts in
       if mac ! 0 AND 1 \<noteq> 0 \<or> mac = [0, 0, 0, 0, 0, 0]
       then Err (generator_invalid ''destination MAC address must be unicast'')
       else copy_from_slice bs 0 6 mac)"

text \<open>The rate is a double; \<open>rnd\<close> rounds an exact result to one.\<close>

definition theoretical_packets_per_second :: "(real \<Rightarrow> real) \<Rightarrow> u64 \<Rightarrow> u16 \<Rightarrow> real result" where
  "theoretical_packets_per_second rnd line_rate size16 =
     (if line_rate = 0 \<or> size16 = 0
      then Err (generator_invalid ''line rate and Ethernet size must be non-zero'')
      else
      and_then (ok_or (generator_invalid ''wire size overflow'')
         (checked_mul (ucast size16 + PREAMBLE_AND_SFD_BYTES + INTER_FRAME_GAP_BYTES) 8)) (\<lambda>wire_bits.
      Ok (rnd (rnd (real (unat line_rate)) / rnd (real (unat wire_bits))))))"

section \<open>Checksums verify\<close>

text \<open>
  \<open>word_sum\<close> is the sum of the big-endian 16-bit words of a buffer, \<open>ones_sum\<close> the one's-complement
  representative of a sum: zero for zero, otherwise the value between 1 and 65535 that is congruent
  to it modulo 65535.
\<close>

fun word_sum :: "bytes \<Rightarrow> nat" where
  "word_sum [] = 0"
| "word_sum [a] = unat a * 256"
| "word_sum (a # b # rest) = unat a * 256 + unat b + word_sum rest"

definition ones_sum :: "nat \<Rightarrow> nat" where
  "ones_sum n = (if n = 0 then 0 else (n - 1) mod 65535 + 1)"

lemma ones_sum_bound: "ones_sum n \<le> 65535"
  using mod_less_divisor [of 65535 "n - 1"] unfolding ones_sum_def by (auto simp del: mod_less_divisor)

lemma ones_sum_small: "n \<le> 65535 \<Longrightarrow> ones_sum n = n"
  by (auto simp: ones_sum_def)

lemma ones_sum_add_multiple: "0 < n \<Longrightarrow> ones_sum (n + 65535 * k) = ones_sum n"
proof -
  assume "0 < n"
  then have "(n + 65535 * k - 1) mod 65535 = (n - 1 + 65535 * k) mod 65535" by simp
  also have "\<dots> = (n - 1) mod 65535" by (rule mod_mult_self2)
  finally show ?thesis using \<open>0 < n\<close> by (simp add: ones_sum_def)
qed

lemma ones_sum_split: "\<exists>k. n = ones_sum n + 65535 * k \<and> (0 < n \<longrightarrow> 0 < ones_sum n)"
proof (cases "n = 0")
  case True
  then show ?thesis by (simp add: ones_sum_def)
next
  case False
  then have "n = ones_sum n + 65535 * ((n - 1) div 65535)"
    using mult_div_mod_eq [of 65535 "n - 1"] by (simp add: ones_sum_def)
  moreover have "0 < ones_sum n" using False by (simp add: ones_sum_def)
  ultimately show ?thesis by blast
qed

lemma ones_sum_add: "ones_sum (ones_sum a + b) = ones_sum (a + b)"
proof (cases "a = 0")
  case True
  then show ?thesis by (simp add: ones_sum_def)
next
  case False
  obtain k where k: "a = ones_sum a + 65535 * k" "0 < ones_sum a" using ones_sum_split [of a] False by auto
  have "a + b = (ones_sum a + b) + 65535 * k" using k(1) by linarith
  then have "ones_sum (a + b) = ones_sum ((ones_sum a + b) + 65535 * k)" by (rule arg_cong)
  then show ?thesis using k(2) by (simp add: ones_sum_add_multiple)
qed

lemma unat_fold_carries: "unat (fold_carries s) = ones_sum (unat s)"
proof (induction s rule: fold_carries.induct)
  case (1 s)
  show ?case
  proof (cases "0xffff < s")
    case True
    let ?v = "unat s mod 65536 + unat s div 65536"
    have big: "65535 < unat s" using True by (simp add: word_less_nat_alt)
    then have "0 < unat s div 65536" by simp
    moreover have "unat s = ?v + 65535 * (unat s div 65536)"
      using div_mult_mod_eq [of "unat s" 65536] by linarith
    ultimately have "ones_sum (unat s) = ones_sum ?v"
      using ones_sum_add_multiple [of ?v "unat s div 65536"] by simp
    then show ?thesis using True 1 by (subst fold_carries.simps) (simp add: fold_step)
  next
    case False
    then show ?thesis by (subst fold_carries.simps) (simp add: ones_sum_small word_less_nat_alt)
  qed
qed

lemma unat_two_bytes: "unat (from_be_bytes [a, b] :: u16) = unat a * 256 + unat b"
  using unat_from_be_bytes [of "[a, b]", where ?'a = 16] by (simp add: be_nat_def)

lemma unat_add_word: "unat s \<le> 65535 \<Longrightarrow> unat (sat_add (s :: u32) (ucast (w :: u16))) = unat s + unat w"
  using unsigned_less [of w, where ?'a = nat] unat_ucast_up [of w, where ?'b = 32]
  by (simp add: unat_sat_add)

lemma unat_checksum_loop: "unat s \<le> 65535 \<Longrightarrow> unat (checksum_loop s bs) = ones_sum (unat s + word_sum bs)"
proof (induction s bs rule: checksum_loop.induct)
  case (1 s)
  then show ?case by (simp add: ones_sum_small)
next
  case (2 s a)
  then show ?case by (simp add: unat_fold_carries unat_add_word unat_two_bytes)
next
  case (3 s a b rest)
  have "unat (fold_carries (sat_add s (ucast (from_be_bytes [a, b] :: u16)))) = ones_sum (unat s + (unat a * 256 + unat b))"
    using 3(2) by (simp add: unat_fold_carries unat_add_word unat_two_bytes)
  then show ?case using 3(1) by (simp add: ones_sum_bound ones_sum_add add.assoc)
qed

lemma unat_not_u16: "unat (NOT w :: u16) = 65535 - unat w"
proof -
  have "NOT w = - 1 - w" by (simp add: not_eq_complement)
  moreover have "w \<le> - 1" by simp
  ultimately show ?thesis by (simp add: unat_sub unat_max_word)
qed

lemma unat_checksum: "unat (checksum bs) = 65535 - ones_sum (word_sum bs)"
proof -
  have s: "unat (checksum_loop 0 bs) = ones_sum (word_sum bs)" using unat_checksum_loop [of 0 bs] by simp
  then have "unat (checksum_loop 0 bs) < 2 ^ 16" using ones_sum_bound [of "word_sum bs"] by simp
  then have "unat (ucast (checksum_loop 0 bs) :: u16) = ones_sum (word_sum bs)"
    using s by (simp add: unsigned_ucast_eq take_bit_nat_eq_self)
  then show ?thesis
    using \<open>unat (checksum_loop 0 bs) < 2 ^ 16\<close> by (simp add: checksum_def Let_def unat_not_u16)
qed

lemma word_sum_append: "even (length xs) \<Longrightarrow> word_sum (xs @ ys) = word_sum xs + word_sum ys"
  by (induction xs rule: word_sum.induct) auto

lemma word_sum_be16: "word_sum (to_be_bytes 2 (w :: u16)) = unat w"
proof -
  obtain a b where ab: "to_be_bytes 2 w = [a, b]"
    using list_of_length_2 [of "to_be_bytes 2 w"] by (metis length_to_be_bytes)
  have "w = from_be_bytes [a, b]"
    using from_be_bytes_to_be_bytes [of 2, where ?'a = 16, of w] by (simp add: ab)
  then have "unat w = unat a * 256 + unat b" by (metis unat_two_bytes)
  then show ?thesis by (simp add: ab)
qed

text \<open>A buffer into which its own checksum is written, at an even offset that held zero, sums to
  all ones: its checksum is zero.\<close>

lemma ones_sum_complete: "0 < c \<or> 0 < n \<Longrightarrow> (n + c) mod 65535 = 0 \<Longrightarrow> ones_sum (n + c) = 65535"
proof -
  assume "0 < c \<or> 0 < n" "(n + c) mod 65535 = 0"
  then obtain k where k: "n + c = 65535 * k" "0 < n + c" by (auto elim!: dvdE simp: mod_eq_0_iff_dvd)
  then obtain j where j: "k = Suc j" by (cases k) auto
  have "ones_sum (65535 + 65535 * j) = ones_sum 65535" by (rule ones_sum_add_multiple) simp
  then show ?thesis using k(1) j by (simp add: ones_sum_small)
qed

lemma complement_mod: "(n + (65535 - ones_sum n)) mod 65535 = 0" "0 < n + (65535 - ones_sum n)"
proof -
  obtain k where k: "n = ones_sum n + 65535 * k" "0 < n \<longrightarrow> 0 < ones_sum n" using ones_sum_split by blast
  have "n + (65535 - ones_sum n) = 65535 + 65535 * k" using k(1) ones_sum_bound [of n] by linarith
  then have "n + (65535 - ones_sum n) = 65535 * Suc k" by simp
  then show "(n + (65535 - ones_sum n)) mod 65535 = 0" "0 < n + (65535 - ones_sum n)" by simp_all
qed

lemma checksum_verifies:
  assumes "even (length xs)" "c = checksum (xs @ [0, 0] @ ys) \<or> (checksum (xs @ [0, 0] @ ys) = 0 \<and> c = - 1)"
  shows "checksum (xs @ to_be_bytes 2 c @ ys) = 0"
proof -
  let ?n = "word_sum xs + word_sum ys"
  have "word_sum (xs @ [0, 0] @ ys) = ?n" using assms(1) by (simp add: word_sum_append)
  then have old: "unat (checksum (xs @ [0, 0] @ ys)) = 65535 - ones_sum ?n" by (simp add: unat_checksum)
  have new: "word_sum (xs @ to_be_bytes 2 c @ ys) = ?n + unat c"
    using assms(1) by (simp add: word_sum_append word_sum_be16)
  have "ones_sum (?n + unat c) = 65535"
  proof (cases "c = checksum (xs @ [0, 0] @ ys)")
    case True
    then have "unat c = 65535 - ones_sum ?n" using old by simp
    then show ?thesis using complement_mod [of ?n] ones_sum_complete [of "unat c" ?n] by auto
  next
    case False
    then have c: "unat c = 65535" and "checksum (xs @ [0, 0] @ ys) = 0"
      using assms(2) by (simp_all add: unat_max_word)
    then have "ones_sum ?n = 65535" using old ones_sum_bound [of ?n] by simp
    then obtain k where "?n = 65535 + 65535 * k" using ones_sum_split [of ?n] by auto
    then show ?thesis using c by (intro ones_sum_complete) simp_all
  qed
  then have "unat (checksum (xs @ to_be_bytes 2 c @ ys)) = 0" by (simp add: unat_checksum new)
  then show ?thesis by (simp add: unat_eq_0)
qed

section \<open>The layout of a template\<close>

definition ethernet_part :: "u16 \<Rightarrow> bytes" where
  "ethernet_part etype = [0x02, 0, 0, 0, 0, 2] @ [0x02, 0, 0, 0, 0, 1] @ to_be_bytes 2 etype"

definition ipv4_part :: "generator_transport \<Rightarrow> u32 \<Rightarrow> u32 \<Rightarrow> nat \<Rightarrow> bytes \<Rightarrow> bytes" where
  "ipv4_part t s d len sum_bytes =
     ([0x45, 0] @ to_be_bytes 2 (clamp_from_nat (len - 14) :: u16) @ [0, 0, 0, 0, 64, protocol_number t])
     @ sum_bytes @ (to_be_bytes 4 s @ to_be_bytes 4 d)"

definition ipv6_part :: "generator_transport \<Rightarrow> u128 \<Rightarrow> u128 \<Rightarrow> nat \<Rightarrow> bytes" where
  "ipv6_part t s d len =
     [0x60, 0, 0, 0] @ to_be_bytes 2 (clamp_from_nat (len - 54) :: u16) @ [protocol_number t, 64]
     @ to_be_bytes 16 s @ to_be_bytes 16 d"

definition ports_part :: "raw_generator_profile \<Rightarrow> bytes" where
  "ports_part self =
     to_be_bytes 2 (port_start (source_ports self)) @ to_be_bytes 2 (port_start (destination_ports self))"

text \<open>What precedes and what follows the checksum of the transport part.\<close>

fun transport_front :: "raw_generator_profile \<Rightarrow> generator_transport \<Rightarrow> nat \<Rightarrow> bytes" where
  "transport_front self GenUdp len = ports_part self @ to_be_bytes 2 (clamp_from_nat len :: u16)"
| "transport_front self GenTcp len = ports_part self @ replicate 8 0 @ [0x50, 0, 0, 0]"

fun transport_back :: "generator_transport \<Rightarrow> nat \<Rightarrow> bytes" where
  "transport_back GenUdp len = replicate (len - 8) 0"
| "transport_back GenTcp len = replicate (len - 18) 0"

definition transport_part :: "raw_generator_profile \<Rightarrow> ip_addr \<Rightarrow> ip_addr \<Rightarrow> nat \<Rightarrow> bytes" where
  "transport_part self s d len =
     (let t = gen_transport self; front = transport_front self t len; back = transport_back t len
      in front @ to_be_bytes 2 (transport_checksum s d (protocol_number t) (front @ [0, 0] @ back)) @ back)"

lemma length_ports_part [simp]: "length (ports_part self) = 4"
  by (simp add: ports_part_def)

lemma length_ipv4_part [simp]: "length sum_bytes = 2 \<Longrightarrow> length (ipv4_part t s d len sum_bytes) = 20"
  by (simp add: ipv4_part_def)

lemma length_ipv6_part [simp]: "length (ipv6_part t s d len) = 40"
  by (simp add: ipv6_part_def)

lemma length_ethernet_part [simp]: "length (ethernet_part etype) = 14"
  by (simp add: ethernet_part_def)

lemma length_transport_part: "transport_header (gen_transport self) \<le> len \<Longrightarrow> length (transport_part self s d len) = len"
  by (cases "gen_transport self") (simp_all add: transport_part_def Let_def)

lemma replicate_split: "k \<le> n \<Longrightarrow> replicate n x = replicate k x @ replicate (n - k) x"
  by (metis le_add_diff_inverse replicate_add)

lemma write_ipv4_eq:
  "write_ipv4 self s d len (replicate 20 0) =
     Ok (ipv4_part (gen_transport self) s d len
       (to_be_bytes 2 (checksum (ipv4_part (gen_transport self) s d len [0, 0]))))"
proof -
  have "replicate 20 (0 :: u8) = [0,0,0,0,0,0,0,0,0,0,0,0,0,0,0,0,0,0,0,0]" by (simp add: numeral_eq_Suc)
  then show ?thesis
    by (simp add: write_ipv4_def ipv4_part_def patch_def list_update_append)
qed

lemma write_ipv6_eq:
  "write_ipv6 self s d len (replicate 40 0) = Ok (ipv6_part (gen_transport self) s d len)"
proof -
  have "replicate 40 (0 :: u8) = [0,0,0,0,0,0,0,0] @ replicate 32 0" by (simp add: numeral_eq_Suc)
  then show ?thesis
    by (simp add: write_ipv6_def ipv6_part_def patch_def list_update_append)
qed

lemma write_transport_eq:
  assumes "transport_header (gen_transport self) \<le> len"
  shows "write_transport self s d len (replicate len 0) = Ok (transport_part self s d len)"
proof (cases "gen_transport self")
  case GenUdp
  then have r: "replicate len (0 :: u8) = [0,0,0,0,0,0,0,0] @ replicate (len - 8) 0"
    using assms replicate_split [of 8 len "0 :: u8"] by (simp add: numeral_eq_Suc)
  show ?thesis
    unfolding write_transport_def transport_part_def r
    by (simp add: GenUdp patch_def ports_part_def Let_def)
next
  case GenTcp
  then have r: "replicate len (0 :: u8) = [0,0,0,0] @ replicate 8 0 @ [0,0,0,0,0,0] @ replicate (len - 18) 0"
    using assms replicate_split [of 18 len "0 :: u8"] by (simp add: numeral_eq_Suc)
  show ?thesis
    unfolding write_transport_def transport_part_def r
    by (simp add: GenTcp patch_def ports_part_def Let_def list_update_append)
qed

lemma with_slice_append:
  assumes "length xs = a" "length ys = b - a" "f ys = Ok ys'" "length ys' = length ys" "a \<le> b"
  shows "with_slice (xs @ ys @ zs) a b f = Ok (xs @ ys' @ zs)"
  using assms by (simp add: with_slice_def patch_def)

lemma template_front:
  assumes "14 \<le> n"
  shows "and_then (copy_fields (replicate n 0) [(0, 6, [0x02, 0, 0, 0, 0, 2]), (6, 12, [0x02, 0, 0, 0, 0, 1])])
      (\<lambda>bs. copy_from_slice bs 12 14 (to_be_bytes 2 (etype :: u16)))
    = (Ok (ethernet_part etype @ replicate (n - 14) 0) :: bytes result)"
proof -
  have "replicate n (0 :: u8) = replicate 14 0 @ replicate (n - 14) 0"
    using assms by (rule replicate_split)
  then show ?thesis
    using assms by (simp add: ethernet_part_def patch_def numeral_eq_Suc)
qed

lemma template_start:
  assumes "14 \<le> n"
  obtains bs where "copy_fields (replicate n 0) [(0, 6, [0x02, 0, 0, 0, 0, 2]), (6, 12, [0x02, 0, 0, 0, 0, 1])]
      = (Ok bs :: bytes result)"
    "copy_from_slice bs 12 14 (to_be_bytes 2 (etype :: u16)) = (Ok (ethernet_part etype @ replicate (n - 14) 0) :: bytes result)"
  using template_front [OF assms, of etype] by (auto simp: and_then_eq_Ok)

lemma transmit_length_Ok:
  assumes "validate_profile self = Ok ()"
  shows "\<exists>tl. transmit_length self = Ok tl \<and> unat tl = unat (ethernet_size self) - 4 \<and> 60 \<le> unat tl"
proof -
  have "\<not> ethernet_size self < 64" using assms by (auto simp: validate_profile_def)
  then have "64 \<le> unat (ethernet_size self)" by (simp add: word_less_nat_alt)
  then have "unat (ethernet_size self - 4) = unat (ethernet_size self) - 4"
    by (subst unat_sub) (simp_all add: word_le_nat_alt)
  then show ?thesis
    using assms \<open>64 \<le> unat (ethernet_size self)\<close> by (simp add: transmit_length_def ETHERNET_FCS_BYTES_def)
qed

lemma valid_profile_family:
  assumes "validate_profile self = Ok ()"
  shows "gen_network self = GenIpv4 \<Longrightarrow> \<exists>s d. ip_start (source_ips self) = V4 s \<and> ip_start (destination_ips self) = V4 d"
    and "gen_network self = GenIpv6 \<Longrightarrow> \<exists>s d. ip_start (source_ips self) = V6 s \<and> ip_start (destination_ips self) = V6 d"
  using assms
  by (auto simp: validate_profile_def validate_ip_range_def outcome_simps Let_def
      split: if_splits ip_addr.splits generator_network.splits)

lemma template_bytes_ipv4:
  assumes v: "validate_profile self = Ok ()" and net: "gen_network self = GenIpv4"
    and ips: "ip_start (source_ips self) = V4 s" "ip_start (destination_ips self) = V4 d"
    and len: "len = unat (ethernet_size self) - 4" "34 + transport_header (gen_transport self) \<le> len"
  shows "template_bytes self = Ok (ethernet_part 0x0800
    @ ipv4_part (gen_transport self) s d len (to_be_bytes 2 (checksum (ipv4_part (gen_transport self) s d len [0, 0])))
    @ transport_part self (V4 s) (V4 d) (len - 34))"
proof -
  let ?e = "ethernet_part 0x0800"
  let ?ip = "ipv4_part (gen_transport self) s d len (to_be_bytes 2 (checksum (ipv4_part (gen_transport self) s d len [0, 0])))"
  obtain tl where tl: "transmit_length self = Ok tl" "unat tl = len" using transmit_length_Ok [OF v] len by auto
  have n: "14 \<le> len" using len(2) by simp
  obtain bs where bs: "copy_fields (replicate len 0) [(0, 6, [0x02, 0, 0, 0, 0, 2]), (6, 12, [0x02, 0, 0, 0, 0, 1])]
      = (Ok bs :: bytes result)"
    "copy_from_slice bs 12 14 (to_be_bytes 2 (0x0800 :: u16)) = (Ok (?e @ replicate (len - 14) 0) :: bytes result)"
    by (rule template_start [OF n])
  have r: "replicate (len - 14) (0 :: u8) = replicate 20 0 @ replicate (len - 34) 0"
    using replicate_split [of 20 "len - 14" "0 :: u8"] len(2) by simp
  have a: "with_slice (?e @ replicate 20 0 @ replicate (len - 34) 0) 14 34 (write_ipv4 self s d len)
      = Ok (?e @ ?ip @ replicate (len - 34) 0)"
    by (rule with_slice_append) (simp_all add: write_ipv4_eq)
  have t: "length (transport_part self (V4 s) (V4 d) (len - 34)) = len - 34"
    using len(2) by (intro length_transport_part) simp
  have b: "with_slice ((?e @ ?ip) @ replicate (len - 34) 0 @ []) 34 len (write_transport self (V4 s) (V4 d) (len - 34))
      = Ok ((?e @ ?ip) @ transport_part self (V4 s) (V4 d) (len - 34) @ [])"
    using len(2) t by (intro with_slice_append) (simp_all add: write_transport_eq)
  have "\<not> len < template_minimum (gen_network self) (gen_transport self)" using len(2) net by simp
  then show ?thesis
    using tl bs net ips a b len(2) by (simp add: template_bytes_def Let_def r)
qed

lemma template_bytes_ipv6:
  assumes v: "validate_profile self = Ok ()" and net: "gen_network self = GenIpv6"
    and ips: "ip_start (source_ips self) = V6 s" "ip_start (destination_ips self) = V6 d"
    and len: "len = unat (ethernet_size self) - 4" "54 + transport_header (gen_transport self) \<le> len"
  shows "template_bytes self = Ok (ethernet_part 0x86dd @ ipv6_part (gen_transport self) s d len
    @ transport_part self (V6 s) (V6 d) (len - 54))"
proof -
  let ?e = "ethernet_part 0x86dd" and ?ip = "ipv6_part (gen_transport self) s d len"
  obtain tl where tl: "transmit_length self = Ok tl" "unat tl = len" using transmit_length_Ok [OF v] len by auto
  have n: "14 \<le> len" using len(2) by simp
  obtain bs where bs: "copy_fields (replicate len 0) [(0, 6, [0x02, 0, 0, 0, 0, 2]), (6, 12, [0x02, 0, 0, 0, 0, 1])]
      = (Ok bs :: bytes result)"
    "copy_from_slice bs 12 14 (to_be_bytes 2 (0x86dd :: u16)) = (Ok (?e @ replicate (len - 14) 0) :: bytes result)"
    by (rule template_start [OF n])
  have r: "replicate (len - 14) (0 :: u8) = replicate 40 0 @ replicate (len - 54) 0"
    using replicate_split [of 40 "len - 14" "0 :: u8"] len(2) by simp
  have a: "with_slice (?e @ replicate 40 0 @ replicate (len - 54) 0) 14 54 (write_ipv6 self s d len)
      = Ok (?e @ ?ip @ replicate (len - 54) 0)"
    by (rule with_slice_append) (simp_all add: write_ipv6_eq)
  have t: "length (transport_part self (V6 s) (V6 d) (len - 54)) = len - 54"
    using len(2) by (intro length_transport_part) simp
  have b: "with_slice ((?e @ ?ip) @ replicate (len - 54) 0 @ []) 54 len (write_transport self (V6 s) (V6 d) (len - 54))
      = Ok ((?e @ ?ip) @ transport_part self (V6 s) (V6 d) (len - 54) @ [])"
    using len(2) t by (intro with_slice_append) (simp_all add: write_transport_eq)
  have "\<not> len < template_minimum (gen_network self) (gen_transport self)" using len(2) net by simp
  then show ?thesis
    using tl bs net ips a b len(2) by (simp add: template_bytes_def Let_def r)
qed

section \<open>A template parses back\<close>

lemma parse_ethernet_part:
  assumes "etype \<noteq> 0x8100" "etype \<noteq> 0x88a8"
  shows "parse_ethernet (ethernet_part etype @ rest) =
    Ok \<lparr>eth_destination = [0x02, 0, 0, 0, 0, 2], eth_source = [0x02, 0, 0, 0, 0, 1], vlan_tags = [None, None],
        ether_type = etype\<rparr>"
  using assms
  by (simp add: parse_ethernet_def ethernet_part_def get_to_def ETHERNET_HEADER_LENGTH_def patch_def
      parse_vlan_tags.simps ETHERTYPE_VLAN_def ETHERTYPE_QINQ_def bytes_simps)

lemma parse_ipv4_part:
  assumes "length tr = len - 34" "34 \<le> len" "len < 65536" "length sum_bytes = 2"
  shows "parse_ipv4 (ipv4_part t s d len sum_bytes @ tr) =
    Ok \<lparr>ip_source = V4 s, ip_destination = V4 d, ip_protocol = protocol_number t, non_initial_fragment = False,
        ip_payload = tr\<rparr>"
proof -
  have n: "unat (clamp_from_nat (len - 14) :: u16) = len - 14" using assms by (simp add: unat_clamp_from_nat)
  have z: "(from_be_bytes [0, 0] :: u16) = 0" by (simp add: from_be_bytes_def be_nat_def)
  have "drop_bit 4 (0x45 :: u8) = 4" "unat (0x45 AND 0x0f :: u8) = 5" by simp_all
  then show ?thesis
    using assms n
    by (auto simp: parse_ipv4_def ipv4_part_def get_to_def bytes_simps z Let_def nth_append)
qed

lemma ipv6_no_extension:
  "protocol \<noteq> 0 \<Longrightarrow> protocol \<noteq> 43 \<Longrightarrow> protocol \<noteq> 60 \<Longrightarrow> protocol \<noteq> 44 \<Longrightarrow> protocol \<noteq> 51 \<Longrightarrow> offset \<le> length packet \<Longrightarrow>
     ipv6_headers 8 packet src dst protocol offset False =
       Ok \<lparr>ip_source = ipv6_from_octets src, ip_destination = ipv6_from_octets dst, ip_protocol = protocol,
           non_initial_fragment = False, ip_payload = drop offset packet\<rparr>"
  using ipv6_headers.simps(2) [of 7] by (simp add: ipv6_extension_def get_from_def)

lemma parse_ipv6_part:
  assumes "length tr = len - 54" "54 \<le> len" "len < 65536"
  shows "parse_ipv6 (ipv6_part t s d len @ tr) =
    Ok \<lparr>ip_source = V6 s, ip_destination = V6 d, ip_protocol = protocol_number t, non_initial_fragment = False,
        ip_payload = tr\<rparr>"
proof -
  have n: "unat (clamp_from_nat (len - 54) :: u16) = len - 54" using assms by (simp add: unat_clamp_from_nat)
  have "drop_bit 4 (0x60 :: u8) = 6" by simp
  moreover have "ipv6_headers 8 (ipv6_part t s d len @ tr) (to_be_bytes 16 s) (to_be_bytes 16 d) (protocol_number t) 40 False
      = Ok \<lparr>ip_source = V6 s, ip_destination = V6 d, ip_protocol = protocol_number t, non_initial_fragment = False,
          ip_payload = tr\<rparr>"
    by (subst ipv6_no_extension) (cases t; simp add: bytes_simps)+
  ultimately show ?thesis
    using assms n
    by (auto simp: parse_ipv6_def ipv6_part_def get_to_def bytes_simps patch_def usize_checked_add_def usize_max_def
        nth_append)
qed

text \<open>The first flow of a profile, as a parsed packet.\<close>

definition template_transport :: "raw_generator_profile \<Rightarrow> nat \<Rightarrow> transport_packet" where
  "template_transport self len =
     (case gen_transport self of
        GenUdp \<Rightarrow> Udp \<lparr>udp_source_port = port_start (source_ports self),
                       udp_destination_port = port_start (destination_ports self),
                       udp_payload = replicate (len - 8) 0\<rparr>
      | GenTcp \<Rightarrow> Tcp \<lparr>tcp_source_port = port_start (source_ports self),
                       tcp_destination_port = port_start (destination_ports self), tcp_sequence = 0,
                       tcp_acknowledgement = 0, tcp_flags = 0, tcp_window = 0,
                       tcp_payload = replicate (len - 20) 0\<rparr>)"

lemma parse_transport_part:
  assumes "transport_header (gen_transport self) \<le> len" "len < 65536"
    and ip: "non_initial_fragment ip = False" "ip_protocol ip = protocol_number (gen_transport self)"
      "ip_payload ip = transport_part self s d len"
  shows "parse_transport ip = Ok (template_transport self len)"
proof (cases "gen_transport self")
  case GenUdp
  have "unat (clamp_from_nat len :: u16) = len" using assms(2) by (simp add: unat_clamp_from_nat)
  then show ?thesis
    using assms GenUdp
    by (auto simp: parse_transport_def parse_udp_def transport_part_def ports_part_def get_to_def Let_def bytes_simps
        template_transport_def)
next
  case GenTcp
  have z: "(from_be_bytes [0, 0, 0, 0] :: u32) = 0" "(from_be_bytes [0, 0] :: u16) = 0"
    by (simp_all add: from_be_bytes_def be_nat_def)
  have "replicate (len - 18) (0 :: u8) = [0, 0] @ replicate (len - 20) 0"
    using assms(1) GenTcp replicate_split [of 2 "len - 18" "0 :: u8"] by (simp add: numeral_eq_Suc)
  moreover have "drop_bit 4 (0x50 :: u8) = 5" by simp
  moreover have "replicate 8 (0 :: u8) = [0,0,0,0,0,0,0,0]" by (simp add: numeral_eq_Suc)
  ultimately show ?thesis
    using assms GenTcp z
    by (auto simp: parse_transport_def parse_tcp_def transport_part_def ports_part_def get_to_def get_from_def Let_def
        bytes_simps template_transport_def nth_append)
qed

text \<open>The pseudo header of RFC 768, 793 and 8200 the transport checksum covers.\<close>

fun pseudo_header :: "ip_addr \<Rightarrow> ip_addr \<Rightarrow> u8 \<Rightarrow> nat \<Rightarrow> bytes" where
  "pseudo_header (V4 s) (V4 d) protocol len =
     to_be_bytes 4 s @ to_be_bytes 4 d @ [0, protocol] @ to_be_bytes 2 (of_nat len :: u16)"
| "pseudo_header (V6 s) (V6 d) protocol len =
     to_be_bytes 16 s @ to_be_bytes 16 d @ to_be_bytes 4 (of_nat len :: u32) @ [0, 0, 0, protocol]"
| "pseudo_header _ _ protocol len = []"

lemma even_pseudo_header: "even (length (pseudo_header s d protocol len))"
  by (cases s; cases d) simp_all

lemma transport_checksum_eq:
  assumes "is_ipv4 s = is_ipv4 d" "length segment < 65536"
  shows "transport_checksum s d protocol segment =
    (let v = checksum (pseudo_header s d protocol (length segment) @ segment) in if v = 0 then - 1 else v)"
  using assms by (cases s; cases d) (simp_all add: transport_checksum_def clamp_from_nat_def Let_def)

lemma transport_part_verifies:
  assumes "is_ipv4 s = is_ipv4 d" "len < 65536" "transport_header (gen_transport self) \<le> len"
  shows "checksum (pseudo_header s d (protocol_number (gen_transport self)) len @ transport_part self s d len) = 0"
proof -
  let ?t = "gen_transport self"
  let ?f = "transport_front self ?t len" and ?b = "transport_back ?t len"
    and ?p = "pseudo_header s d (protocol_number ?t) len"
  have len: "length (?f @ [0, 0] @ ?b) = len" using assms(3) by (cases ?t) simp_all
  have "even (length ?f)" by (cases ?t) simp_all
  then have even: "even (length (?p @ ?f))" using even_pseudo_header by simp
  let ?c = "transport_checksum s d (protocol_number ?t) (?f @ [0, 0] @ ?b)"
  have "?c = (let v = checksum (?p @ ?f @ [0, 0] @ ?b) in if v = 0 then - 1 else v)"
    using transport_checksum_eq [OF assms(1), of "?f @ [0, 0] @ ?b" "protocol_number ?t"] assms(2)
    unfolding len by simp
  then have "checksum ((?p @ ?f) @ to_be_bytes 2 ?c @ ?b) = 0"
    by (intro checksum_verifies [OF even]) (auto simp: Let_def)
  then show ?thesis by (simp add: transport_part_def Let_def)
qed

definition template_packet :: "raw_generator_profile \<Rightarrow> nat \<Rightarrow> bytes \<Rightarrow> parsed_packet" where
  "template_packet self len segment =
     \<lparr>pp_ethernet = \<lparr>eth_destination = [0x02, 0, 0, 0, 0, 2], eth_source = [0x02, 0, 0, 0, 0, 1],
        vlan_tags = [None, None],
        ether_type = (case gen_network self of GenIpv4 \<Rightarrow> ETHERTYPE_IPV4 | GenIpv6 \<Rightarrow> ETHERTYPE_IPV6)\<rparr>,
      pp_arp = None,
      pp_ip = Some \<lparr>ip_source = ip_start (source_ips self), ip_destination = ip_start (destination_ips self),
        ip_protocol = protocol_number (gen_transport self), non_initial_fragment = False, ip_payload = segment\<rparr>,
      pp_transport = Some (template_transport self len)\<rparr>"

lemma parse_template:
  assumes ip: "(if v4 then parse_ipv4 payload else parse_ipv6 payload) = Ok p"
    and t: "parse_transport p = Ok t"
  shows "parse_packet (ethernet_part (if v4 then 0x0800 else 0x86dd) @ payload) =
    Ok \<lparr>pp_ethernet = \<lparr>eth_destination = [0x02, 0, 0, 0, 0, 2], eth_source = [0x02, 0, 0, 0, 0, 1],
          vlan_tags = [None, None], ether_type = (if v4 then ETHERTYPE_IPV4 else ETHERTYPE_IPV6)\<rparr>,
        pp_arp = None, pp_ip = Some p, pp_transport = Some t\<rparr>"
  using assms
  by (simp add: parse_packet_def parse_ethernet_part finish_ip_def get_from_def ETHERNET_HEADER_LENGTH_def
      ETHERTYPE_ARP_def ETHERTYPE_IPV4_def ETHERTYPE_IPV6_def split: if_splits)

definition network_header :: "generator_network \<Rightarrow> nat" where
  "network_header n = (case n of GenIpv4 \<Rightarrow> 20 | GenIpv6 \<Rightarrow> 40)"

lemma ipv4_part_verifies:
  "checksum (ipv4_part t s d len (to_be_bytes 2 (checksum (ipv4_part t s d len [0, 0])))) = 0"
  unfolding ipv4_part_def by (rule checksum_verifies) simp_all

text \<open>The conclusion for one family, shared by the two cases.\<close>

definition template_ok :: "raw_generator_profile \<Rightarrow> bytes \<Rightarrow> bool" where
  "template_ok self bs \<longleftrightarrow> length bs = unat (ethernet_size self) - 4
    \<and> (let h = 14 + network_header (gen_network self); segment = drop h bs in
        parse_packet bs = Ok (template_packet self (length segment) segment)
        \<and> (gen_network self = GenIpv4 \<longrightarrow> checksum (take 20 (drop 14 bs)) = 0)
        \<and> checksum (pseudo_header (ip_start (source_ips self)) (ip_start (destination_ips self))
            (protocol_number (gen_transport self)) (length segment) @ segment) = 0)"

lemma template_ipv4_ok:
  assumes v: "validate_profile self = Ok ()" and GenIpv4: "gen_network self = GenIpv4"
    and fits: "template_minimum (gen_network self) (gen_transport self) \<le> unat (ethernet_size self) - 4"
  shows "\<exists>bs. template_bytes self = Ok bs \<and> template_ok self bs"
proof -
  let ?len = "unat (ethernet_size self) - 4"
  obtain s d where ips: "ip_start (source_ips self) = V4 s" "ip_start (destination_ips self) = V4 d"
    using valid_profile_family(1) [OF v GenIpv4] by blast
  have small: "?len < 65536" using unsigned_less [of "ethernet_size self", where ?'a = nat] by simp
  have fit: "34 + transport_header (gen_transport self) \<le> ?len" using fits GenIpv4 by simp
  let ?ip = "ipv4_part (gen_transport self) s d ?len (to_be_bytes 2 (checksum (ipv4_part (gen_transport self) s d ?len [0, 0])))"
  let ?tr = "transport_part self (V4 s) (V4 d) (?len - 34)"
  have bs: "template_bytes self = Ok (ethernet_part 0x0800 @ ?ip @ ?tr)"
    by (rule template_bytes_ipv4 [OF v GenIpv4 ips refl fit])
  have tr: "length ?tr = ?len - 34" using fit by (intro length_transport_part) simp
  have p: "parse_ipv4 (?ip @ ?tr) = Ok \<lparr>ip_source = V4 s, ip_destination = V4 d,
      ip_protocol = protocol_number (gen_transport self), non_initial_fragment = False, ip_payload = ?tr\<rparr>"
    using tr fit small by (intro parse_ipv4_part) simp_all
  have t: "parse_transport \<lparr>ip_source = V4 s, ip_destination = V4 d, ip_protocol = protocol_number (gen_transport self),
      non_initial_fragment = False, ip_payload = ?tr\<rparr> = Ok (template_transport self (?len - 34))"
    using fit small by (intro parse_transport_part) simp_all
  have "parse_packet (ethernet_part 0x0800 @ ?ip @ ?tr) = Ok (template_packet self (?len - 34) ?tr)"
    using parse_template [of True "?ip @ ?tr"] p t by (simp add: template_packet_def GenIpv4 ips)
  moreover have "checksum (pseudo_header (V4 s) (V4 d) (protocol_number (gen_transport self)) (?len - 34) @ ?tr) = 0"
    using fit small by (intro transport_part_verifies) simp_all
  moreover have "take 20 (drop 14 (ethernet_part 0x0800 @ ?ip @ ?tr)) = ?ip" by simp
  moreover have "length (ethernet_part 0x0800 @ ?ip @ ?tr) = ?len" using tr fit by simp
  ultimately show ?thesis
    using bs tr ipv4_part_verifies GenIpv4 ips by (simp add: template_ok_def network_header_def Let_def)
qed

lemma template_ipv6_ok:
  assumes v: "validate_profile self = Ok ()" and GenIpv6: "gen_network self = GenIpv6"
    and fits: "template_minimum (gen_network self) (gen_transport self) \<le> unat (ethernet_size self) - 4"
  shows "\<exists>bs. template_bytes self = Ok bs \<and> template_ok self bs"
proof -
  let ?len = "unat (ethernet_size self) - 4"
  obtain s d where ips: "ip_start (source_ips self) = V6 s" "ip_start (destination_ips self) = V6 d"
    using valid_profile_family(2) [OF v GenIpv6] by blast
  have small: "?len < 65536" using unsigned_less [of "ethernet_size self", where ?'a = nat] by simp
  have fit: "54 + transport_header (gen_transport self) \<le> ?len" using fits GenIpv6 by simp
  let ?ip = "ipv6_part (gen_transport self) s d ?len" and ?tr = "transport_part self (V6 s) (V6 d) (?len - 54)"
  have bs: "template_bytes self = Ok (ethernet_part 0x86dd @ ?ip @ ?tr)"
    by (rule template_bytes_ipv6 [OF v GenIpv6 ips refl fit])
  have tr: "length ?tr = ?len - 54" using fit by (intro length_transport_part) simp
  have p: "parse_ipv6 (?ip @ ?tr) = Ok \<lparr>ip_source = V6 s, ip_destination = V6 d,
      ip_protocol = protocol_number (gen_transport self), non_initial_fragment = False, ip_payload = ?tr\<rparr>"
    using tr fit small by (intro parse_ipv6_part) simp_all
  have t: "parse_transport \<lparr>ip_source = V6 s, ip_destination = V6 d, ip_protocol = protocol_number (gen_transport self),
      non_initial_fragment = False, ip_payload = ?tr\<rparr> = Ok (template_transport self (?len - 54))"
    using fit small by (intro parse_transport_part) simp_all
  have "parse_packet (ethernet_part 0x86dd @ ?ip @ ?tr) = Ok (template_packet self (?len - 54) ?tr)"
    using parse_template [of False "?ip @ ?tr"] p t by (simp add: template_packet_def GenIpv6 ips)
  moreover have "checksum (pseudo_header (V6 s) (V6 d) (protocol_number (gen_transport self)) (?len - 54) @ ?tr) = 0"
    using fit small by (intro transport_part_verifies) simp_all
  moreover have "length (ethernet_part 0x86dd @ ?ip @ ?tr) = ?len" using tr fit by simp
  ultimately show ?thesis
    using bs tr GenIpv6 ips by (simp add: template_ok_def network_header_def Let_def)
qed

text \<open>
  C29.  What the generator emits the parser understands: a valid profile whose frame holds the headers
  has a template of exactly the wire size without the frame check sequence; parsing it gives back the
  first address and port of each range, the transport protocol and an unfragmented packet; and the
  IPv4 header checksum and the transport checksum with its pseudo header verify.
\<close>

theorem template_parses_back:
  assumes v: "validate_profile self = Ok ()"
    and fits: "template_minimum (gen_network self) (gen_transport self) \<le> unat (ethernet_size self) - 4"
  shows "\<exists>bs. template_bytes self = Ok bs \<and> length bs = unat (ethernet_size self) - 4
    \<and> (let h = 14 + network_header (gen_network self); segment = drop h bs in
        parse_packet bs = Ok (template_packet self (length segment) segment)
        \<and> (gen_network self = GenIpv4 \<longrightarrow> checksum (take 20 (drop 14 bs)) = 0)
        \<and> checksum (pseudo_header (ip_start (source_ips self)) (ip_start (destination_ips self))
            (protocol_number (gen_transport self)) (length segment) @ segment) = 0)"
  using template_ipv4_ok [OF v _ fits] template_ipv6_ok [OF v _ fits]
  unfolding template_ok_def by (cases "gen_network self") blast+

definition sample_profile :: raw_generator_profile where
  "sample_profile = \<lparr>ethernet_size = 64, gen_network = GenIpv4, gen_transport = GenUdp,
     source_ips = \<lparr>ip_start = V4 0x0a000001, ip_end = V4 0x0a000004\<rparr>,
     destination_ips = \<lparr>ip_start = V4 0x0a000101, ip_end = V4 0x0a000101\<rparr>,
     source_ports = \<lparr>port_start = 1000, port_end = 1003\<rparr>, destination_ports = \<lparr>port_start = 9, port_end = 9\<rparr>,
     flow_count = 16, packet_rate = 1000\<rparr>"

theorem template_parses_back_witness:
  "\<exists>bs. template_bytes sample_profile = Ok bs \<and> length bs = 60
    \<and> parse_packet bs = Ok (template_packet sample_profile 26 (drop 34 bs))
    \<and> checksum (take 20 (drop 14 bs)) = 0"
proof -
  have "validate_profile sample_profile = Ok ()"
    by (simp add: validate_profile_def sample_profile_def validate_ip_range_def port_cardinality_def
        ip_cardinality_def Let_def sat_mul_def)
  moreover have "template_minimum (gen_network sample_profile) (gen_transport sample_profile)
      \<le> unat (ethernet_size sample_profile) - 4"
    by (simp add: sample_profile_def)
  ultimately obtain bs where bs: "template_bytes sample_profile = Ok bs" "length bs = unat (ethernet_size sample_profile) - 4"
    "let h = 14 + network_header (gen_network sample_profile); segment = drop h bs in
        parse_packet bs = Ok (template_packet sample_profile (length segment) segment)
        \<and> (gen_network sample_profile = GenIpv4 \<longrightarrow> checksum (take 20 (drop 14 bs)) = 0)
        \<and> checksum (pseudo_header (ip_start (source_ips sample_profile)) (ip_start (destination_ips sample_profile))
            (protocol_number (gen_transport sample_profile)) (length segment) @ segment) = 0"
    using template_parses_back by blast
  then show ?thesis by (simp add: Let_def network_header_def) (simp add: sample_profile_def)
qed

text \<open>A destination address whose first octet is zero is a unicast address, and accepted.\<close>

lemma zero_prefix_accepted:
  assumes "template_bytes self = Ok bs" "6 \<le> length bs"
  shows "template_bytes_with_destination_mac self ''00:1b:21:00:00:01''
    = Ok (patch bs 0 [0, 0x1b, 0x21, 0, 0, 1])"
  using assms
  by (simp add: template_bytes_with_destination_mac_def Let_def ascii_hexdigit_def hex_byte_def hex_digit_def)

end
