(* ===== verification/Speed_Udp.thy ===== *)
theory Speed_Udp
  imports Error_Model
begin

text \<open>
  The UDP side of the speed engine (src/crates/speed/src/udp.rs): the two datagram headers, the exact
  sequence tracker over a set, the sequence tracker over a fixed ring of slots, and the smoothed
  jitter estimate.

  A header is written into a zeroed buffer field by field and read back after its length, magic,
  version and payload length are checked; decoding accepts exactly the encodings.  Both trackers are
  compared with one specification, the statistics of the history of observed sequence numbers: the
  locale \<open>sequence_tracker\<close> is the contract, met by the exact tracker on every history that avoids
  the largest sequence number and by the ring on every history whose late packets fall inside the
  ring.
\<close>

section \<open>Datagram headers\<close>

definition UDP_COMPACT_HEADER_BYTES :: nat where
  "UDP_COMPACT_HEADER_BYTES = 16"

definition SIGNATURE_AND_VERSION :: u8 where
  "SIGNATURE_AND_VERSION = 0xA1"

definition UDP_SPEED_HEADER_BYTES :: nat where
  "UDP_SPEED_HEADER_BYTES = 52"

definition UDP_SPEED_HEADER_LENGTH :: u16 where
  "UDP_SPEED_HEADER_LENGTH = 52"

definition UDP_SPEED_MAGIC :: bytes where
  "UDP_SPEED_MAGIC = str_bytes ''NTUP''"

definition UDP_SEQUENCE_WINDOW_SIZE :: nat where
  "UDP_SEQUENCE_WINDOW_SIZE = 65536"

definition UDP_SPEED_VERSION :: u16 where
  "UDP_SPEED_VERSION = 1"

definition udp_protocol_error :: "string \<Rightarrow> nettool_error" where
  "udp_protocol_error m = new_error ProtocolInvalid m False"

text \<open>The session ID is a \<open>[u8; 16]\<close>: a list that \<open>speed_header_wf\<close> says has length 16.\<close>

record udp_speed_header =
  speed_session_id :: bytes
  speed_stream_id :: u32
  speed_sequence :: u64
  speed_flags :: u32
  send_timestamp_nanoseconds :: u64
  speed_payload_length :: u32

definition speed_header_wf :: "udp_speed_header \<Rightarrow> bool" where
  "speed_header_wf h \<longleftrightarrow> length (speed_session_id h) = 16"

definition encode_speed_header :: "udp_speed_header \<Rightarrow> bytes result" where
  "encode_speed_header h =
     copy_fields (replicate UDP_SPEED_HEADER_BYTES 0)
       [(0, 4, UDP_SPEED_MAGIC),
        (4, 6, to_be_bytes 2 UDP_SPEED_VERSION),
        (6, 8, to_be_bytes 2 UDP_SPEED_HEADER_LENGTH),
        (8, 24, speed_session_id h),
        (24, 28, to_be_bytes 4 (speed_stream_id h)),
        (28, 36, to_be_bytes 8 (speed_sequence h)),
        (36, 40, to_be_bytes 4 (speed_flags h)),
        (40, 48, to_be_bytes 8 (send_timestamp_nanoseconds h)),
        (48, 52, to_be_bytes 4 (speed_payload_length h))]"

definition udp_read_u16 :: "bytes \<Rightarrow> nat \<Rightarrow> u16 result" where
  "udp_read_u16 bs offset =
     and_then (ok_or (udp_protocol_error ''UDP speed u16 field is truncated'')
                 (get_range bs offset (offset + 2))) (\<lambda>value.
     and_then (index_at value 0) (\<lambda>b0. and_then (index_at value 1) (\<lambda>b1.
     Ok (from_be_bytes [b0, b1]))))"

definition udp_read_u32 :: "bytes \<Rightarrow> nat \<Rightarrow> u32 result" where
  "udp_read_u32 bs offset =
     and_then (ok_or (udp_protocol_error ''UDP speed u32 field is truncated'')
                 (get_range bs offset (offset + 4))) (\<lambda>value.
     if length value \<noteq> 4 then Err (udp_protocol_error ''UDP speed u32 field is invalid'')
     else Ok (from_be_bytes value))"

definition udp_read_u64 :: "bytes \<Rightarrow> nat \<Rightarrow> u64 result" where
  "udp_read_u64 bs offset =
     and_then (ok_or (udp_protocol_error ''UDP speed u64 field is truncated'')
                 (get_range bs offset (offset + 8))) (\<lambda>value.
     if length value \<noteq> 8 then Err (udp_protocol_error ''UDP speed u64 field is invalid'')
     else Ok (from_be_bytes value))"

definition decode_datagram :: "bytes \<Rightarrow> udp_speed_header result" where
  "decode_datagram datagram =
     (if length datagram < UDP_SPEED_HEADER_BYTES
      then Err (udp_protocol_error ''UDP speed datagram is shorter than its header'')
      else
      and_then (slice_range datagram 0 4) (\<lambda>magic.
      if magic \<noteq> UDP_SPEED_MAGIC then Err (udp_protocol_error ''UDP speed magic is invalid'')
      else
      and_then (udp_read_u16 datagram 4) (\<lambda>version.
      if version \<noteq> UDP_SPEED_VERSION
      then Err (udp_protocol_error ''UDP speed protocol version is unsupported'')
      else
      and_then (udp_read_u16 datagram 6) (\<lambda>header_length.
      if unat header_length \<noteq> UDP_SPEED_HEADER_BYTES
      then Err (udp_protocol_error ''UDP speed header length is invalid'')
      else
      and_then (udp_read_u32 datagram 48) (\<lambda>payload_len.
      if unat payload_len \<noteq> length datagram - UDP_SPEED_HEADER_BYTES
      then Err (udp_protocol_error ''UDP speed payload length does not match datagram'')
      else
      and_then (slice_range datagram 8 24) (\<lambda>sid.
      and_then (copy_from_slice (replicate 16 0) 0 16 sid) (\<lambda>session.
      and_then (udp_read_u32 datagram 24) (\<lambda>stream.
      and_then (udp_read_u64 datagram 28) (\<lambda>seqno.
      and_then (udp_read_u32 datagram 36) (\<lambda>flag.
      and_then (udp_read_u64 datagram 40) (\<lambda>timestamp.
      Ok \<lparr>speed_session_id = session, speed_stream_id = stream, speed_sequence = seqno,
          speed_flags = flag, send_timestamp_nanoseconds = timestamp,
          speed_payload_length = payload_len\<rparr>)))))))))))"

record udp_compact_header =
  compact_flags :: u8
  compact_stream_id :: u16
  session_tag :: u32
  compact_sequence :: u64

definition encode_compact_header :: "udp_compact_header \<Rightarrow> bytes result" where
  "encode_compact_header h =
     and_then (store_at (replicate UDP_COMPACT_HEADER_BYTES 0) 0 SIGNATURE_AND_VERSION) (\<lambda>bs.
     and_then (store_at bs 1 (compact_flags h)) (\<lambda>bs.
     copy_fields bs
       [(2, 4, to_be_bytes 2 (compact_stream_id h)),
        (4, 8, to_be_bytes 4 (session_tag h)),
        (8, 16, to_be_bytes 8 (compact_sequence h))]))"

definition decode_compact_header :: "bytes \<Rightarrow> udp_compact_header result" where
  "decode_compact_header bs =
     (if length bs \<noteq> UDP_COMPACT_HEADER_BYTES
      then Err (udp_protocol_error ''UDP compact header must be exactly 16 bytes'')
      else
      and_then (index_at bs 0) (\<lambda>signature.
      if signature \<noteq> SIGNATURE_AND_VERSION
      then Err (udp_protocol_error ''UDP compact header signature or version is invalid'')
      else
      and_then (index_at bs 1) (\<lambda>flag.
      and_then (index_at bs 2) (\<lambda>s0. and_then (index_at bs 3) (\<lambda>s1.
      and_then (slice_range bs 4 8) (\<lambda>tag.
      if length tag \<noteq> 4 then Err (udp_protocol_error ''invalid session tag'')
      else
      and_then (slice_range bs 8 16) (\<lambda>seqno.
      if length seqno \<noteq> 8 then Err (udp_protocol_error ''invalid sequence'')
      else
      Ok \<lparr>compact_flags = flag, compact_stream_id = from_be_bytes [s0, s1],
          session_tag = from_be_bytes tag, compact_sequence = from_be_bytes seqno\<rparr>)))))))"

lemmas udp_header_consts = UDP_COMPACT_HEADER_BYTES_def UDP_SPEED_HEADER_BYTES_def
  UDP_SPEED_HEADER_LENGTH_def UDP_SPEED_VERSION_def

lemma length_UDP_SPEED_MAGIC [simp]: "length UDP_SPEED_MAGIC = 4"
  by (simp add: UDP_SPEED_MAGIC_def)

text \<open>The layout of an encoded header.\<close>

definition speed_header_bytes :: "udp_speed_header \<Rightarrow> bytes" where
  "speed_header_bytes h =
     UDP_SPEED_MAGIC @ to_be_bytes 2 UDP_SPEED_VERSION @ to_be_bytes 2 UDP_SPEED_HEADER_LENGTH
     @ speed_session_id h @ to_be_bytes 4 (speed_stream_id h) @ to_be_bytes 8 (speed_sequence h)
     @ to_be_bytes 4 (speed_flags h) @ to_be_bytes 8 (send_timestamp_nanoseconds h)
     @ to_be_bytes 4 (speed_payload_length h)"

lemma encode_speed_header_eq:
  "encode_speed_header h = (if speed_header_wf h then Ok (speed_header_bytes h) else Panic)"
proof (cases "speed_header_wf h")
  case True
  then show ?thesis
    unfolding encode_speed_header_def
    by (subst copy_fields_fill)
      (simp_all add: speed_header_wf_def UDP_SPEED_HEADER_BYTES_def speed_header_bytes_def)
next
  case False
  then show ?thesis
    by (simp add: encode_speed_header_def speed_header_wf_def UDP_SPEED_HEADER_BYTES_def
        copy_from_slice_def [of _ 8])
qed

lemma two_elements: "length v = 2 \<Longrightarrow> [v ! 0, v ! Suc 0] = v"
  by (cases v; cases "tl v") auto

lemma udp_read_u16_eq:
  "a + 2 \<le> length bs \<Longrightarrow> udp_read_u16 bs a = Ok (from_be_bytes (take 2 (drop a bs)))"
  using two_elements [of "take 2 (drop a bs)"]
  by (simp add: udp_read_u16_def get_range_def)

lemma udp_read_u32_eq:
  "a + 4 \<le> length bs \<Longrightarrow> udp_read_u32 bs a = Ok (from_be_bytes (take 4 (drop a bs)))"
  by (simp add: udp_read_u32_def get_range_def)

lemma udp_read_u64_eq:
  "a + 8 \<le> length bs \<Longrightarrow> udp_read_u64 bs a = Ok (from_be_bytes (take 8 (drop a bs)))"
  by (simp add: udp_read_u64_def get_range_def)

lemmas udp_reads = udp_read_u16_eq udp_read_u32_eq udp_read_u64_eq

lemma decode_datagram_bytes:
  assumes "speed_header_wf h" "length payload = unat (speed_payload_length h)"
  shows "decode_datagram (speed_header_bytes h @ payload) = Ok h"
  using assms
  by (simp add: decode_datagram_def udp_reads speed_header_bytes_def speed_header_wf_def
      udp_header_consts bytes_simps patch_def)

lemma decode_datagram_Ok:
  assumes "decode_datagram d = Ok h"
  shows "speed_header_wf h \<and> 52 \<le> length d \<and> take 4 d = UDP_SPEED_MAGIC
    \<and> (from_be_bytes (take 2 (drop 4 d)) :: u16) = UDP_SPEED_VERSION
    \<and> (from_be_bytes (take 2 (drop 6 d)) :: u16) = UDP_SPEED_HEADER_LENGTH
    \<and> speed_session_id h = take 16 (drop 8 d)
    \<and> speed_stream_id h = from_be_bytes (take 4 (drop 24 d))
    \<and> speed_sequence h = from_be_bytes (take 8 (drop 28 d))
    \<and> speed_flags h = from_be_bytes (take 4 (drop 36 d))
    \<and> send_timestamp_nanoseconds h = from_be_bytes (take 8 (drop 40 d))
    \<and> speed_payload_length h = from_be_bytes (take 4 (drop 48 d))
    \<and> unat (speed_payload_length h) = length d - 52"
  using assms
  by (auto simp: decode_datagram_def udp_reads udp_header_consts speed_header_wf_def patch_def
      word_unat_eq_iff split: if_splits)

lemma decode_datagram_layout:
  assumes "decode_datagram d = Ok h"
  shows "d = speed_header_bytes h @ drop 52 d"
proof -
  note f = decode_datagram_Ok [OF assms]
  have len: "52 \<le> length d" using f by simp
  have fields: "to_be_bytes 2 (from_be_bytes (take 2 (drop 4 d)) :: u16) = take 2 (drop 4 d)"
    "to_be_bytes 2 (from_be_bytes (take 2 (drop 6 d)) :: u16) = take 2 (drop 6 d)"
    "to_be_bytes 4 (from_be_bytes (take 4 (drop 24 d)) :: u32) = take 4 (drop 24 d)"
    "to_be_bytes 8 (from_be_bytes (take 8 (drop 28 d)) :: u64) = take 8 (drop 28 d)"
    "to_be_bytes 4 (from_be_bytes (take 4 (drop 36 d)) :: u32) = take 4 (drop 36 d)"
    "to_be_bytes 8 (from_be_bytes (take 8 (drop 40 d)) :: u64) = take 8 (drop 40 d)"
    "to_be_bytes 4 (from_be_bytes (take 4 (drop 48 d)) :: u32) = take 4 (drop 48 d)"
    using len by (simp_all add: to_be_bytes_from_be_bytes)
  have "speed_header_bytes h = take 4 d @ take 2 (drop 4 d) @ take 2 (drop 6 d) @ take 16 (drop 8 d)
      @ take 4 (drop 24 d) @ take 8 (drop 28 d) @ take 4 (drop 36 d) @ take 8 (drop 40 d)
      @ take 4 (drop 48 d)"
    using f fields by (simp add: speed_header_bytes_def)
  then show ?thesis
    using drop_split [of 0 d 4] drop_split [of 4 d 2] drop_split [of 6 d 2] drop_split [of 8 d 16]
      drop_split [of 24 d 4] drop_split [of 28 d 8] drop_split [of 36 d 4] drop_split [of 40 d 8]
      drop_split [of 48 d 4] by simp
qed

text \<open>
  C39.  The datagram decoder of the UDP speed protocol is exact: it accepts a datagram and returns the
  header h if and only if the datagram is the encoding of h followed by as many payload bytes as h
  announces.
\<close>

theorem udp_datagram_exact:
  "decode_datagram d = Ok h \<longleftrightarrow>
     (\<exists>header payload. encode_speed_header h = Ok header \<and> d = header @ payload
        \<and> length payload = unat (speed_payload_length h))"
proof
  assume d: "decode_datagram d = Ok h"
  have "encode_speed_header h = Ok (speed_header_bytes h)"
    using decode_datagram_Ok [OF d] by (simp add: encode_speed_header_eq)
  moreover have "length (drop 52 d) = unat (speed_payload_length h)"
    using decode_datagram_Ok [OF d] by (elim conjE) (simp only: length_drop)
  ultimately show "\<exists>header payload. encode_speed_header h = Ok header \<and> d = header @ payload
      \<and> length payload = unat (speed_payload_length h)"
    using decode_datagram_layout [OF d] by blast
qed (auto simp: encode_speed_header_eq decode_datagram_bytes split: if_splits)

lemma decode_datagram_no_panic: "decode_datagram d \<noteq> Panic"
  by (auto simp: decode_datagram_def udp_reads udp_header_consts)

lemma encode_compact_header_eq:
  "encode_compact_header h = Ok ([SIGNATURE_AND_VERSION, compact_flags h]
     @ to_be_bytes 2 (compact_stream_id h) @ to_be_bytes 4 (session_tag h)
     @ to_be_bytes 8 (compact_sequence h))"
proof -
  have "encode_compact_header h = copy_fields ([SIGNATURE_AND_VERSION, compact_flags h] @ replicate 14 0)
       [(2, 4, to_be_bytes 2 (compact_stream_id h)), (4, 8, to_be_bytes 4 (session_tag h)),
        (8, 16, to_be_bytes 8 (compact_sequence h))]"
    by (simp add: encode_compact_header_def udp_header_consts numeral_eq_Suc)
  also have "\<dots> = Ok ([SIGNATURE_AND_VERSION, compact_flags h]
     @ to_be_bytes 2 (compact_stream_id h) @ to_be_bytes 4 (session_tag h)
     @ to_be_bytes 8 (compact_sequence h))"
    by (subst copy_fields_adjacent) simp_all
  finally show ?thesis .
qed

lemma compact_header_round_trip:
  "\<exists>bs. encode_compact_header h = Ok bs \<and> decode_compact_header bs = Ok h \<and> length bs = 16"
proof -
  have two: "[to_be_bytes 2 w ! 0, to_be_bytes 2 w ! Suc 0] = to_be_bytes 2 w" for w :: u16
    by (rule two_elements) simp
  show ?thesis
    unfolding encode_compact_header_eq
    by (simp add: decode_compact_header_def udp_header_consts nth_append two bytes_simps)
qed

section \<open>Sequence statistics\<close>

text \<open>
  \<open>UdpSequenceStats\<close>, the exact tracker, whose \<open>HashSet\<close> is the set of sequence numbers seen, and
  the tracker over a ring of slots, in which \<open>u64::MAX\<close> marks a free slot.  An \<open>observe\<close> returns the
  updated tracker; the statistics the source returns are the ones stored in it.
\<close>

record udp_sequence_stats =
  received :: u64
  lost :: u64
  out_of_order :: u64
  duplicate :: u64
  highest_sequence :: "u64 option"

definition default_sequence_stats :: udp_sequence_stats where
  "default_sequence_stats =
     \<lparr>received = 0, lost = 0, out_of_order = 0, duplicate = 0, highest_sequence = None\<rparr>"

record udp_sequence_tracker =
  seen :: "u64 set"
  exact_stats :: udp_sequence_stats

definition default_sequence_tracker :: udp_sequence_tracker where
  "default_sequence_tracker = \<lparr>seen = {}, exact_stats = default_sequence_stats\<rparr>"

definition observe_exact :: "udp_sequence_tracker \<Rightarrow> u64 \<Rightarrow> udp_sequence_tracker" where
  "observe_exact self q =
     (let stats = exact_stats self in
      if q \<in> seen self then self\<lparr>exact_stats := stats\<lparr>duplicate := sat_add (duplicate stats) 1\<rparr>\<rparr>
      else
        let late = (case highest_sequence stats of None \<Rightarrow> False | Some highest \<Rightarrow> q < highest);
            stats = (if late then stats\<lparr>out_of_order := sat_add (out_of_order stats) 1\<rparr> else stats);
            stats = stats\<lparr>highest_sequence :=
              Some (case highest_sequence stats of None \<Rightarrow> q | Some highest \<Rightarrow> max highest q)\<rparr>;
            stats = stats\<lparr>received := sat_add (received stats) 1\<rparr>;
            stats = stats\<lparr>lost :=
              (case highest_sequence stats of None \<Rightarrow> 0
               | Some highest \<Rightarrow> sat_sub (sat_add highest 1) (received stats))\<rparr>
        in \<lparr>seen = insert q (seen self), exact_stats = stats\<rparr>)"

record bounded_sequence_tracker =
  ring :: "u64 list"
  ring_mask :: u64
  ring_stats :: udp_sequence_stats

text \<open>\<open>usize::is_power_of_two\<close>.\<close>

fun is_power_of_two :: "nat \<Rightarrow> bool" where
  "is_power_of_two n = (if n \<le> 1 then n = 1 else even n \<and> is_power_of_two (n div 2))"

declare is_power_of_two.simps [simp del]

definition new_bounded_tracker :: "nat \<Rightarrow> bounded_sequence_tracker result" where
  "new_bounded_tracker window_size =
     (if window_size < 2 \<or> \<not> is_power_of_two window_size
      then Err (new_error InvalidArgument
             ''UDP sequence window must be a power-of-two of at least two'' False)
      else Ok \<lparr>ring = replicate window_size (- 1), ring_mask = of_nat (window_size - 1),
               ring_stats = default_sequence_stats\<rparr>)"

definition default_bounded_tracker :: "bounded_sequence_tracker result" where
  "default_bounded_tracker =
     (case new_bounded_tracker UDP_SEQUENCE_WINDOW_SIZE of Ok t \<Rightarrow> Ok t | _ \<Rightarrow> Panic)"

definition slot :: "u64 \<Rightarrow> u64 \<Rightarrow> nat" where
  "slot mask_bits q = unat (q AND mask_bits)"

text \<open>The loop that frees the slots of \<open>highest + 1\<close> up to the new highest sequence number.\<close>

fun clear_slots :: "u64 \<Rightarrow> u64 \<Rightarrow> u64 list \<Rightarrow> u64 list \<Rightarrow> u64 list result" where
  "clear_slots mask_bits highest w [] = Ok w"
| "clear_slots mask_bits highest w (offset # offsets) =
     and_then (store_at w (slot mask_bits (highest + offset)) (- 1)) (\<lambda>w.
     clear_slots mask_bits highest w offsets)"

definition observe_bounded ::
  "bounded_sequence_tracker \<Rightarrow> u64 \<Rightarrow> bounded_sequence_tracker result" where
  "observe_bounded self q =
     (let stats = ring_stats self; mask_bits = ring_mask self in
      case highest_sequence stats of
        None \<Rightarrow>
          and_then (store_at (ring self) (slot mask_bits q) q) (\<lambda>w.
          Ok (self\<lparr>ring := w,
                   ring_stats := stats\<lparr>highest_sequence := Some q, received := 1, lost := q\<rparr>\<rparr>))
      | Some highest \<Rightarrow>
          if highest < q then
            let distance = q - highest in
            and_then
              (if length (ring self) \<le> unat distance then Ok (replicate (length (ring self)) (- 1))
               else clear_slots mask_bits highest (ring self)
                      (map of_nat [1..<Suc (unat distance)])) (\<lambda>w.
            and_then (store_at w (slot mask_bits q) q) (\<lambda>w.
            Ok (self\<lparr>ring := w,
                     ring_stats := stats\<lparr>lost := sat_add (lost stats) (sat_sub distance 1),
                       highest_sequence := Some q, received := sat_add (received stats) 1\<rparr>\<rparr>)))
          else
            let distance = highest - q in
            if length (ring self) \<le> unat distance then
              Ok (self\<lparr>ring_stats := stats\<lparr>out_of_order := sat_add (out_of_order stats) 1,
                                            received := sat_add (received stats) 1\<rparr>\<rparr>)
            else
              and_then (index_at (ring self) (slot mask_bits q)) (\<lambda>stored.
              if stored = q then
                Ok (self\<lparr>ring_stats := stats\<lparr>duplicate := sat_add (duplicate stats) 1\<rparr>\<rparr>)
              else
                and_then (store_at (ring self) (slot mask_bits q) q) (\<lambda>w.
                Ok (self\<lparr>ring := w,
                         ring_stats := stats\<lparr>out_of_order := sat_add (out_of_order stats) 1,
                           received := sat_add (received stats) 1,
                           lost := sat_sub (lost stats) 1\<rparr>\<rparr>))))"

section \<open>What a sequence tracker promises\<close>

text \<open>
  A history lists the observed sequence numbers, newest first.  Its statistics: the distinct numbers,
  the numbers up to the highest that are missing, the first arrivals below the highest so far, and
  the repetitions.
\<close>

fun history_late :: "u64 list \<Rightarrow> nat" where
  "history_late [] = 0"
| "history_late (q # h) =
     history_late h + of_bool (q \<notin> set h \<and> list_ex (\<lambda>p. q < p) h)"

fun history_repeated :: "u64 list \<Rightarrow> nat" where
  "history_repeated [] = 0"
| "history_repeated (q # h) = history_repeated h + of_bool (q \<in> set h)"

fun history_highest :: "u64 list \<Rightarrow> u64 option" where
  "history_highest [] = None"
| "history_highest (q # h) =
     Some (case history_highest h of None \<Rightarrow> q | Some p \<Rightarrow> max p q)"

definition history_missing :: "u64 list \<Rightarrow> nat" where
  "history_missing h =
     (case history_highest h of None \<Rightarrow> 0 | Some p \<Rightarrow> unat p + 1 - card (set h))"

definition history_stats :: "u64 list \<Rightarrow> udp_sequence_stats" where
  "history_stats h =
     \<lparr>received = clamp_from_nat (card (set h)), lost = clamp_from_nat (history_missing h),
      out_of_order = clamp_from_nat (history_late h),
      duplicate = clamp_from_nat (history_repeated h), highest_sequence = history_highest h\<rparr>"

fun observe_sequence :: "('s \<Rightarrow> u64 \<Rightarrow> 's result) \<Rightarrow> 's \<Rightarrow> u64 list \<Rightarrow> 's result" where
  "observe_sequence obs s [] = Ok s"
| "observe_sequence obs s (q # qs) = and_then (obs s q) (\<lambda>s'. observe_sequence obs s' qs)"

text \<open>\<open>in_contract adm h qs\<close>: each of \<open>qs\<close>, observed after \<open>h\<close>, is one the tracker can account for.\<close>

fun in_contract :: "(u64 list \<Rightarrow> u64 \<Rightarrow> bool) \<Rightarrow> u64 list \<Rightarrow> u64 list \<Rightarrow> bool" where
  "in_contract adm h [] \<longleftrightarrow> True"
| "in_contract adm h (q # qs) \<longleftrightarrow> adm h q \<and> in_contract adm (q # h) qs"

locale sequence_tracker =
  fixes initial :: "'s \<Rightarrow> bool"
    and observe_one :: "'s \<Rightarrow> u64 \<Rightarrow> 's result"
    and stats_of :: "'s \<Rightarrow> udp_sequence_stats"
    and represents :: "'s \<Rightarrow> u64 list \<Rightarrow> bool"
    and admissible :: "u64 list \<Rightarrow> u64 \<Rightarrow> bool"
  assumes represents_initial: "initial s \<Longrightarrow> represents s []"
    and represents_observe:
      "represents s h \<Longrightarrow> admissible h q \<Longrightarrow> \<exists>s'. observe_one s q = Ok s' \<and> represents s' (q # h)"
    and represents_stats: "represents s h \<Longrightarrow> stats_of s = history_stats h"
begin

lemma run_from:
  "represents s h \<Longrightarrow> in_contract admissible h qs \<Longrightarrow>
     \<exists>s'. observe_sequence observe_one s qs = Ok s' \<and> represents s' (rev qs @ h)"
proof (induction qs arbitrary: s h)
  case Nil
  then show ?case by simp
next
  case (Cons q qs)
  obtain s1 where "observe_one s q = Ok s1" "represents s1 (q # h)"
    using represents_observe Cons.prems by fastforce
  then show ?case using Cons.IH [of s1 "q # h"] Cons.prems by simp
qed

lemma run_stats:
  "initial s \<Longrightarrow> in_contract admissible [] qs \<Longrightarrow>
     \<exists>s'. observe_sequence observe_one s qs = Ok s' \<and> stats_of s' = history_stats (rev qs)"
  using run_from [of s "[]" qs] represents_initial represents_stats by fastforce

end

section \<open>Facts about histories\<close>

lemma history_highest_None [simp]: "history_highest h = None \<longleftrightarrow> h = []"
  by (cases h) auto

lemma history_highest_SomeD:
  "history_highest h = Some p \<Longrightarrow> p \<in> set h \<and> (\<forall>q \<in> set h. q \<le> p)"
proof (induction h arbitrary: p)
  case Nil
  then show ?case by simp
next
  case (Cons q h)
  then show ?case
    by (cases "history_highest h") (auto simp: max_def split: if_splits)
qed

lemma history_card_le:
  assumes "history_highest h = Some p"
  shows "card (set h) \<le> unat p + 1"
proof -
  have "unat ` set h \<subseteq> {..unat p}"
    using history_highest_SomeD [OF assms] by (auto simp: word_le_nat_alt)
  then have "card (unat ` set h) \<le> card {..unat p}" by (intro card_mono) auto
  moreover have "card (unat ` set h) = card (set h)"
    by (intro card_image) (simp add: inj_on_def word_unat_eq_iff)
  ultimately show ?thesis by simp
qed

lemma history_late_highest:
  "history_highest h = Some p \<Longrightarrow> list_ex (\<lambda>r. q < r) h \<longleftrightarrow> q < p"
  using history_highest_SomeD [of h p] by (auto simp: list_ex_iff)

lemma clamp_step: "sat_add (clamp_from_nat n) 1 = (clamp_from_nat (Suc n) :: u64)"
  by (rule word_unat_eq_iff [THEN iffD2]) (auto simp: unat_sat_add unat_clamp_from_nat)

lemma clamp_zero [simp]: "clamp_from_nat 0 = (0 :: u64)"
  by (simp add: clamp_from_nat_def)

lemma history_stats_Nil: "history_stats [] = default_sequence_stats"
  by (simp add: history_stats_def default_sequence_stats_def history_missing_def)

lemma history_stats_repeated:
  assumes "q \<in> set h"
  shows "history_stats (q # h) = (history_stats h)\<lparr>duplicate := sat_add (duplicate (history_stats h)) 1\<rparr>"
proof -
  obtain p where p: "history_highest h = Some p"
    using assms by (cases "history_highest h") auto
  then have "max p q = p" using history_highest_SomeD [OF p] assms by (auto simp: max_def)
  then show ?thesis
    using assms p by (simp add: history_stats_def history_missing_def clamp_step insert_absorb)
qed

lemma history_stats_first:
  "history_stats [q] = default_sequence_stats\<lparr>highest_sequence := Some q, received := 1, lost := q\<rparr>"
  by (simp add: history_stats_def history_missing_def default_sequence_stats_def clamp_from_nat_def
      unsigned_less [of q, where ?'a = nat, simplified])

lemma history_stats_higher:
  assumes p: "history_highest h = Some p" and "p < q"
  shows "history_stats (q # h) = (history_stats h)\<lparr>
      lost := sat_add (lost (history_stats h)) (sat_sub (q - p) 1),
      highest_sequence := Some q, received := sat_add (received (history_stats h)) 1\<rparr>"
proof -
  have new: "q \<notin> set h" using history_highest_SomeD [OF p] \<open>p < q\<close> by auto
  have "\<not> list_ex (\<lambda>r. q < r) h" using history_late_highest [OF p, of q] \<open>p < q\<close> by auto
  moreover have "max p q = q" using \<open>p < q\<close> by simp
  moreover have "clamp_from_nat (unat q + 1 - Suc (card (set h)))
      = sat_add (clamp_from_nat (unat p + 1 - card (set h))) (sat_sub (q - p) 1 :: u64)"
  proof (rule word_unat_eq_iff [THEN iffD2])
    have "unat (q - p) = unat q - unat p" "unat p < unat q" "unat q < 2 ^ 64"
      using \<open>p < q\<close> unsigned_less [of q, where ?'a = nat]
      by (simp_all add: unat_sub word_less_nat_alt word_le_nat_alt)
    then show "unat (clamp_from_nat (unat q + 1 - Suc (card (set h))) :: u64)
      = unat (sat_add (clamp_from_nat (unat p + 1 - card (set h))) (sat_sub (q - p) 1 :: u64))"
      using history_card_le [OF p] by (simp add: unat_sat_add unat_sat_sub unat_clamp_from_nat)
  qed
  ultimately show ?thesis
    using p new by (simp add: history_stats_def history_missing_def clamp_step)
qed

lemma history_stats_late:
  assumes p: "history_highest h = Some p" and "q < p" "q \<notin> set h"
  shows "history_stats (q # h) = (history_stats h)\<lparr>
      out_of_order := sat_add (out_of_order (history_stats h)) 1,
      received := sat_add (received (history_stats h)) 1,
      lost := sat_sub (lost (history_stats h)) 1\<rparr>"
proof -
  have "list_ex (\<lambda>r. q < r) h" using history_late_highest [OF p, of q] \<open>q < p\<close> by simp
  moreover have "max p q = p" using \<open>q < p\<close> by simp
  moreover have "clamp_from_nat (unat p + 1 - Suc (card (set h)))
      = sat_sub (clamp_from_nat (unat p + 1 - card (set h))) (1 :: u64)"
  proof (rule word_unat_eq_iff [THEN iffD2])
    have "0 < card (set h)" using history_highest_SomeD [OF p] by (auto simp: card_gt_0_iff)
    then show "unat (clamp_from_nat (unat p + 1 - Suc (card (set h))) :: u64)
      = unat (sat_sub (clamp_from_nat (unat p + 1 - card (set h))) (1 :: u64))"
      using unsigned_less [of p, where ?'a = nat] by (simp add: unat_sat_sub unat_clamp_from_nat)
  qed
  ultimately show ?thesis
    using p \<open>q \<notin> set h\<close> by (simp add: history_stats_def history_missing_def clamp_step)
qed

lemmas history_stats_cases = history_stats_repeated history_stats_higher history_stats_late

section \<open>The exact tracker meets the contract\<close>

definition exact_represents :: "udp_sequence_tracker \<Rightarrow> u64 list \<Rightarrow> bool" where
  "exact_represents s h \<longleftrightarrow> seen s = set h \<and> exact_stats s = history_stats h \<and> - 1 \<notin> set h"

definition below_max :: "u64 list \<Rightarrow> u64 \<Rightarrow> bool" where
  "below_max h q \<longleftrightarrow> q \<noteq> - 1"

lemma exact_lost:
  assumes "history_highest h = Some p" "p \<noteq> - 1"
  shows "sat_sub (sat_add p 1) (clamp_from_nat (card (set h)))
    = (clamp_from_nat (unat p + 1 - card (set h)) :: u64)"
proof (rule word_unat_eq_iff [THEN iffD2])
  have "unat p \<noteq> unat (- 1 :: u64)" using assms(2) by (simp add: word_unat_eq_iff)
  then have "unat p + 1 < 2 ^ 64"
    using unsigned_less [of p, where ?'a = nat] by (simp add: unat_max_word)
  then show "unat (sat_sub (sat_add p 1) (clamp_from_nat (card (set h))))
    = unat (clamp_from_nat (unat p + 1 - card (set h)) :: u64)"
    using history_card_le [OF assms(1)]
    by (simp add: unat_sat_add unat_sat_sub unat_clamp_from_nat)
qed

lemma observe_exact_represents:
  assumes r: "exact_represents s h" and q: "below_max h q"
  shows "exact_represents (observe_exact s q) (q # h)"
proof (cases "q \<in> set h")
  case True
  then show ?thesis
    using r q by (auto simp: exact_represents_def below_max_def observe_exact_def Let_def
        history_stats_repeated)
next
  case False
  obtain p where p: "history_highest (q # h) = Some p" by simp
  then have "p \<noteq> - 1"
    using history_highest_SomeD [OF p] r q by (auto simp: exact_represents_def below_max_def)
  note missing = exact_lost [OF p this]
  show ?thesis
    using r q False p missing
    by (cases "history_highest h")
      (auto simp: exact_represents_def below_max_def observe_exact_def history_stats_def Let_def
        history_missing_def clamp_step clamp_step [of 0, simplified] history_late_highest)
qed

interpretation exact_tracker: sequence_tracker "\<lambda>s. s = default_sequence_tracker"
  "\<lambda>s q. Ok (observe_exact s q)" exact_stats exact_represents below_max
proof
  show "exact_represents s []" if "s = default_sequence_tracker" for s
    using that by (simp add: exact_represents_def default_sequence_tracker_def history_stats_Nil)
  show "\<exists>s'. Ok (observe_exact s q) = Ok s' \<and> exact_represents s' (q # h)"
    if "exact_represents s h" "below_max h q" for s h q
    using observe_exact_represents [OF that] by simp
  show "exact_stats s = history_stats h" if "exact_represents s h" for s h
    using that by (simp add: exact_represents_def)
qed

section \<open>The ring meets the contract\<close>

lemma is_power_of_two_iff: "is_power_of_two n \<longleftrightarrow> (\<exists>k. n = 2 ^ k)"
proof (induction n rule: is_power_of_two.induct)
  case (1 n)
  show ?case
  proof (cases "n \<le> 1")
    case True
    then show ?thesis by (subst is_power_of_two.simps) (auto simp: le_Suc_eq intro: exI [of _ 0])
  next
    case False
    have "(\<exists>k. n = 2 ^ k) \<longleftrightarrow> even n \<and> (\<exists>k. n div 2 = 2 ^ k)"
    proof
      assume "\<exists>k. n = 2 ^ k"
      then obtain k where k: "n = 2 ^ k" by blast
      then obtain j where "k = Suc j" using False by (cases k) auto
      then show "even n \<and> (\<exists>k. n div 2 = 2 ^ k)" using k by auto
    next
      assume "even n \<and> (\<exists>k. n div 2 = 2 ^ k)"
      then obtain k where "n = 2 * 2 ^ k" by (auto elim: evenE)
      then show "\<exists>k. n = 2 ^ k" by (intro exI [of _ "Suc k"]) simp
    qed
    then show ?thesis using 1 False by (subst is_power_of_two.simps) auto
  qed
qed

lemma slot_mod: "slot (of_nat (2 ^ k - 1)) q = unat q mod 2 ^ k"
proof -
  have "(of_nat (2 ^ k - 1) :: u64) = mask k"
    by (simp add: mask_eq_exp_minus_1 of_nat_diff)
  then have "slot (of_nat (2 ^ k - 1)) q = unat (take_bit k q)"
    unfolding slot_def by (simp only: take_bit_eq_mask)
  then show ?thesis by (simp add: unsigned_take_bit_eq take_bit_nat_def)
qed

lemma slot_mod': "slot (2 ^ k - 1) q = unat q mod 2 ^ k"
  using slot_mod [of k q] by (simp add: of_nat_diff)

lemma clear_slots_Ok:
  assumes "\<forall>d \<in> set offsets. slot m (highest + d) < length w"
  shows "\<exists>w'. clear_slots m highest w offsets = Ok w' \<and> length w' = length w
    \<and> (\<forall>i < length w. w' ! i = (if i \<in> (\<lambda>d. slot m (highest + d)) ` set offsets then - 1 else w ! i))"
  using assms
proof (induction offsets arbitrary: w)
  case Nil
  then show ?case by simp
next
  case (Cons off offsets)
  then obtain w' where "clear_slots m highest (w[slot m (highest + off) := - 1]) offsets = Ok w'"
    "length w' = length w"
    "\<forall>i < length w. w' ! i = (if i \<in> (\<lambda>d. slot m (highest + d)) ` set offsets then - 1
       else w[slot m (highest + off) := - 1] ! i)"
    using Cons.IH [of "w[slot m (highest + off) := - 1]"] by auto
  then show ?case using Cons.prems by (auto simp: nth_list_update)
qed

definition bounded_represents :: "nat \<Rightarrow> bounded_sequence_tracker \<Rightarrow> u64 list \<Rightarrow> bool" where
  "bounded_represents n s h \<longleftrightarrow>
     (\<exists>k. n = 2 ^ k) \<and> length (ring s) = n \<and> ring_mask s = of_nat (n - 1)
     \<and> ring_stats s = history_stats h \<and> (h = [] \<longrightarrow> ring s = replicate n (- 1))
     \<and> (\<forall>p q. history_highest h = Some p \<longrightarrow> q \<le> p \<longrightarrow> unat p - unat q < n \<longrightarrow>
          (ring s ! (unat q mod n) = q \<longleftrightarrow> q \<in> set h))"

definition inside_window :: "nat \<Rightarrow> u64 list \<Rightarrow> u64 \<Rightarrow> bool" where
  "inside_window n h q \<longleftrightarrow>
     (case history_highest h of None \<Rightarrow> True | Some p \<Rightarrow> unat p - unat q < n)"

lemma mod_eq_close:
  assumes "a mod n = b mod n" "a \<le> b" "b - a < (n :: nat)"
  shows "a = b"
proof -
  have "n dvd b - a" using mod_eq_dvd_iff_nat [OF assms(2), of n] assms(1) by simp
  then show ?thesis using assms by (auto dest: dvd_imp_le)
qed

lemma unat_add_offset:
  assumes "(p :: u64) < q" "d \<in> {1..unat (q - p)}"
  shows "unat (p + of_nat d) = unat p + d"
proof -
  have "unat p + unat (of_nat d :: u64) < 2 ^ 64"
    using assms unsigned_less [of q, where ?'a = nat]
    by (auto simp: unat_of_nat word_less_nat_alt unat_sub word_le_nat_alt intro: le_less_trans [OF _ unsigned_less [of q]])
  moreover have "unat (of_nat d :: u64) = d"
    using assms(2) unsigned_less [of "q - p", where ?'a = nat] by (simp add: unat_of_nat)
  ultimately show ?thesis by (simp add: unat_add_noovf)
qed

lemma cleared_slots:
  assumes "p < q"
  shows "(\<lambda>d. slot (of_nat (2 ^ k - 1)) (p + d)) ` set (map of_nat [1..<Suc (unat (q - p))])
    = (\<lambda>d. (unat p + d) mod 2 ^ k) ` {1..unat (q - p)}"
proof -
  have "(\<lambda>d. slot (of_nat (2 ^ k - 1)) (p + d)) ` set (map of_nat [1..<Suc (unat (q - p))])
      = (\<lambda>d. slot (of_nat (2 ^ k - 1)) (p + of_nat d)) ` {1..unat (q - p)}"
    by (simp only: set_map image_image set_upt atLeastLessThanSuc_atLeastAtMost)
  also have "\<dots> = (\<lambda>d. (unat p + d) mod 2 ^ k) ` {1..unat (q - p)}"
    using unat_add_offset [OF assms] by (intro image_cong) (simp_all only: slot_mod)
  finally show ?thesis .
qed

text \<open>A number at or below the old highest one, inside the new window, keeps its slot.\<close>

lemma kept_slot:
  assumes "unat (x :: u64) \<le> unat (p :: u64)" "unat p < unat (q :: u64)" "unat q - unat x < n"
    "d \<in> {1..unat q - unat p}"
  shows "unat x mod n \<noteq> (unat p + d) mod n"
proof
  assume eq: "unat x mod n = (unat p + d) mod n"
  have "unat x = unat p + d" using assms by (intro mod_eq_close [OF eq]) auto
  then show False using assms by auto
qed

text \<open>After the slots between the old and the new highest number are freed, exactly the slots of
  observed numbers inside the window hold their number.\<close>

lemma advance_window:
  assumes r: "bounded_represents n s h" and p: "history_highest h = Some p" and "p < q"
  shows "\<exists>w. (if length (ring s) \<le> unat (q - p) then Ok (replicate (length (ring s)) (- 1))
              else clear_slots (ring_mask s) p (ring s) (map of_nat [1..<Suc (unat (q - p))])) = Ok w
    \<and> length w = n
    \<and> (\<forall>x. x < q \<longrightarrow> unat q - unat x < n \<longrightarrow> (w ! (unat x mod n) = x \<longleftrightarrow> x \<in> set h))"
proof -
  obtain k where k: "n = 2 ^ k" using r by (auto simp: bounded_represents_def)
  have len: "length (ring s) = n" and m: "ring_mask s = of_nat (2 ^ k - 1)"
    using r k by (auto simp: bounded_represents_def)
  have dist: "unat (q - p) = unat q - unat p" and pq: "unat p < unat q"
    using \<open>p < q\<close> by (simp_all add: unat_sub word_less_nat_alt word_le_nat_alt)
  have above: "x \<notin> set h" if "p < x" for x
    using history_highest_SomeD [OF p] that by auto
  have max: "x \<noteq> - 1" if "x < q" for x :: u64
    using that by (metis word_order.extremum not_less)
  show ?thesis
  proof (cases "n \<le> unat (q - p)")
    case True
    have "replicate n (- 1) ! (unat x mod n) = x \<longleftrightarrow> x \<in> set h" if "x < q" "unat q - unat x < n" for x
    proof -
      have "p < x" using that True dist by (auto simp: word_less_nat_alt)
      then show ?thesis using above max [OF that(1)] k by (auto simp: that)
    qed
    then show ?thesis using True len by auto
  next
    case False
    have "slot (ring_mask s) y < n" for y by (simp add: m slot_mod slot_mod' k)
    then obtain w where w: "clear_slots (ring_mask s) p (ring s) (map of_nat [1..<Suc (unat (q - p))]) = Ok w"
      "length w = n"
      "\<forall>i < n. w ! i = (if i \<in> (\<lambda>d. slot (ring_mask s) (p + d)) ` set (map of_nat [1..<Suc (unat (q - p))])
         then - 1 else ring s ! i)"
      using clear_slots_Ok [of "map of_nat [1..<Suc (unat (q - p))]" "ring_mask s" p "ring s"] len by auto
    have cleared: "i \<in> (\<lambda>d. slot (ring_mask s) (p + d)) ` set (map of_nat [1..<Suc (unat (q - p))])
        \<longleftrightarrow> (\<exists>d \<in> {1..unat (q - p)}. i = (unat p + d) mod n)" for i
      using cleared_slots [OF \<open>p < q\<close>, of k] by (simp only: m k image_iff)
    have "w ! (unat x mod n) = x \<longleftrightarrow> x \<in> set h" if x: "x < q" "unat q - unat x < n" for x
    proof (cases "p < x")
      case True
      then have "unat x - unat p \<in> {1..unat (q - p)}" "unat x = unat p + (unat x - unat p)"
        using x dist by (auto simp: word_less_nat_alt)
      then have "\<exists>d \<in> {1..unat (q - p)}. unat x mod n = (unat p + d) mod n" by metis
      then show ?thesis using w(3) cleared above [OF True] max [OF x(1)] k by auto
    next
      case False
      then have "\<not> (\<exists>d \<in> {1..unat (q - p)}. unat x mod n = (unat p + d) mod n)"
        using kept_slot [of x p q n] pq x(2) dist by (auto simp: word_less_nat_alt)
      then have "w ! (unat x mod n) = ring s ! (unat x mod n)" using w(3) cleared k by simp
      moreover have "unat p - unat x < n" using x pq by simp
      ultimately show ?thesis using r p False by (auto simp: bounded_represents_def not_less)
    qed
    then show ?thesis using w(1,2) False len by auto
  qed
qed

lemma observe_bounded_first:
  assumes "bounded_represents n s []"
  shows "\<exists>s'. observe_bounded s q = Ok s' \<and> bounded_represents n s' [q]"
proof -
  obtain k where k: "n = 2 ^ k" using assms by (auto simp: bounded_represents_def)
  have slot: "slot (ring_mask s) q = unat q mod n" and len: "length (ring s) = n"
    and stats: "ring_stats s = history_stats []"
    using assms k by (auto simp: bounded_represents_def slot_mod slot_mod')
  have range: "unat q mod n < n" by (simp add: k)
  let ?s = "s\<lparr>ring := (ring s)[unat q mod n := q], ring_stats := history_stats [q]\<rparr>"
  have "observe_bounded s q = Ok ?s"
    using slot range len stats
    by (simp add: observe_bounded_def history_stats_Nil history_stats_first Let_def default_sequence_stats_def)
  moreover have "ring ?s ! (unat x mod n) = x \<longleftrightarrow> x \<in> set [q]" if "x \<le> q" "unat q - unat x < n" for x
  proof (cases "unat x mod n = unat q mod n")
    case True
    then show ?thesis
      using that range len mod_eq_close [of "unat x" n "unat q"]
      by (auto simp: word_le_nat_alt word_unat_eq_iff)
  next
    case False
    then have "x \<noteq> - 1" using that(1) by (metis word_order.extremum order_antisym)
    then show ?thesis using False assms len range by (auto simp: bounded_represents_def k)
  qed
  ultimately show ?thesis using assms by (auto simp: bounded_represents_def)
qed

lemma observe_bounded_higher:
  assumes r: "bounded_represents n s h" and p: "history_highest h = Some p" and "p < q"
  shows "\<exists>s'. observe_bounded s q = Ok s' \<and> bounded_represents n s' (q # h)"
proof -
  obtain k where k: "n = 2 ^ k" using r by (auto simp: bounded_represents_def)
  have slot: "slot (ring_mask s) q = unat q mod n" and stats: "ring_stats s = history_stats h"
    using r k by (auto simp: bounded_represents_def slot_mod slot_mod')
  have range: "unat q mod n < n" by (simp add: k)
  obtain w where w: "(if length (ring s) \<le> unat (q - p) then Ok (replicate (length (ring s)) (- 1))
      else clear_slots (ring_mask s) p (ring s) (map of_nat [1..<Suc (unat (q - p))])) = Ok w"
    "length w = n" "\<forall>x. x < q \<longrightarrow> unat q - unat x < n \<longrightarrow> (w ! (unat x mod n) = x \<longleftrightarrow> x \<in> set h)"
    using advance_window [OF assms] by blast
  let ?s = "s\<lparr>ring := w[unat q mod n := q], ring_stats := history_stats (q # h)\<rparr>"
  have hs: "highest_sequence (history_stats h) = Some p" using p by (simp add: history_stats_def)
  have "observe_bounded s q = Ok ?s"
    using \<open>p < q\<close> w(1) w(2) range
    by (simp add: observe_bounded_def hs stats Let_def slot history_stats_higher [OF p \<open>p < q\<close>])
  moreover have "ring ?s ! (unat x mod n) = x \<longleftrightarrow> x \<in> set (q # h)" if "x \<le> q" "unat q - unat x < n" for x
  proof (cases "x = q")
    case True
    then show ?thesis using range w(2) by simp
  next
    case False
    then have "unat x mod n \<noteq> unat q mod n"
      using that mod_eq_close [of "unat x" n "unat q"] by (auto simp: word_le_nat_alt word_unat_eq_iff)
    then show ?thesis using False that w(3) by (simp add: order_le_less)
  qed
  moreover have "max p q = q" using \<open>p < q\<close> by simp
  ultimately show ?thesis using r w(2) p by (auto simp: bounded_represents_def)
qed

lemma observe_bounded_inside:
  assumes r: "bounded_represents n s h" and p: "history_highest h = Some p" and q: "q \<le> p" "unat p - unat q < n"
  shows "\<exists>s'. observe_bounded s q = Ok s' \<and> bounded_represents n s' (q # h)"
proof -
  obtain k where k: "n = 2 ^ k" using r by (auto simp: bounded_represents_def)
  have slot: "slot (ring_mask s) q = unat q mod n" and len: "length (ring s) = n"
    and stats: "ring_stats s = history_stats h"
    and held: "ring s ! (unat q mod n) = q \<longleftrightarrow> q \<in> set h"
    using r k p q by (auto simp: bounded_represents_def slot_mod slot_mod')
  have range: "unat q mod n < n" by (simp add: k)
  have hs: "highest_sequence (history_stats h) = Some p" using p by (simp add: history_stats_def)
  have dist: "unat (p - q) = unat p - unat q" using q by (simp add: unat_sub)
  have top: "history_highest (q # h) = Some p" using p q by (simp add: max_def)
  show ?thesis
  proof (cases "q \<in> set h")
    case True
    let ?s = "s\<lparr>ring_stats := history_stats (q # h)\<rparr>"
    have "observe_bounded s q = Ok ?s"
      using q True range len held
      by (simp add: observe_bounded_def hs stats Let_def slot dist history_stats_repeated not_less)
    then show ?thesis using r p top True by (auto simp: bounded_represents_def)
  next
    case False
    then have "q < p" using q history_highest_SomeD [OF p] by (auto simp: order_le_less)
    let ?s = "s\<lparr>ring := (ring s)[unat q mod n := q], ring_stats := history_stats (q # h)\<rparr>"
    have "observe_bounded s q = Ok ?s"
      using q False range len held
      by (simp add: observe_bounded_def hs stats Let_def slot dist not_less
          history_stats_late [OF p \<open>q < p\<close> False])
    moreover have "ring ?s ! (unat x mod n) = x \<longleftrightarrow> x \<in> set (q # h)" if x: "x \<le> p" "unat p - unat x < n" for x
    proof (cases "unat x mod n = unat q mod n")
      case True
      have "unat x - unat q < n" "unat q - unat x < n" using x q unfolding word_le_nat_alt by linarith+
      then have "unat x = unat q"
        using mod_eq_close [OF True] mod_eq_close [OF True [symmetric]] nat_le_linear by metis
      then show ?thesis using range len by (simp add: word_unat_eq_iff)
    next
      case False
      then show ?thesis using r p x by (auto simp: bounded_represents_def)
    qed
    ultimately show ?thesis using r top by (auto simp: bounded_represents_def)
  qed
qed

interpretation bounded_tracker: sequence_tracker "\<lambda>s. new_bounded_tracker n = Ok s"
  observe_bounded ring_stats "bounded_represents n" "inside_window n" for n
proof
  show "bounded_represents n s []" if "new_bounded_tracker n = Ok s" for s
    using that
    by (auto simp: new_bounded_tracker_def bounded_represents_def is_power_of_two_iff history_stats_Nil
        split: if_splits)
  show "\<exists>s'. observe_bounded s q = Ok s' \<and> bounded_represents n s' (q # h)"
    if "bounded_represents n s h" "inside_window n h q" for s h q
  proof (cases "history_highest h")
    case None
    then show ?thesis using that observe_bounded_first by simp
  next
    case (Some p)
    then show ?thesis
      using that observe_bounded_higher observe_bounded_inside
      by (cases "p < q") (auto simp: inside_window_def not_less)
  qed
  show "ring_stats s = history_stats h" if "bounded_represents n s h" for s h
    using that by (simp add: bounded_represents_def)
qed

section \<open>Agreement of the trackers\<close>

lemma observe_sequence_Ok: "observe_sequence (\<lambda>s q. Ok (f s q)) s qs = Ok (foldl f s qs)"
  by (induction qs arbitrary: s) auto

lemma in_contract_below_max: "in_contract below_max h qs \<longleftrightarrow> - 1 \<notin> set qs"
  by (induction qs arbitrary: h) (auto simp: below_max_def)

lemma observe_exact_stats:
  "- 1 \<notin> set qs \<Longrightarrow>
     exact_stats (foldl observe_exact default_sequence_tracker qs) = history_stats (rev qs)"
  using exact_tracker.run_stats [of default_sequence_tracker qs]
  by (simp add: observe_sequence_Ok in_contract_below_max)

text \<open>
  C10.  The fixed-size ring of the UDP receiver refines the exact tracker: on every sequence of
  observations that avoids the sequence number u64::MAX and in which no packet arrives later than
  the window size behind the highest sequence number so far, the ring never panics and reports the
  statistics the exact tracker over a set reports, which are the statistics of the history: distinct
  packets, packets missing below the highest, first arrivals out of order, and repetitions.
\<close>

theorem sequence_trackers_agree:
  assumes "new_bounded_tracker n = Ok t" "in_contract (inside_window n) [] qs" "- 1 \<notin> set qs"
  shows "\<exists>t'. observe_sequence observe_bounded t qs = Ok t'
    \<and> ring_stats t' = exact_stats (foldl observe_exact default_sequence_tracker qs)
    \<and> ring_stats t' = history_stats (rev qs)"
  using bounded_tracker.run_stats [OF assms(1,2)] observe_exact_stats [OF assms(3)] by auto

definition ring_of_four :: bounded_sequence_tracker where
  "ring_of_four = \<lparr>ring = [- 1, - 1, - 1, - 1], ring_mask = 3, ring_stats = default_sequence_stats\<rparr>"

lemma ring_of_four_new: "new_bounded_tracker 4 = Ok ring_of_four"
proof -
  have "is_power_of_two 4" unfolding is_power_of_two_iff by (rule exI [of _ 2]) simp
  moreover have "replicate 4 (- 1 :: u64) = [- 1, - 1, - 1, - 1]" by (simp add: numeral_eq_Suc)
  ultimately show ?thesis by (simp add: new_bounded_tracker_def ring_of_four_def)
qed

theorem sequence_trackers_agree_witness:
  "\<exists>t'. observe_sequence observe_bounded ring_of_four [0, 3, 1, 1, 7, 5] = Ok t'
    \<and> ring_stats t' = exact_stats (foldl observe_exact default_sequence_tracker [0, 3, 1, 1, 7, 5])
    \<and> ring_stats t' = \<lparr>received = 5, lost = 3, out_of_order = 2, duplicate = 1, highest_sequence = Some 7\<rparr>"
proof -
  have "in_contract (inside_window 4) [] [0, 3, 1, 1, 7, 5]"
    by (simp add: inside_window_def max_def)
  moreover have "history_stats (rev [0, 3, 1, 1, 7, 5])
      = \<lparr>received = 5, lost = 3, out_of_order = 2, duplicate = 1, highest_sequence = Some 7\<rparr>"
    by (simp add: history_stats_def history_missing_def clamp_from_nat_def max_def)
  ultimately show ?thesis
    using sequence_trackers_agree [OF ring_of_four_new, of "[0, 3, 1, 1, 7, 5]"] by simp
qed

text \<open>
  Outside the hypotheses the two differ.  At the sequence number \<open>u64::MAX\<close> the exact tracker
  saturates before it subtracts and loses count of one missing packet; and a packet repeated from
  behind the window counts as one more received packet in the ring.
\<close>

lemma exact_tracker_at_max:
  "lost (exact_stats (observe_exact default_sequence_tracker (- 1))) = - 2"
  "ring_stats t = default_sequence_stats \<Longrightarrow> ring_mask t = 3 \<Longrightarrow> length (ring t) = 4 \<Longrightarrow>
     \<exists>t'. observe_bounded t (- 1) = Ok t' \<and> lost (ring_stats t') = - 1"
  by (simp_all add: observe_exact_def default_sequence_tracker_def default_sequence_stats_def sat_add_def
      sat_sub_def observe_bounded_def slot_def Let_def unat_max_word)

lemma ring_counts_repeated_twice:
  "\<exists>t'. observe_sequence observe_bounded ring_of_four [0, 9, 0] = Ok t'
    \<and> received (ring_stats t') = 3 \<and> duplicate (ring_stats t') = 0"
  "received (exact_stats (foldl observe_exact default_sequence_tracker [0, 9, 0])) = 2"
  by (simp_all add: observe_bounded_def ring_of_four_def default_sequence_stats_def slot_def Let_def
      sat_add_def sat_sub_def observe_exact_def default_sequence_tracker_def max_def)

section \<open>Jitter\<close>

text \<open>\<open>UdpJitterTracker\<close>: transit times are \<open>i128\<close>, integers with saturating subtraction.\<close>

definition i128_sat_sub :: "int \<Rightarrow> int \<Rightarrow> int" where
  "i128_sat_sub a b = max (- (2 ^ 127)) (min (2 ^ 127 - 1) (a - b))"

record udp_jitter_tracker =
  previous_transit_nanoseconds :: "int option"
  jitter_nanoseconds :: u64

definition default_jitter_tracker :: udp_jitter_tracker where
  "default_jitter_tracker = \<lparr>previous_transit_nanoseconds = None, jitter_nanoseconds = 0\<rparr>"

definition smooth_jitter :: "u64 \<Rightarrow> u64 \<Rightarrow> u64" where
  "smooth_jitter jitter delta =
     (if jitter \<le> delta then sat_add jitter ((delta - jitter) div 16)
      else sat_sub jitter ((jitter - delta) div 16))"

definition observe_jitter :: "udp_jitter_tracker \<Rightarrow> u64 \<Rightarrow> u64 \<Rightarrow> udp_jitter_tracker" where
  "observe_jitter self sent arrived =
     (let transit = i128_sat_sub (uint arrived) (uint sent);
          self = (case previous_transit_nanoseconds self of
                    None \<Rightarrow> self
                  | Some previous \<Rightarrow>
                      let delta = clamp_from_nat (nat \<bar>i128_sat_sub transit previous\<bar>)
                      in self\<lparr>jitter_nanoseconds := smooth_jitter (jitter_nanoseconds self) delta\<rparr>)
      in self\<lparr>previous_transit_nanoseconds := Some transit\<rparr>)"

text \<open>The estimate moves towards the new difference and never past it; a constant clock offset
  cancels, so packets with one transit time give no jitter.\<close>

lemma smooth_jitter_between:
  "min (unat jitter) (unat delta) \<le> unat (smooth_jitter jitter delta)"
  "unat (smooth_jitter jitter delta) \<le> max (unat jitter) (unat delta)"
proof -
  have up: "unat ((b - a) div 16) \<le> unat b - unat a" if "a \<le> b" for a b :: u64
    using that by (simp add: unat_div unat_sub)
  show "min (unat jitter) (unat delta) \<le> unat (smooth_jitter jitter delta)"
    using up [of jitter delta] up [of delta jitter] unsigned_less [of jitter, where ?'a = nat]
    by (auto simp: smooth_jitter_def unat_sat_add unat_sat_sub min_def word_le_nat_alt not_le)
  show "unat (smooth_jitter jitter delta) \<le> max (unat jitter) (unat delta)"
    using up [of jitter delta] up [of delta jitter]
    by (auto simp: smooth_jitter_def unat_sat_add unat_sat_sub min_def word_le_nat_alt not_le)
qed

lemma i128_sat_sub_exact: "\<bar>a - b\<bar> < 2 ^ 127 \<Longrightarrow> i128_sat_sub a b = a - b"
  by (auto simp: i128_sat_sub_def)

lemma transit_exact: "i128_sat_sub (uint (a :: u64)) (uint (b :: u64)) = uint a - uint b"
proof -
  have "uint a < 2 ^ 64" "uint b < 2 ^ 64" "0 \<le> uint a" "0 \<le> uint b"
    using unsigned_less [of a, where ?'a = int] unsigned_less [of b, where ?'a = int] by simp_all
  then have "\<bar>uint a - uint b\<bar> < 2 ^ 64" by linarith
  also have "(2 :: int) ^ 64 < 2 ^ 127" by simp
  finally show ?thesis by (rule i128_sat_sub_exact)
qed

lemma constant_transit_no_jitter:
  "\<forall>(sent, arrived) \<in> set packets. uint arrived - uint sent = c \<Longrightarrow>
     previous_transit_nanoseconds t = None \<or> previous_transit_nanoseconds t = Some c \<Longrightarrow>
     jitter_nanoseconds t = 0 \<Longrightarrow>
     jitter_nanoseconds (foldl (\<lambda>t (sent, arrived). observe_jitter t sent arrived) t packets) = 0"
proof (induction packets arbitrary: t)
  case Nil
  then show ?case by simp
next
  case (Cons packet packets)
  obtain sent arrived where pk: "packet = (sent, arrived)" by (cases packet)
  have "previous_transit_nanoseconds (observe_jitter t sent arrived) = Some c
      \<and> jitter_nanoseconds (observe_jitter t sent arrived) = 0"
    using Cons.prems pk
    by (auto simp: observe_jitter_def transit_exact Let_def i128_sat_sub_exact smooth_jitter_def
        split: option.splits)
  then show ?case using Cons pk by simp
qed

end
