(* ===== verification/Speed_Session.thy ===== *)
theory Speed_Session
  imports Error_Model
begin

text \<open>
  The control side of the speed engine (src/crates/speed/src): authorization tags (auth.rs), the rate
  modes, the batch pacer and the loss-threshold search (pacing.rs), the life cycle of a test with its
  two-peer barrier (session.rs), the result contracts (result.rs), the request of the public action
  (config.rs) and the dispatch to an accelerated executor (accelerated.rs).

  The invariant of the life cycle ties every phase to the evidence the earlier phases produced; the
  pacer is shown never to exceed the configured rate and to catch up with it.
\<close>

definition speed_invalid :: "string \<Rightarrow> nettool_error" where
  "speed_invalid m = new_error InvalidArgument m False"

section \<open>Authorization tags\<close>

definition MAX_AUTHORIZATION_TAG_BYTES :: nat where
  "MAX_AUTHORIZATION_TAG_BYTES = 256"

definition MIN_AUTHORIZATION_TAG_BYTES :: nat where
  "MIN_AUTHORIZATION_TAG_BYTES = 16"

definition validate_authorization_tag :: "string \<Rightarrow> unit result" where
  "validate_authorization_tag tag =
     (if \<not> (MIN_AUTHORIZATION_TAG_BYTES \<le> length tag \<and> length tag \<le> MAX_AUTHORIZATION_TAG_BYTES)
      then Err (speed_invalid ''authorization tag length is outside the secure range'')
      else if list_ex char_is_control (utf8_chars tag)
      then Err (speed_invalid ''authorization tag contains control characters'')
      else Ok ())"

definition authorization_tag_matches :: "string \<Rightarrow> bytes \<Rightarrow> bool" where
  "authorization_tag_matches expected presented \<longleftrightarrow>
     length (str_bytes expected) = length presented
     \<and> foldl (\<lambda>difference (left, right). difference OR (left XOR right)) 0
          (zip (str_bytes expected) presented) = 0"

text \<open>The comparison that never stops early is equality.\<close>

lemma fold_difference:
  "foldl (\<lambda>difference (left, right). difference OR (left XOR right)) d (zip xs ys) = (0 :: u8)
     \<longleftrightarrow> d = 0 \<and> (\<forall>(x, y) \<in> set (zip xs ys). x = y)"
proof (induction xs arbitrary: d ys)
  case Nil
  then show ?case by simp
next
  case (Cons x xs)
  have split: "a OR b = 0 \<longleftrightarrow> a = 0 \<and> b = 0" for a b :: u8
    by (simp add: or_eq_0_iff)
  have eq: "a XOR b = 0 \<longleftrightarrow> a = b" for a b :: u8
    by (auto simp: bit_eq_iff bit_xor_iff)
  show ?case using Cons split eq by (cases ys) auto
qed

lemma authorization_tag_matches_iff:
  "authorization_tag_matches expected presented \<longleftrightarrow> str_bytes expected = presented"
  unfolding authorization_tag_matches_def fold_difference
  by (auto simp: list_eq_iff_zip_eq simp del: length_str_bytes)

section \<open>Rates and pacing\<close>

datatype udp_rate_mode =
    Unlimited
  | FixedRate u64
  | Ramp "u64 list"

fun windows_increasing :: "u64 list \<Rightarrow> bool" where
  "windows_increasing (a # b # rest) \<longleftrightarrow> \<not> b \<le> a \<and> windows_increasing (b # rest)"
| "windows_increasing _ \<longleftrightarrow> True"

fun validate_rate_mode :: "udp_rate_mode \<Rightarrow> unit result" where
  "validate_rate_mode Unlimited = Ok ()"
| "validate_rate_mode (FixedRate bits_per_second) =
     (if 0 < bits_per_second then Ok ()
      else Err (speed_invalid ''fixed UDP rate must be greater than zero''))"
| "validate_rate_mode (Ramp steps) =
     (if steps = [] then Err (speed_invalid ''UDP ramp requires steps'')
      else if steps ! 0 = 0 \<or> \<not> windows_increasing steps
      then Err (speed_invalid ''UDP ramp steps must be non-zero and increasing'')
      else Ok ())"

definition standard_100g_ramp :: udp_rate_mode where
  "standard_100g_ramp =
     Ramp [10000000000, 20000000000, 40000000000, 60000000000, 80000000000, 90000000000,
           95000000000, 100000000000]"

datatype pacing_strategy =
    TimerPacing
  | BatchPacing u32
  | HardwarePacing

record pacing_policy =
  hardware_pacing :: bool
  high_rate_threshold_bits_per_second :: u64
  policy_packets_per_burst :: u32

definition select_pacing :: "pacing_policy \<Rightarrow> u64 \<Rightarrow> pacing_strategy result" where
  "select_pacing self target =
     (if target = 0 \<or> high_rate_threshold_bits_per_second self = 0
      then Err (speed_invalid ''pacing rates must be greater than zero'')
      else if \<not> (1 \<le> policy_packets_per_burst self \<and> policy_packets_per_burst self \<le> 4096)
      then Err (speed_invalid ''pacing burst size must be between 1 and 4096'')
      else if high_rate_threshold_bits_per_second self \<le> target then
        (if hardware_pacing self then Ok HardwarePacing
         else Ok (BatchPacing (policy_packets_per_burst self)))
      else Ok TimerPacing)"

record batch_pacer =
  bits_per_second :: u64
  wire_bytes_per_packet :: u32
  sent_packets :: u64

definition new_batch_pacer :: "u64 \<Rightarrow> u32 \<Rightarrow> batch_pacer result" where
  "new_batch_pacer bits wire =
     (if bits = 0 \<or> wire = 0
      then Err (speed_invalid ''batch pacer rate and wire size must be non-zero'')
      else Ok \<lparr>bits_per_second = bits, wire_bytes_per_packet = wire, sent_packets = 0\<rparr>)"

text \<open>Division by \<open>bits_per_packet\<close> panics when the wire size is zero, which the constructor refuses.\<close>

definition available_packets :: "batch_pacer \<Rightarrow> u64 \<Rightarrow> u32 \<Rightarrow> u32 result" where
  "available_packets self elapsed maximum_burst =
     (let allowed_bits = sat_mul (ucast (bits_per_second self) :: u128) (ucast elapsed) div 1000000000;
          bits_per_packet = sat_mul (ucast (wire_bytes_per_packet self) :: u128) 8 in
      if bits_per_packet = 0 then Panic
      else
        let allowed_packets = allowed_bits div bits_per_packet;
            outstanding = sat_sub allowed_packets (ucast (sent_packets self));
            capped = min outstanding (ucast maximum_burst)
        in Ok (if unat capped < 2 ^ 32 then ucast capped else maximum_burst))"

definition record_sent :: "batch_pacer \<Rightarrow> u32 \<Rightarrow> batch_pacer result" where
  "record_sent self packets =
     and_then (ok_or (speed_invalid ''UDP sent packet counter overflow'')
                 (checked_add (sent_packets self) (ucast packets))) (\<lambda>n.
     Ok (self\<lparr>sent_packets := n\<rparr>))"

record ramp_observation =
  target_bits_per_second :: u64
  ramp_tx_packets :: u64
  ramp_loss_packets :: u64

text \<open>The loop over the observations, with the last rate and the highest passing rate so far.\<close>

definition observation_invalid :: "u64 \<Rightarrow> ramp_observation \<Rightarrow> bool" where
  "observation_invalid last_rate ob \<longleftrightarrow>
     target_bits_per_second ob = 0 \<or> target_bits_per_second ob \<le> last_rate
     \<or> ramp_tx_packets ob = 0 \<or> ramp_tx_packets ob < ramp_loss_packets ob"

definition loss_ppm :: "ramp_observation \<Rightarrow> u128" where
  "loss_ppm ob =
     sat_mul (ucast (ramp_loss_packets ob)) 1000000 div ucast (ramp_tx_packets ob)"

fun loss_threshold_loop ::
  "u32 \<Rightarrow> u64 \<Rightarrow> u64 option \<Rightarrow> ramp_observation list \<Rightarrow> u64 option result" where
  "loss_threshold_loop ppm last_rate highest_passing [] = Ok highest_passing"
| "loss_threshold_loop ppm last_rate highest_passing (ob # rest) =
     (if observation_invalid last_rate ob then Err (speed_invalid ''ramp observation is invalid'')
      else if ucast ppm < loss_ppm ob then Ok highest_passing
      else loss_threshold_loop ppm (target_bits_per_second ob)
             (Some (target_bits_per_second ob)) rest)"

definition find_loss_threshold :: "ramp_observation list \<Rightarrow> u32 \<Rightarrow> u64 option result" where
  "find_loss_threshold observations ppm =
     (if 1000000 < ppm then Err (speed_invalid ''loss threshold ppm cannot exceed one million'')
      else loss_threshold_loop ppm 0 None observations)"

section \<open>The life cycle of a test\<close>

datatype speed_test_phase =
    Negotiate | Prepare | PhaseReady | Warmup | Measure | Cooldown | Finalize | PhaseResult | PhaseFailed

datatype barrier_peer = LocalPeer | RemotePeer

record measurement_window =
  started_monotonic_nanoseconds :: u64
  ended_monotonic_nanoseconds :: u64
  window_elapsed_nanoseconds :: u64

record speed_test_lifecycle =
  test_phase :: speed_test_phase
  local_ready :: bool
  remote_ready :: bool
  start_at_unix_nanoseconds :: "u64 option"
  measurement_started :: "u64 option"
  test_window :: "measurement_window option"

definition new_lifecycle :: speed_test_lifecycle where
  "new_lifecycle =
     \<lparr>test_phase = Negotiate, local_ready = False, remote_ready = False,
      start_at_unix_nanoseconds = None, measurement_started = None, test_window = None\<rparr>"

definition speed_state_error :: "string \<Rightarrow> nettool_error" where
  "speed_state_error m = new_error InvalidState m False"

definition phase_transition ::
  "speed_test_lifecycle \<Rightarrow> speed_test_phase \<Rightarrow> speed_test_phase \<Rightarrow> unit result \<times> speed_test_lifecycle" where
  "phase_transition self expected next =
     (if test_phase self \<noteq> expected
      then (Err (speed_state_error ''speed test phase transition is invalid''), self)
      else (Ok (), self\<lparr>test_phase := next\<rparr>))"

definition negotiated :: "speed_test_lifecycle \<Rightarrow> unit result \<times> speed_test_lifecycle" where
  "negotiated self = phase_transition self Negotiate Prepare"

definition mark_ready :: "speed_test_lifecycle \<Rightarrow> barrier_peer \<Rightarrow> bool result \<times> speed_test_lifecycle" where
  "mark_ready self peer =
     (if test_phase self \<noteq> Prepare \<and> test_phase self \<noteq> PhaseReady
      then (Err (speed_state_error ''readiness is only valid during prepare''), self)
      else
        let self = (case peer of LocalPeer \<Rightarrow> self\<lparr>local_ready := True\<rparr>
                    | RemotePeer \<Rightarrow> self\<lparr>remote_ready := True\<rparr>);
            self = (if local_ready self \<and> remote_ready self then self\<lparr>test_phase := PhaseReady\<rparr> else self)
        in (Ok (test_phase self = PhaseReady), self))"

definition schedule_start ::
  "speed_test_lifecycle \<Rightarrow> u64 \<Rightarrow> u64 \<Rightarrow> unit result \<times> speed_test_lifecycle" where
  "schedule_start self start_at now =
     (if test_phase self \<noteq> PhaseReady
      then (Err (speed_state_error ''both peers must be ready before scheduling start''), self)
      else if start_at = 0 then (Err (speed_invalid ''start_at must be non-zero''), self)
      else if start_at < now then (Err (speed_invalid ''start_at cannot be in the past''), self)
      else
        case start_at_unix_nanoseconds self of
          Some existing \<Rightarrow>
            (if existing = start_at then Ok ()
             else Err (speed_state_error ''start_at is already scheduled''), self)
        | None \<Rightarrow> (Ok (), self\<lparr>start_at_unix_nanoseconds := Some start_at\<rparr>))"

definition begin_warmup :: "speed_test_lifecycle \<Rightarrow> u64 \<Rightarrow> unit result \<times> speed_test_lifecycle" where
  "begin_warmup self now =
     (if test_phase self \<noteq> PhaseReady
      then (Err (speed_state_error ''session is not ready for warmup''), self)
      else
        case start_at_unix_nanoseconds self of
          None \<Rightarrow> (Err (speed_state_error ''start_at has not been scheduled''), self)
        | Some start_at \<Rightarrow>
            if now < start_at
            then (Err (speed_state_error ''scheduled start time has not arrived''), self)
            else (Ok (), self\<lparr>test_phase := Warmup\<rparr>))"

definition begin_measurement :: "speed_test_lifecycle \<Rightarrow> u64 \<Rightarrow> unit result \<times> speed_test_lifecycle" where
  "begin_measurement self now =
     (if test_phase self \<noteq> Warmup
      then (Err (speed_state_error ''measurement can only begin after warmup''), self)
      else (Ok (), self\<lparr>measurement_started := Some now, test_phase := Measure\<rparr>))"

definition end_measurement ::
  "speed_test_lifecycle \<Rightarrow> u64 \<Rightarrow> measurement_window result \<times> speed_test_lifecycle" where
  "end_measurement self now =
     (if test_phase self \<noteq> Measure
      then (Err (speed_state_error ''measurement is not running''), self)
      else
        case measurement_started self of
          None \<Rightarrow> (Err (speed_state_error ''measurement start is missing''), self)
        | Some started \<Rightarrow>
            case checked_sub now started of
              None \<Rightarrow> (Err (speed_state_error ''monotonic clock moved backwards''), self)
            | Some elapsed \<Rightarrow>
                if elapsed = 0
                then (Err (speed_invalid ''measurement duration must be greater than zero''), self)
                else
                  let window = \<lparr>started_monotonic_nanoseconds = started,
                                ended_monotonic_nanoseconds = now,
                                window_elapsed_nanoseconds = elapsed\<rparr>
                  in (Ok window, self\<lparr>test_window := Some window, test_phase := Cooldown\<rparr>))"

definition finish_cooldown :: "speed_test_lifecycle \<Rightarrow> unit result \<times> speed_test_lifecycle" where
  "finish_cooldown self = phase_transition self Cooldown Finalize"

definition finish_test :: "speed_test_lifecycle \<Rightarrow> measurement_window result \<times> speed_test_lifecycle" where
  "finish_test self =
     (if test_phase self \<noteq> Finalize
      then (Err (speed_state_error ''session is not finalizing''), self)
      else
        case test_window self of
          None \<Rightarrow> (Err (speed_state_error ''measurement window is missing''), self)
        | Some window \<Rightarrow> (Ok window, self\<lparr>test_phase := PhaseResult\<rparr>))"

definition fail_test :: "speed_test_lifecycle \<Rightarrow> unit result \<times> speed_test_lifecycle" where
  "fail_test self =
     (if test_phase self = PhaseResult \<or> test_phase self = PhaseFailed
      then (Err (speed_state_error ''terminal session state cannot change''), self)
      else (Ok (), self\<lparr>test_phase := PhaseFailed\<rparr>))"

section \<open>Result contracts\<close>

record udp_direction_result =
  direction_start_at :: u64
  direction_elapsed :: u64
  tx_bits_per_second :: u64
  rx_bits_per_second :: u64
  tx_packets :: u64
  rx_packets :: u64
  sequence_loss_packets :: u64
  duplicate_packets :: u64
  out_of_order_packets :: u64
  direction_jitter :: u64
  cpu_usage_basis_points :: "u32 option"

definition validate_direction :: "udp_direction_result \<Rightarrow> unit result" where
  "validate_direction self =
     (if direction_start_at self = 0 \<or> direction_elapsed self = 0
      then Err (speed_invalid ''UDP result requires non-zero start and duration'')
      else if tx_packets self < sequence_loss_packets self
      then Err (speed_invalid ''UDP sequence loss cannot exceed transmitted packets'')
      else if (case cpu_usage_basis_points self of None \<Rightarrow> False | Some cpu \<Rightarrow> 10000 < cpu)
      then Err (speed_invalid ''UDP CPU usage cannot exceed 10000 basis points'')
      else Ok ())"

record bidirectional_udp_result =
  a_to_b :: udp_direction_result
  b_to_a :: udp_direction_result
  combined_rx_bits_per_second :: u64
  combined_tx_bits_per_second :: u64
  combined_sequence_loss_packets :: u64

definition combine_directions ::
  "udp_direction_result \<Rightarrow> udp_direction_result \<Rightarrow> bidirectional_udp_result result" where
  "combine_directions a b =
     and_then (validate_direction a) (\<lambda>_.
     and_then (validate_direction b) (\<lambda>_.
     if direction_start_at a \<noteq> direction_start_at b
     then Err (speed_invalid ''bidirectional results must share the same scheduled start'')
     else
     and_then (ok_or (speed_invalid ''combined RX throughput overflow'')
                 (checked_add (rx_bits_per_second a) (rx_bits_per_second b))) (\<lambda>rx.
     and_then (ok_or (speed_invalid ''combined TX throughput overflow'')
                 (checked_add (tx_bits_per_second a) (tx_bits_per_second b))) (\<lambda>tx.
     and_then (ok_or (speed_invalid ''combined sequence loss overflow'')
                 (checked_add (sequence_loss_packets a) (sequence_loss_packets b))) (\<lambda>loss.
     Ok \<lparr>a_to_b = a, b_to_a = b, combined_rx_bits_per_second = rx,
         combined_tx_bits_per_second = tx, combined_sequence_loss_packets = loss\<rparr>)))))"

record latency_comparison =
  idle_rtt_nanoseconds :: u64
  loaded_rtt_nanoseconds :: u64

definition new_latency_comparison :: "u64 \<Rightarrow> u64 \<Rightarrow> latency_comparison result" where
  "new_latency_comparison idle loaded =
     (if idle = 0 \<or> loaded = 0
      then Err (speed_invalid ''idle and loaded RTT measurements are both required'')
      else Ok \<lparr>idle_rtt_nanoseconds = idle, loaded_rtt_nanoseconds = loaded\<rparr>)"

section \<open>The request of the public action\<close>

datatype speed_protocol = SpeedTcp | SpeedUdp | SpeedRaw

datatype speed_direction = Upload | Download | Bidirectional

record speed_run_request =
  speed_node :: string
  speed_protocol_of :: speed_protocol
  speed_backend :: string
  speed_direction_of :: speed_direction
  duration_ms :: u64
  warmup_ms :: u64
  cooldown_ms :: u64
  speed_streams :: "u16 option"
  frame_size :: "u16 option"
  target_rate_bps :: "u64 option"
  auto_tune :: bool
  latency_under_load :: bool
  speed_cpus :: "u32 list option"
  speed_numa_node :: "u32 option"
  accelerated_pci_address :: "string option"
  accelerated_interface_name :: "string option"
  remote_accelerated_pci_address :: "string option"
  remote_mac_address :: "string option"

definition valid_pci_bdf :: "string \<Rightarrow> bool" where
  "valid_pci_bdf value \<longleftrightarrow>
     length value = 12 \<and> value ! 4 = CHR '':'' \<and> value ! 7 = CHR '':'' \<and> value ! 10 = CHR ''.''
     \<and> list_all (\<lambda>(i, b). i \<in> {4, 7, 10} \<or> ascii_hexdigit b) (enumerate 0 value)"

definition hex_value :: "char \<Rightarrow> nat" where
  "hex_value c =
     (let n = of_char c :: nat in if n \<le> 57 then n - 48 else if n \<le> 70 then n - 55 else n - 87)"

text \<open>The first octet has two hexadecimal digits once the second conjunct holds, so
  \<open>from_str_radix\<close> succeeds on it.\<close>

definition valid_unicast_mac :: "string \<Rightarrow> bool" where
  "valid_unicast_mac value \<longleftrightarrow>
     (let parts = split_char (CHR '':'') value in
      length parts = 6
      \<and> list_all (\<lambda>part. length part = 2 \<and> list_all ascii_hexdigit part) parts
      \<and> (let first = hex_value (parts ! 0 ! 0) * 16 + hex_value (parts ! 0 ! 1)
         in first \<noteq> 0 \<and> even first))"

definition validate_cpus :: "speed_run_request \<Rightarrow> unit result" where
  "validate_cpus self =
     (case speed_cpus self of
        None \<Rightarrow> Ok ()
      | Some cpus \<Rightarrow>
          if cpus = [] then Err (speed_invalid ''CPU affinity list must not be empty'')
          else if length (remdups_adj (sort cpus)) \<noteq> length cpus
          then Err (speed_invalid ''CPU affinity list contains duplicates'')
          else if speed_backend self \<noteq> ''dpdk'' \<and> speed_backend self \<noteq> ''af_xdp''
          then Err (speed_invalid ''CPU affinity requires an accelerated backend'')
          else Ok ())"

definition validate_selectors :: "speed_run_request \<Rightarrow> unit result" where
  "validate_selectors self =
     (let backend = speed_backend self; pci = accelerated_pci_address self;
          name = accelerated_interface_name self; remote = remote_accelerated_pci_address self in
      if backend \<in> {''dpdk'', ''af_xdp'', ''rio''} then
        if (pci \<noteq> None) = (name \<noteq> None)
        then Err (speed_invalid ''accelerated backend requires exactly one PCI BDF or interface name'')
        else if (case pci of None \<Rightarrow> False | Some p \<Rightarrow> \<not> valid_pci_bdf p)
        then Err (speed_invalid ''accelerated PCI BDF is invalid'')
        else if (case name of None \<Rightarrow> False
                 | Some n \<Rightarrow> n = [] \<or> 256 < length n \<or> list_ex char_is_control (utf8_chars n))
        then Err (speed_invalid ''accelerated interface name is invalid'')
        else if backend = ''dpdk'' \<and> \<not> (case remote of None \<Rightarrow> False | Some p \<Rightarrow> valid_pci_bdf p)
        then Err (speed_invalid ''DPDK backend requires a valid remote PCI BDF'')
        else if backend = ''dpdk'' \<and> speed_protocol_of self = SpeedRaw
          \<and> \<not> (case remote_mac_address self of None \<Rightarrow> False | Some m \<Rightarrow> valid_unicast_mac m)
        then Err (speed_invalid ''DPDK raw Ethernet requires a valid remote unicast MAC'')
        else if backend \<noteq> ''dpdk'' \<and> remote \<noteq> None
        then Err (speed_invalid ''only the DPDK backend accepts a remote PCI BDF'')
        else Ok ()
      else if pci \<noteq> None \<or> name \<noteq> None \<or> remote \<noteq> None \<or> remote_mac_address self \<noteq> None
      then Err (speed_invalid ''socket and native backends do not accept accelerated NIC selectors'')
      else Ok ())"

definition validate_protocol :: "speed_run_request \<Rightarrow> unit result" where
  "validate_protocol self =
     (case speed_protocol_of self of
        SpeedTcp \<Rightarrow>
          if frame_size self \<noteq> None \<or> target_rate_bps self \<noteq> None
          then Err (speed_invalid ''TCP does not accept raw frame size or target rate'')
          else Ok ()
      | SpeedUdp \<Rightarrow>
          if frame_size self \<noteq> None \<or> target_rate_bps self = Some 0
          then Err (speed_invalid ''UDP requires a valid rate and does not accept frame size'')
          else Ok ()
      | SpeedRaw \<Rightarrow>
          if speed_backend self \<noteq> ''dpdk''
          then Err (speed_invalid ''raw Ethernet currently requires the DPDK backend'')
          else if (case frame_size self of None \<Rightarrow> True | Some bytes \<Rightarrow> bytes < 64)
            \<or> target_rate_bps self = Some 0
          then Err (speed_invalid ''raw Ethernet requires frame size >= 64 and a valid rate'')
          else if (case speed_streams self of None \<Rightarrow> False | Some streams \<Rightarrow> streams \<noteq> 1)
          then Err (speed_invalid ''raw Ethernet uses queue/flow sharding, not TCP streams'')
          else Ok ())"

definition validate_speed_request :: "speed_run_request \<Rightarrow> unit result" where
  "validate_speed_request self =
     (if str_blank (speed_node self) then Err (speed_invalid ''speed run requires a remote node'')
      else if speed_backend self \<notin> {''socket'', ''native'', ''dpdk'', ''af_xdp'', ''rio''}
      then Err (speed_invalid ''speed backend is not registered'')
      else if duration_ms self = 0
      then Err (speed_invalid ''measurement duration must be non-zero'')
      else if speed_streams self = Some 0 then Err (speed_invalid ''stream count must be non-zero'')
      else
      and_then (validate_cpus self) (\<lambda>_.
      if speed_numa_node self \<noteq> None \<and> speed_backend self \<in> {''socket'', ''native''}
      then Err (speed_invalid ''NUMA selection requires an accelerated backend'')
      else
      and_then (validate_selectors self) (\<lambda>_. validate_protocol self)))"

section \<open>Accelerated executors\<close>

text \<open>The executor is a trait: its backend and its \<open>execute\<close> are arguments.\<close>

datatype accelerated_backend = DpdkBackend | AfXdpBackend | RioBackend

definition backend_from_id :: "string \<Rightarrow> accelerated_backend option" where
  "backend_from_id value =
     (if value = ''dpdk'' then Some DpdkBackend
      else if value = ''af_xdp'' then Some AfXdpBackend
      else if value = ''rio'' then Some RioBackend
      else None)"

record accelerated_execution_request =
  request_backend :: accelerated_backend
  request_speed :: speed_run_request
  request_session_id :: bytes

definition new_execution_request ::
  "speed_run_request \<Rightarrow> bytes \<Rightarrow> accelerated_execution_request result" where
  "new_execution_request speed session =
     and_then (ok_or (speed_invalid ''accelerated executor requires a DPDK, AF_XDP, or RIO backend'')
                 (backend_from_id (speed_backend speed))) (\<lambda>backend.
     if session = replicate 16 0
     then Err (speed_invalid ''accelerated executor requires a non-zero session ID'')
     else Ok \<lparr>request_backend = backend, request_speed = speed, request_session_id = session\<rparr>)"

record accelerated_execution_result =
  result_session_id :: bytes
  result_elapsed :: u64
  transmitted_packets :: u64
  received_packets :: u64

definition execute_with ::
  "accelerated_backend \<Rightarrow> (accelerated_execution_request \<Rightarrow> accelerated_execution_result result)
     \<Rightarrow> accelerated_execution_request \<Rightarrow> accelerated_execution_result result" where
  "execute_with executor_backend execute request =
     (if executor_backend \<noteq> request_backend request
      then Err (new_error ActionUnsupported
             ''accelerated executor does not match the requested backend'' False)
      else
      and_then (execute request) (\<lambda>r.
      if result_session_id r \<noteq> request_session_id request \<or> result_elapsed r = 0
      then Err (new_error SpeedFailed
             ''accelerated executor returned an invalid measurement result'' False)
      else Ok r))"

section \<open>Facts about requests\<close>

lemma sorted_remdups_adj_distinct: "sorted (xs :: u32 list) \<Longrightarrow> distinct (remdups_adj xs)"
  by (induction xs rule: remdups_adj.induct) auto

lemma length_remdups_adj_sort: "length (remdups_adj (sort xs)) = length xs \<longleftrightarrow> distinct (xs :: u32 list)"
proof -
  have "distinct (remdups_adj (sort xs))" by (simp add: sorted_remdups_adj_distinct)
  then have "length (remdups_adj (sort xs)) = card (set xs)"
    by (metis distinct_card remdups_adj_set set_sort)
  then show ?thesis by (metis card_distinct distinct_card)
qed

text \<open>An accepted request names a registered backend; raw frames only travel over DPDK with a
  complete peer address, and an accelerated backend has exactly one local port selector.\<close>

lemma accepted_parts:
  "validate_speed_request r = Ok () \<Longrightarrow>
     speed_backend r \<in> {''socket'', ''native'', ''dpdk'', ''af_xdp'', ''rio''}
     \<and> validate_cpus r = Ok () \<and> validate_selectors r = Ok () \<and> validate_protocol r = Ok ()"
  by (simp add: validate_speed_request_def outcome_simps split: if_splits)

lemma accelerated_selector:
  assumes "validate_speed_request r = Ok ()"
  shows "backend_from_id (speed_backend r) \<noteq> None \<longleftrightarrow> speed_backend r \<notin> {''socket'', ''native''}"
    and "backend_from_id (speed_backend r) \<noteq> None \<Longrightarrow>
      (accelerated_pci_address r = None) \<noteq> (accelerated_interface_name r = None)"
  using accepted_parts [OF assms]
  by (auto simp: backend_from_id_def validate_selectors_def Let_def split: if_splits)

lemma raw_request_complete:
  assumes "validate_speed_request r = Ok ()" "speed_protocol_of r = SpeedRaw"
  shows "speed_backend r = ''dpdk''
      \<and> (\<exists>m p n. remote_mac_address r = Some m \<and> valid_unicast_mac m
          \<and> remote_accelerated_pci_address r = Some p \<and> valid_pci_bdf p
          \<and> frame_size r = Some n \<and> 64 \<le> n)"
proof -
  have p: "speed_backend r = ''dpdk''" "\<exists>n. frame_size r = Some n \<and> 64 \<le> n"
    using accepted_parts [OF assms(1)] assms(2)
    by (auto simp: validate_protocol_def not_less split: if_splits option.splits)
  then show ?thesis
    using accepted_parts [OF assms(1)] assms(2)
    by (auto simp: validate_selectors_def Let_def split: if_splits option.splits)
qed

lemma cpu_list_distinct:
  assumes "validate_speed_request r = Ok ()" "speed_cpus r = Some cpus"
  shows "cpus \<noteq> [] \<and> distinct cpus"
  using accepted_parts [OF assms(1)] assms(2)
  by (auto simp: validate_cpus_def length_remdups_adj_sort split: if_splits)

text \<open>
  The check of the peer's address refuses every address whose first octet is zero, a common vendor
  prefix, though such an address is unicast and the packet generator accepts it.
\<close>

lemma zero_prefix_refused: "\<not> valid_unicast_mac ''00:1b:21:00:00:01''"
  by (simp add: valid_unicast_mac_def hex_value_def Let_def)

section \<open>The phases of a test follow the evidence\<close>

datatype lifecycle_event =
    NegotiatedEvent
  | ReadyEvent barrier_peer
  | ScheduleEvent u64 u64
  | WarmupEvent u64
  | MeasureEvent u64
  | EndMeasureEvent u64
  | CooldownEvent
  | FinishEvent
  | FailEvent

fun lifecycle_apply :: "speed_test_lifecycle \<Rightarrow> lifecycle_event \<Rightarrow> speed_test_lifecycle" where
  "lifecycle_apply s NegotiatedEvent = snd (negotiated s)"
| "lifecycle_apply s (ReadyEvent peer) = snd (mark_ready s peer)"
| "lifecycle_apply s (ScheduleEvent start_at now) = snd (schedule_start s start_at now)"
| "lifecycle_apply s (WarmupEvent now) = snd (begin_warmup s now)"
| "lifecycle_apply s (MeasureEvent now) = snd (begin_measurement s now)"
| "lifecycle_apply s (EndMeasureEvent now) = snd (end_measurement s now)"
| "lifecycle_apply s CooldownEvent = snd (finish_cooldown s)"
| "lifecycle_apply s FinishEvent = snd (finish_test s)"
| "lifecycle_apply s FailEvent = snd (fail_test s)"

definition lifecycle_step :: "speed_test_lifecycle \<Rightarrow> lifecycle_event \<Rightarrow> speed_test_lifecycle \<Rightarrow> bool" where
  "lifecycle_step s ev t \<longleftrightarrow> t = lifecycle_apply s ev"

fun phase_rank :: "speed_test_phase \<Rightarrow> nat" where
  "phase_rank Negotiate = 0" | "phase_rank Prepare = 1" | "phase_rank PhaseReady = 2"
| "phase_rank Warmup = 3" | "phase_rank Measure = 4" | "phase_rank Cooldown = 5"
| "phase_rank Finalize = 6" | "phase_rank PhaseResult = 7" | "phase_rank PhaseFailed = 8"

text \<open>\<open>phase_between a b s\<close>: the test has reached phase a, has not gone past b and has not failed.\<close>

definition phase_between :: "speed_test_phase \<Rightarrow> speed_test_phase \<Rightarrow> speed_test_lifecycle \<Rightarrow> bool" where
  "phase_between a b s \<longleftrightarrow> phase_rank a \<le> phase_rank (test_phase s) \<and> phase_rank (test_phase s) \<le> phase_rank b"

definition window_ok :: "measurement_window \<Rightarrow> bool" where
  "window_ok w \<longleftrightarrow> 0 < window_elapsed_nanoseconds w
     \<and> unat (started_monotonic_nanoseconds w) + unat (window_elapsed_nanoseconds w)
        = unat (ended_monotonic_nanoseconds w)"

definition lifecycle_inv :: "speed_test_lifecycle \<Rightarrow> bool" where
  "lifecycle_inv s \<longleftrightarrow>
     (phase_between PhaseReady PhaseResult s \<longrightarrow> local_ready s \<and> remote_ready s)
     \<and> (phase_between Warmup PhaseResult s \<longrightarrow> (\<exists>t. start_at_unix_nanoseconds s = Some t \<and> t \<noteq> 0))
     \<and> (phase_between Measure PhaseResult s \<longrightarrow> measurement_started s \<noteq> None)
     \<and> (phase_between Cooldown PhaseResult s \<longrightarrow>
          (\<exists>w. test_window s = Some w \<and> window_ok w
             \<and> measurement_started s = Some (started_monotonic_nanoseconds w)))
     \<and> start_at_unix_nanoseconds s \<noteq> Some 0"

lemmas lifecycle_ops = negotiated_def mark_ready_def schedule_start_def begin_warmup_def
  begin_measurement_def end_measurement_def finish_cooldown_def finish_test_def fail_test_def
  phase_transition_def

lemma checked_sub_window:
  "checked_sub now started = Some elapsed \<Longrightarrow> elapsed \<noteq> 0 \<Longrightarrow>
     window_ok \<lparr>started_monotonic_nanoseconds = started, ended_monotonic_nanoseconds = now,
                window_elapsed_nanoseconds = elapsed\<rparr>"
  using checked_sub_SomeD [of now started elapsed]
  by (auto simp: window_ok_def word_le_nat_alt word_neq_0_conv)

lemma lifecycle_inv_step: "lifecycle_inv s \<Longrightarrow> lifecycle_inv (lifecycle_apply s ev)"
  by (cases ev; cases "test_phase s")
    (auto simp: lifecycle_ops lifecycle_inv_def phase_between_def Let_def checked_sub_window
      split: option.splits if_splits barrier_peer.splits)

lemma lifecycle_rank_step:
  "phase_rank (test_phase (lifecycle_apply s ev))
     \<in> {phase_rank (test_phase s), Suc (phase_rank (test_phase s)), phase_rank PhaseFailed}"
  by (cases ev; cases "test_phase s")
    (auto simp: lifecycle_ops Let_def split: option.splits barrier_peer.splits)

lemma lifecycle_terminal:
  "test_phase s \<in> {PhaseResult, PhaseFailed} \<Longrightarrow> lifecycle_apply s ev = s"
  by (cases ev) (auto simp: lifecycle_ops)

interpretation lifecycle: invariant_system "\<lambda>s. s = new_lifecycle" lifecycle_step lifecycle_inv
proof
  show "lifecycle_inv s" if "s = new_lifecycle" for s
    using that by (simp add: lifecycle_inv_def new_lifecycle_def phase_between_def)
  show "lifecycle_inv t" if "lifecycle_inv s" "lifecycle_step s ev t" for s ev t
    using that by (simp add: lifecycle_step_def lifecycle_inv_step)
qed

text \<open>
  C30.  The life cycle of a speed test never skips a step: in every reachable state, a test that has
  passed the barrier has both peers ready, one that has started warming up has a scheduled non-zero
  start, and one that has finished measuring has a window of positive length that ends exactly its
  length after it started on the monotonic clock.  Every operation keeps the phase, advances it by
  one, or marks the test failed, and nothing changes a test with a result or a failure.
\<close>

theorem lifecycle_ordered:
  assumes "reachable (\<lambda>s. s = new_lifecycle) lifecycle_step s"
  shows "(phase_between PhaseReady PhaseResult s \<longrightarrow> local_ready s \<and> remote_ready s)
    \<and> (phase_between Warmup PhaseResult s \<longrightarrow> (\<exists>t. start_at_unix_nanoseconds s = Some t \<and> t \<noteq> 0))
    \<and> (phase_between Cooldown PhaseResult s \<longrightarrow> (\<exists>w. test_window s = Some w \<and> window_ok w))
    \<and> phase_rank (test_phase (lifecycle_apply s ev))
        \<in> {phase_rank (test_phase s), Suc (phase_rank (test_phase s)), phase_rank PhaseFailed}
    \<and> (test_phase s \<in> {PhaseResult, PhaseFailed} \<longrightarrow> lifecycle_apply s ev = s)"
proof -
  have "lifecycle_inv s" by (rule lifecycle.reachable_inv [OF assms])
  then show ?thesis
    using lifecycle_rank_step [of s ev] lifecycle_terminal [of s ev] by (auto simp: lifecycle_inv_def)
qed

definition sample_events :: "lifecycle_event list" where
  "sample_events = [NegotiatedEvent, ReadyEvent LocalPeer, ReadyEvent RemotePeer, ScheduleEvent 20 10,
     WarmupEvent 25, MeasureEvent 100, EndMeasureEvent 350, CooldownEvent, FinishEvent]"

lemma reachable_run: "reachable (\<lambda>s. s = new_lifecycle) lifecycle_step (foldl lifecycle_apply new_lifecycle evs)"
proof (induction evs rule: rev_induct)
  case Nil
  then show ?case by (auto intro: reachable_init)
next
  case (snoc ev evs)
  then show ?case by (auto intro: reachable_step simp: lifecycle_step_def)
qed

theorem lifecycle_ordered_witness:
  "\<exists>s w. s = foldl lifecycle_apply new_lifecycle sample_events \<and> test_phase s = PhaseResult
    \<and> test_window s = Some w \<and> window_ok w \<and> window_elapsed_nanoseconds w = 250
    \<and> lifecycle_apply s FailEvent = s"
proof -
  let ?s = "foldl lifecycle_apply new_lifecycle sample_events"
  have "test_phase ?s = PhaseResult \<and> test_window ?s = Some \<lparr>started_monotonic_nanoseconds = 100,
      ended_monotonic_nanoseconds = 350, window_elapsed_nanoseconds = 250\<rparr>"
    by (simp add: sample_events_def new_lifecycle_def lifecycle_ops Let_def checked_sub_def)
  then show ?thesis
    using lifecycle_ordered [OF reachable_run [of sample_events], of FailEvent]
    by (simp add: phase_between_def)
qed

section \<open>The pacer keeps to the rate\<close>

lemma unat_ucast_u64: "unat (ucast (x :: u64) :: u128) = unat x"
  by (rule unat_ucast_up) simp

lemma unat_ucast_u32: "unat (ucast (x :: u32) :: u128) = unat x" "unat (ucast x :: u64) = unat x"
  by (rule unat_ucast_up, simp)+

lemma mult_u64_fits: "unat (a :: u64) * unat (b :: u64) < 2 ^ 128"
proof -
  have "unat a * unat b < 2 ^ 64 * 2 ^ 64"
    using unsigned_less [of a, where ?'a = nat] unsigned_less [of b, where ?'a = nat]
    by (intro mult_strict_mono) auto
  then show ?thesis by (simp add: power_add [symmetric])
qed

text \<open>The packets the elapsed time pays for.\<close>

definition paid_packets :: "batch_pacer \<Rightarrow> u64 \<Rightarrow> nat" where
  "paid_packets p elapsed =
     unat (bits_per_second p) * unat elapsed div 1000000000 div (unat (wire_bytes_per_packet p) * 8)"

lemma allowed_bits:
  "unat (sat_mul (ucast (a :: u64) :: u128) (ucast (b :: u64))) = unat a * unat b"
  using mult_u64_fits [of a b] by (simp add: unat_sat_mul unat_ucast_u64)

lemma packet_bits: "unat (sat_mul (ucast (w :: u32) :: u128) 8) = unat w * 8"
  using unsigned_less [of w, where ?'a = nat] by (simp add: unat_sat_mul unat_ucast_u32)

lemma available_packets_eq:
  assumes "wire_bytes_per_packet p \<noteq> 0"
  shows "\<exists>n. available_packets p elapsed burst = Ok n
    \<and> unat n = min (paid_packets p elapsed - unat (sent_packets p)) (unat burst)"
proof -
  define bits where "bits = sat_mul (ucast (bits_per_second p) :: u128) (ucast elapsed) div 1000000000"
  define per where "per = sat_mul (ucast (wire_bytes_per_packet p) :: u128) 8"
  define out where "out = sat_sub (bits div per) (ucast (sent_packets p))"
  have per: "unat per = unat (wire_bytes_per_packet p) * 8" unfolding per_def by (rule packet_bits)
  have "unat (wire_bytes_per_packet p) \<noteq> 0" using assms by (simp add: unat_eq_0)
  then have "per \<noteq> 0" using per by (metis mult_eq_0_iff unat_0 zero_neq_numeral)
  moreover have out: "unat out = paid_packets p elapsed - unat (sent_packets p)"
    unfolding out_def paid_packets_def
    by (simp add: unat_sat_sub unat_div per unat_ucast_u64 bits_def allowed_bits)
  moreover have capped: "unat (min out (ucast burst)) = min (unat out) (unat burst)"
    by (simp add: min_def word_le_nat_alt unat_ucast_u32)
  then have "unat (min out (ucast burst)) < 2 ^ 32"
    using unsigned_less [of burst, where ?'a = nat] by simp
  moreover from this have "unat (ucast (min out (ucast burst)) :: u32) = unat (min out (ucast burst))"
    by (simp add: unsigned_ucast_eq take_bit_nat_eq_self)
  ultimately show ?thesis
    using capped unfolding available_packets_def Let_def bits_def [symmetric] per_def [symmetric]
      out_def [symmetric] by simp
qed

text \<open>The pacers a sender can hold at a time: created, then advanced by bursts of at most the packets
  the pacer allowed at the time of the burst.\<close>

inductive paced :: "u64 \<Rightarrow> u32 \<Rightarrow> batch_pacer \<Rightarrow> u64 \<Rightarrow> bool" for bits :: u64 and wire :: u32 where
  paced_new: "new_batch_pacer bits wire = Ok p \<Longrightarrow> paced bits wire p 0"
| paced_burst: "paced bits wire p earlier \<Longrightarrow> earlier \<le> elapsed \<Longrightarrow>
    available_packets p elapsed burst = Ok n \<Longrightarrow> k \<le> n \<Longrightarrow> record_sent p k = Ok p' \<Longrightarrow>
    paced bits wire p' elapsed"

lemma paid_packets_mono: "a \<le> b \<Longrightarrow> paid_packets p a \<le> paid_packets p b"
  by (simp add: paid_packets_def word_le_nat_alt div_le_mono mult_le_mono)

lemma record_sent_Ok:
  "record_sent p k = Ok p' \<Longrightarrow> unat (sent_packets p') = unat (sent_packets p) + unat k
     \<and> bits_per_second p' = bits_per_second p \<and> wire_bytes_per_packet p' = wire_bytes_per_packet p"
  by (auto simp: record_sent_def outcome_simps unat_ucast_u32 dest!: checked_add_SomeD)

lemma paced_inv:
  "paced bits wire p t \<Longrightarrow> bits_per_second p = bits \<and> wire_bytes_per_packet p = wire \<and> wire \<noteq> 0
     \<and> unat (sent_packets p) \<le> paid_packets p t"
proof (induction rule: paced.induct)
  case (paced_new p)
  then show ?case by (auto simp: new_batch_pacer_def split: if_splits)
next
  case (paced_burst p earlier elapsed burst n k p')
  obtain n' where "available_packets p elapsed burst = Ok n'"
    "unat n' = min (paid_packets p elapsed - unat (sent_packets p)) (unat burst)"
    using available_packets_eq [of p elapsed burst] paced_burst.IH by auto
  then have "unat k \<le> paid_packets p elapsed - unat (sent_packets p)"
    using paced_burst.hyps by (simp add: word_le_nat_alt)
  moreover have "unat (sent_packets p) \<le> paid_packets p elapsed"
    using paced_burst.IH paid_packets_mono [OF paced_burst.hyps(2), of p] by linarith
  moreover have "paid_packets p' elapsed = paid_packets p elapsed"
    using record_sent_Ok [OF paced_burst.hyps(5)] by (simp add: paid_packets_def)
  ultimately show ?case using record_sent_Ok [OF paced_burst.hyps(5)] paced_burst.IH by simp
qed

lemma paid_packets_bits:
  "paid_packets p t * (unat (wire_bytes_per_packet p) * 8) * 1000000000 \<le> unat (bits_per_second p) * unat t"
proof -
  let ?b = "unat (bits_per_second p) * unat t div 1000000000" and ?w = "unat (wire_bytes_per_packet p) * 8"
  have "paid_packets p t * ?w \<le> ?b" unfolding paid_packets_def by (rule div_times_less_eq_dividend)
  then have "paid_packets p t * ?w * 1000000000 \<le> ?b * 1000000000" by simp
  also have "\<dots> \<le> unat (bits_per_second p) * unat t" by (rule div_times_less_eq_dividend)
  finally show ?thesis .
qed

text \<open>
  C13.  The batch pacer keeps to the configured rate: whatever bursts were sent, as long as each was at
  most what the pacer allowed, the bits sent never exceed the rate times the elapsed time.  The pacer
  never panics, and when the burst limit does not bind it allows exactly the packets that bring the
  total up to what the elapsed time pays for, so no budget is lost.
\<close>

theorem pacer_keeps_rate:
  assumes "paced bits wire p t"
  shows "unat (sent_packets p) * (unat wire * 8) * 1000000000 \<le> unat bits * unat t
    \<and> (\<exists>n. available_packets p t burst = Ok n \<and> n \<le> burst
      \<and> (n < burst \<longrightarrow> unat (sent_packets p) + unat n = unat bits * unat t div 1000000000 div (unat wire * 8)))"
proof -
  note inv = paced_inv [OF assms]
  have "unat (sent_packets p) * (unat wire * 8) * 1000000000 \<le> paid_packets p t * (unat wire * 8) * 1000000000"
    using inv by (intro mult_le_mono1) simp
  also have "\<dots> \<le> unat bits * unat t" using paid_packets_bits [of p t] inv by simp
  finally have rate: "unat (sent_packets p) * (unat wire * 8) * 1000000000 \<le> unat bits * unat t" .
  obtain n where n: "available_packets p t burst = Ok n"
    "unat n = min (paid_packets p t - unat (sent_packets p)) (unat burst)"
    using available_packets_eq [of p t burst] inv by auto
  have "n < burst \<longrightarrow> unat (sent_packets p) + unat n = paid_packets p t"
    using n(2) inv by (auto simp: word_less_nat_alt)
  moreover have "n \<le> burst" using n(2) by (simp add: word_le_nat_alt)
  ultimately show ?thesis using rate n(1) inv unfolding paid_packets_def by auto
qed

theorem pacer_keeps_rate_witness:
  "\<exists>p. paced 8000 100 p 1000000000 \<and> sent_packets p = 6
    \<and> unat (sent_packets p) * (100 * 8) * 1000000000 \<le> 8000 * (1000000000 :: nat)
    \<and> available_packets p 1000000000 32 = Ok 4"
proof -
  let ?p = "\<lparr>bits_per_second = 8000, wire_bytes_per_packet = 100, sent_packets = 6\<rparr>"
  have new: "paced 8000 100 \<lparr>bits_per_second = 8000, wire_bytes_per_packet = 100, sent_packets = 0\<rparr> 0"
    by (rule paced_new) (simp add: new_batch_pacer_def)
  have p: "paced 8000 100 ?p 1000000000"
    by (rule paced_burst [OF new, of 1000000000 32 10 6])
      (simp_all add: available_packets_def record_sent_def checked_add_def sat_mul_def sat_sub_def Let_def)
  have "available_packets ?p 1000000000 32 = Ok 4"
    by (simp add: available_packets_def sat_mul_def sat_sub_def Let_def)
  then show ?thesis using p pacer_keeps_rate [OF p, of 32] by (intro exI [of _ ?p]) simp
qed

section \<open>The loss threshold\<close>

text \<open>On observations with increasing rates and consistent counters the search returns the last rate
  before the first one whose loss exceeds the threshold.\<close>

fun observations_valid :: "u64 \<Rightarrow> ramp_observation list \<Rightarrow> bool" where
  "observations_valid last_rate [] \<longleftrightarrow> True"
| "observations_valid last_rate (ob # rest) \<longleftrightarrow>
     \<not> observation_invalid last_rate ob \<and> observations_valid (target_bits_per_second ob) rest"

definition passes :: "u32 \<Rightarrow> ramp_observation \<Rightarrow> bool" where
  "passes ppm ob \<longleftrightarrow>
     unat (ramp_loss_packets ob) * 1000000 div unat (ramp_tx_packets ob) \<le> unat ppm"

lemma loss_ppm_passes: "ucast ppm < loss_ppm ob \<longleftrightarrow> \<not> passes ppm ob"
proof -
  have "unat (ramp_loss_packets ob) * 1000000 < 2 ^ 128"
    using unsigned_less [of "ramp_loss_packets ob", where ?'a = nat] by simp
  then show ?thesis
    by (simp add: loss_ppm_def passes_def word_less_nat_alt unat_div unat_sat_mul unat_ucast_u64
        unat_ucast_u32 not_le)
qed

lemma loss_threshold_loop_eq:
  "observations_valid last_rate obs \<Longrightarrow> loss_threshold_loop ppm last_rate best obs =
     Ok (if takeWhile (passes ppm) obs = [] then best
         else Some (target_bits_per_second (last (takeWhile (passes ppm) obs))))"
  by (induction obs arbitrary: last_rate best) (auto simp: loss_ppm_passes)

lemma find_loss_threshold_correct:
  assumes "ppm \<le> 1000000" "observations_valid 0 obs"
  shows "find_loss_threshold obs ppm =
    Ok (if takeWhile (passes ppm) obs = [] then None
        else Some (target_bits_per_second (last (takeWhile (passes ppm) obs))))"
  using assms loss_threshold_loop_eq by (auto simp: find_loss_threshold_def)

lemma standard_ramp_valid: "validate_rate_mode standard_100g_ramp = Ok ()"
  by (simp add: standard_100g_ramp_def)

end
