(* ===== verification/Speed_Engine.thy ===== *)
theory Speed_Engine
  imports Speed_Udp Speed_Session
begin

text \<open>
  The UDP socket engine (src/crates/speed/src/socket_udp.rs): the sender, which authenticates its
  stream, sends paced bursts until a deadline and closes with an END datagram, and the receiver, which
  accepts one authenticated stream until END or an idle timeout.

  The clock is a function from the number of a reading to nanoseconds since the start of the
  measurement, the socket a function from the number of a send to its outcome; the sender records the
  datagrams it sent.  The sender's loop is a partial function: it is shown to return as soon as the
  clock passes the deadline for good.  The receiver consumes a list of receive events and returns
  \<open>None\<close> while it is still waiting for one.  A socket address is a value that is only compared.
\<close>

section \<open>Configurations and results\<close>

definition UDP_FLAG_END :: u32 where
  "UDP_FLAG_END = 1"

definition UDP_FLAG_AUTH :: u32 where
  "UDP_FLAG_AUTH = 2"

definition MAX_UDP_DATAGRAM_BYTES :: nat where
  "MAX_UDP_DATAGRAM_BYTES = 65507"

record udp_sender_config =
  sender_session_id :: bytes
  sender_stream_id :: u32
  datagram_bytes :: nat
  measurement_milliseconds :: u64
  sender_target_rate :: "u64 option"
  maximum_packets_per_burst :: u32
  sender_tag :: string

definition validate_sender :: "udp_sender_config \<Rightarrow> unit result" where
  "validate_sender self =
     (if \<not> (UDP_SPEED_HEADER_BYTES \<le> datagram_bytes self \<and> datagram_bytes self \<le> MAX_UDP_DATAGRAM_BYTES)
      then Err (speed_invalid ''UDP datagram size is outside the valid socket range'')
      else if \<not> (100 \<le> measurement_milliseconds self \<and> measurement_milliseconds self \<le> 86400000)
      then Err (speed_invalid ''UDP measurement must be between 100 ms and 24 hours'')
      else if sender_target_rate self = Some 0
      then Err (speed_invalid ''UDP target rate must be greater than zero'')
      else if \<not> (1 \<le> maximum_packets_per_burst self \<and> maximum_packets_per_burst self \<le> 4096)
      then Err (speed_invalid ''UDP burst size must be between 1 and 4096'')
      else validate_authorization_tag (sender_tag self))"

record 'a udp_receiver_config =
  receiver_session_id :: bytes
  receiver_stream_id :: u32
  expected_source :: 'a
  maximum_datagram_bytes :: nat
  idle_timeout_milliseconds :: u64
  receiver_tag :: string

definition validate_receiver :: "'a udp_receiver_config \<Rightarrow> unit result" where
  "validate_receiver self =
     (if \<not> (UDP_SPEED_HEADER_BYTES \<le> maximum_datagram_bytes self
            \<and> maximum_datagram_bytes self \<le> MAX_UDP_DATAGRAM_BYTES)
      then Err (speed_invalid ''UDP receive buffer is outside the valid socket range'')
      else if \<not> (100 \<le> idle_timeout_milliseconds self \<and> idle_timeout_milliseconds self \<le> 60000)
      then Err (speed_invalid ''UDP idle timeout must be between 100 ms and 60 seconds'')
      else validate_authorization_tag (receiver_tag self))"

record udp_sender_result =
  sender_tx_packets :: u64
  tx_datagram_bytes :: u64
  sender_elapsed_nanoseconds :: u64
  sender_bits_per_second :: u64

record udp_receiver_result =
  receiver_rx_packets :: u64
  rx_datagram_bytes :: u64
  receiver_elapsed_nanoseconds :: u64
  receiver_bits_per_second :: u64
  receiver_sequence :: udp_sequence_stats
  receiver_jitter :: u64
  invalid_datagrams :: u64
  unauthorized_datagrams :: u64
  graceful_end :: bool

definition engine_error :: "string \<Rightarrow> bool \<Rightarrow> nettool_error" where
  "engine_error m r = new_error SpeedFailed m r"

definition udp_io_error :: "string \<Rightarrow> nettool_error" where
  "udp_io_error e = new_error SpeedFailed (''UDP speed I/O failed: '' @ e) True"

text \<open>The divisor is at least one, so \<open>checked_div\<close> never falls back to zero.\<close>

definition udp_rate :: "u64 \<Rightarrow> u64 \<Rightarrow> u64" where
  "udp_rate transferred elapsed =
     sat_mul (sat_mul transferred 8) 1000000000 div (max elapsed 1)"

section \<open>The sender\<close>

type_synonym udp_send = "nat \<Rightarrow> bytes \<Rightarrow> string + nat"

definition send_whole :: "udp_send \<Rightarrow> string \<Rightarrow> bytes list \<Rightarrow> bytes \<Rightarrow> bytes list result" where
  "send_whole send partial_message trace datagram =
     and_then (map_err udp_io_error (from_result (send (length trace) datagram))) (\<lambda>sent.
     if sent \<noteq> length datagram then Err (engine_error partial_message True)
     else Ok (trace @ [datagram]))"

definition send_end :: "udp_send \<Rightarrow> udp_sender_config \<Rightarrow> u64 \<Rightarrow> u64 \<Rightarrow> bytes list \<Rightarrow> bytes list result" where
  "send_end send config seqno timestamp trace =
     and_then (encode_speed_header
       \<lparr>speed_session_id = sender_session_id config, speed_stream_id = sender_stream_id config,
        speed_sequence = seqno, speed_flags = UDP_FLAG_END, send_timestamp_nanoseconds = timestamp,
        speed_payload_length = 0\<rparr>)
     (send_whole send ''UDP socket reported a partial END send'' trace)"

definition send_auth :: "udp_send \<Rightarrow> udp_sender_config \<Rightarrow> bytes list \<Rightarrow> bytes list result" where
  "send_auth send config trace =
     and_then (ok_or (speed_invalid ''authorization tag length cannot be represented'')
                 (try_from_nat (length (sender_tag config)))) (\<lambda>payload_len.
     and_then (encode_speed_header
       \<lparr>speed_session_id = sender_session_id config, speed_stream_id = sender_stream_id config,
        speed_sequence = 0, speed_flags = UDP_FLAG_AUTH, send_timestamp_nanoseconds = 0,
        speed_payload_length = payload_len\<rparr>) (\<lambda>header.
     send_whole send ''UDP socket reported a partial AUTH datagram send'' trace
       (header @ str_bytes (sender_tag config))))"

text \<open>\<open>tick\<close> counts the clock readings taken so far, \<open>sent_trace\<close> the datagrams handed to the socket.\<close>

record sender_state =
  tick :: nat
  sender_pacer :: "batch_pacer option"
  next_sequence :: u64
  transmitted_bytes :: u64
  datagram_buffer :: bytes
  sent_trace :: "bytes list"

fun send_burst ::
  "(nat \<Rightarrow> nat) \<Rightarrow> udp_send \<Rightarrow> udp_sender_config \<Rightarrow> nat \<Rightarrow> u32 \<Rightarrow> u32 \<Rightarrow> nat \<Rightarrow> u32 \<Rightarrow> sender_state
     \<Rightarrow> (u32 \<times> sender_state) result" where
  "send_burst clock send config deadline payload_len wire_bytes 0 sent st = Ok (sent, st)"
| "send_burst clock send config deadline payload_len wire_bytes (Suc n) sent st =
     (if deadline \<le> clock (tick st) then Ok (sent, st\<lparr>tick := tick st + 1\<rparr>)
      else
      and_then (encode_speed_header
        \<lparr>speed_session_id = sender_session_id config, speed_stream_id = sender_stream_id config,
         speed_sequence = next_sequence st, speed_flags = 0,
         send_timestamp_nanoseconds = clamp_from_nat (clock (tick st + 1)),
         speed_payload_length = payload_len\<rparr>) (\<lambda>header.
      and_then (copy_from_slice (datagram_buffer st) 0 UDP_SPEED_HEADER_BYTES header) (\<lambda>datagram.
      and_then (send_whole send ''UDP socket reported a partial datagram send'' (sent_trace st) datagram) (\<lambda>trace.
      and_then (ok_or (speed_invalid ''UDP sequence counter overflow'')
                  (checked_add (next_sequence st) 1)) (\<lambda>seqno.
      and_then (ok_or (speed_invalid ''UDP byte counter overflow'')
                  (checked_add (transmitted_bytes st) (ucast wire_bytes))) (\<lambda>sum_bytes.
      send_burst clock send config deadline payload_len wire_bytes n (sent + 1)
        (st\<lparr>tick := tick st + 2, next_sequence := seqno, transmitted_bytes := sum_bytes,
            datagram_buffer := datagram, sent_trace := trace\<rparr>)))))))"

definition burst_budget :: "udp_sender_config \<Rightarrow> sender_state \<Rightarrow> u64 \<Rightarrow> u32 result" where
  "burst_budget config st elapsed =
     (case sender_pacer st of
        None \<Rightarrow> Ok (maximum_packets_per_burst config)
      | Some p \<Rightarrow> available_packets p elapsed (maximum_packets_per_burst config))"

definition commit_burst :: "u32 \<Rightarrow> sender_state \<Rightarrow> sender_state result" where
  "commit_burst sent st =
     (case sender_pacer st of
        None \<Rightarrow> Ok st
      | Some p \<Rightarrow> and_then (record_sent p sent) (\<lambda>p'. Ok (st\<lparr>sender_pacer := Some p'\<rparr>)))"

text \<open>One iteration of the \<open>while\<close> loop, after its condition has held.\<close>

definition sender_iteration ::
  "(nat \<Rightarrow> nat) \<Rightarrow> udp_send \<Rightarrow> udp_sender_config \<Rightarrow> nat \<Rightarrow> u32 \<Rightarrow> u32 \<Rightarrow> sender_state \<Rightarrow> sender_state result" where
  "sender_iteration clock send config deadline payload_len wire_bytes st =
     (let elapsed = clamp_from_nat (clock (tick st)); st = st\<lparr>tick := tick st + 1\<rparr> in
      and_then (burst_budget config st elapsed) (\<lambda>available.
      if available = 0 then Ok st
      else
      and_then (send_burst clock send config deadline payload_len wire_bytes (unat available) 0 st)
        (\<lambda>(sent, st). commit_burst sent st)))"

partial_function (option) sender_loop ::
  "(nat \<Rightarrow> nat) \<Rightarrow> udp_send \<Rightarrow> udp_sender_config \<Rightarrow> nat \<Rightarrow> u32 \<Rightarrow> u32 \<Rightarrow> sender_state \<Rightarrow> sender_state result option" where
  "sender_loop clock send config deadline payload_len wire_bytes st =
     (if clock (tick st) < deadline then
        (case sender_iteration clock send config deadline payload_len wire_bytes (st\<lparr>tick := tick st + 1\<rparr>) of
           Ok st' \<Rightarrow> sender_loop clock send config deadline payload_len wire_bytes st'
         | Err e \<Rightarrow> Some (Err e)
         | Panic \<Rightarrow> Some Panic)
      else Some (Ok (st\<lparr>tick := tick st + 1\<rparr>)))"

declare sender_loop.simps [code]

definition sender_start :: "udp_send \<Rightarrow> udp_sender_config \<Rightarrow> (u32 \<times> u32 \<times> sender_state) result" where
  "sender_start send config =
     and_then (validate_sender config) (\<lambda>_.
     and_then (send_auth send config []) (\<lambda>trace.
     and_then (ok_or (speed_invalid ''UDP payload length cannot be represented'')
                 (try_from_nat (datagram_bytes config - UDP_SPEED_HEADER_BYTES))) (\<lambda>payload_len.
     and_then (ok_or (speed_invalid ''UDP datagram size cannot be represented'')
                 (try_from_nat (datagram_bytes config))) (\<lambda>wire_bytes.
     and_then (case sender_target_rate config of
                 None \<Rightarrow> Ok None
               | Some bits \<Rightarrow> and_then (new_batch_pacer bits wire_bytes) (\<lambda>p. Ok (Some p))) (\<lambda>pacer.
     Ok (payload_len, wire_bytes,
         \<lparr>tick = 0, sender_pacer = pacer, next_sequence = 0, transmitted_bytes = 0,
          datagram_buffer = replicate (datagram_bytes config) 0xA5, sent_trace = trace\<rparr>))))))"

definition sender_finish ::
  "(nat \<Rightarrow> nat) \<Rightarrow> udp_send \<Rightarrow> udp_sender_config \<Rightarrow> sender_state \<Rightarrow> (udp_sender_result \<times> bytes list) result" where
  "sender_finish clock send config st =
     (let elapsed = max (clamp_from_nat (clock (tick st))) 1 in
      and_then (send_end send config (next_sequence st) elapsed (sent_trace st)) (\<lambda>trace.
      Ok (\<lparr>sender_tx_packets = next_sequence st, tx_datagram_bytes = transmitted_bytes st,
           sender_elapsed_nanoseconds = elapsed,
           sender_bits_per_second = udp_rate (transmitted_bytes st) elapsed\<rparr>, trace)))"

definition run_udp_sender ::
  "(nat \<Rightarrow> nat) \<Rightarrow> udp_send \<Rightarrow> udp_sender_config \<Rightarrow> (udp_sender_result \<times> bytes list) result option" where
  "run_udp_sender clock send config =
     (case sender_start send config of
        Err e \<Rightarrow> Some (Err e)
      | Panic \<Rightarrow> Some Panic
      | Ok (payload_len, wire_bytes, st) \<Rightarrow>
          (case sender_loop clock send config (unat (measurement_milliseconds config) * 1000000)
                  payload_len wire_bytes st of
             None \<Rightarrow> None
           | Some r \<Rightarrow> Some (and_then r (sender_finish clock send config))))"

section \<open>The receiver\<close>

text \<open>
  A receive event is a datagram, as it lies in the receive buffer, with its source and the clock
  readings taken when it arrived and when it is measured; or the idle timeout; or a socket error.
\<close>

datatype 'a receive_event =
    Received bytes 'a nat nat
  | ReceiveTimeout
  | ReceiveError string

record receiver_state =
  receiver_tracker :: bounded_sequence_tracker
  receiver_jitter_tracker :: udp_jitter_tracker
  receive_started :: "nat option"
  state_rx_packets :: u64
  state_rx_bytes :: u64
  state_invalid :: u64
  state_unauthorized :: u64
  stream_authorized :: bool

datatype receive_step = Continue receiver_state | Stop bool receiver_state

definition count_invalid :: "receiver_state \<Rightarrow> receive_step" where
  "count_invalid st = Continue (st\<lparr>state_invalid := sat_add (state_invalid st) 1\<rparr>)"

definition count_unauthorized :: "receiver_state \<Rightarrow> receive_step" where
  "count_unauthorized st = Continue (st\<lparr>state_unauthorized := sat_add (state_unauthorized st) 1\<rparr>)"

definition measure_datagram ::
  "receiver_state \<Rightarrow> udp_speed_header \<Rightarrow> nat \<Rightarrow> nat \<Rightarrow> nat \<Rightarrow> receiver_state result" where
  "measure_datagram st header len now reading =
     (let started = (case receive_started st of None \<Rightarrow> now | Some t \<Rightarrow> t);
          receive_timestamp = clamp_from_nat (reading - started) in
      and_then (observe_bounded (receiver_tracker st) (speed_sequence header)) (\<lambda>tracker.
      Ok (st\<lparr>receiver_tracker := tracker,
             receiver_jitter_tracker :=
               observe_jitter (receiver_jitter_tracker st) (send_timestamp_nanoseconds header) receive_timestamp,
             receive_started := Some started,
             state_rx_packets := sat_add (state_rx_packets st) 1,
             state_rx_bytes := sat_add (state_rx_bytes st) (clamp_from_nat len)\<rparr>)))"

definition receive_datagram ::
  "'a udp_receiver_config \<Rightarrow> receiver_state \<Rightarrow> bytes \<Rightarrow> 'a \<Rightarrow> nat \<Rightarrow> nat \<Rightarrow> receive_step result" where
  "receive_datagram config st content source now reading =
     (if maximum_datagram_bytes config < length content then Panic
      else
      case decode_datagram content of
        Err _ \<Rightarrow> Ok (count_invalid st)
      | Panic \<Rightarrow> Panic
      | Ok header \<Rightarrow>
          if source \<noteq> expected_source config \<or> speed_session_id header \<noteq> receiver_session_id config
            \<or> speed_stream_id header \<noteq> receiver_stream_id config
          then Ok (count_unauthorized st)
          else if speed_flags header = UDP_FLAG_AUTH then
            and_then (slice_from content UDP_SPEED_HEADER_BYTES) (\<lambda>presented.
            if stream_authorized st \<or> speed_sequence header \<noteq> 0
              \<or> \<not> authorization_tag_matches (receiver_tag config) presented
            then Ok (count_unauthorized st)
            else Ok (Continue (st\<lparr>stream_authorized := True\<rparr>)))
          else if \<not> stream_authorized st then Ok (count_unauthorized st)
          else if speed_flags header = UDP_FLAG_END then
            (if speed_payload_length header \<noteq> 0 then Ok (count_invalid st) else Ok (Stop True st))
          else if speed_flags header \<noteq> 0 then Ok (count_invalid st)
          else and_then (measure_datagram st header (length content) now reading) (\<lambda>st. Ok (Continue st)))"

fun udp_receive_loop ::
  "'a udp_receiver_config \<Rightarrow> receiver_state \<Rightarrow> 'a receive_event list \<Rightarrow> (bool \<times> receiver_state) result option" where
  "udp_receive_loop config st [] = None"
| "udp_receive_loop config st (ReceiveTimeout # rest) =
     (if receive_started st \<noteq> None then Some (Ok (False, st))
      else Some (Err (engine_error ''UDP receiver initial timeout'' True)))"
| "udp_receive_loop config st (ReceiveError e # rest) = Some (Err (udp_io_error e))"
| "udp_receive_loop config st (Received content source now reading # rest) =
     (case receive_datagram config st content source now reading of
        Err e \<Rightarrow> Some (Err e)
      | Panic \<Rightarrow> Some Panic
      | Ok (Stop graceful st') \<Rightarrow> Some (Ok (graceful, st'))
      | Ok (Continue st') \<Rightarrow> udp_receive_loop config st' rest)"

definition receiver_finish :: "nat \<Rightarrow> bool \<Rightarrow> receiver_state \<Rightarrow> udp_receiver_result result" where
  "receiver_finish reading graceful st =
     and_then (ok_or (engine_error ''UDP receiver got END before any measurement packet'' False)
                 (receive_started st)) (\<lambda>started.
     let elapsed = max (clamp_from_nat (reading - started)) 1 in
     Ok \<lparr>receiver_rx_packets = state_rx_packets st, rx_datagram_bytes = state_rx_bytes st,
         receiver_elapsed_nanoseconds = elapsed,
         receiver_bits_per_second = udp_rate (state_rx_bytes st) elapsed,
         receiver_sequence = ring_stats (receiver_tracker st),
         receiver_jitter = jitter_nanoseconds (receiver_jitter_tracker st),
         invalid_datagrams = state_invalid st, unauthorized_datagrams = state_unauthorized st,
         graceful_end = graceful\<rparr>)"

definition new_receiver_state :: "bounded_sequence_tracker \<Rightarrow> receiver_state" where
  "new_receiver_state tracker =
     \<lparr>receiver_tracker = tracker, receiver_jitter_tracker = default_jitter_tracker,
      receive_started = None, state_rx_packets = 0, state_rx_bytes = 0, state_invalid = 0,
      state_unauthorized = 0, stream_authorized = False\<rparr>"

definition run_udp_receiver ::
  "'a udp_receiver_config \<Rightarrow> 'a receive_event list \<Rightarrow> nat \<Rightarrow> udp_receiver_result result option" where
  "run_udp_receiver config events reading =
     (case and_then (validate_receiver config) (\<lambda>_. default_bounded_tracker) of
        Err e \<Rightarrow> Some (Err e)
      | Panic \<Rightarrow> Some Panic
      | Ok tracker \<Rightarrow>
          map_option (\<lambda>r. and_then r (\<lambda>(graceful, st). receiver_finish reading graceful st))
            (udp_receive_loop config (new_receiver_state tracker) events))"

section \<open>What the sender puts on the wire\<close>

text \<open>A data datagram of the stream with a given sequence number, as the receiver decodes it.\<close>

definition data_datagram :: "udp_sender_config \<Rightarrow> nat \<Rightarrow> bytes \<Rightarrow> bool" where
  "data_datagram config i d \<longleftrightarrow>
     (\<exists>h. decode_datagram d = Ok h \<and> speed_session_id h = sender_session_id config
        \<and> speed_stream_id h = sender_stream_id config \<and> speed_sequence h = of_nat i \<and> speed_flags h = 0)
     \<and> length d = datagram_bytes config"

definition auth_datagram :: "udp_sender_config \<Rightarrow> bytes \<Rightarrow> bool" where
  "auth_datagram config d \<longleftrightarrow>
     (\<exists>h. decode_datagram d = Ok h \<and> speed_session_id h = sender_session_id config
        \<and> speed_stream_id h = sender_stream_id config \<and> speed_sequence h = 0
        \<and> speed_flags h = UDP_FLAG_AUTH)
     \<and> drop UDP_SPEED_HEADER_BYTES d = str_bytes (sender_tag config)
     \<and> length d = UDP_SPEED_HEADER_BYTES + length (sender_tag config)"

definition end_datagram :: "udp_sender_config \<Rightarrow> bytes \<Rightarrow> bool" where
  "end_datagram config d \<longleftrightarrow>
     (\<exists>h. decode_datagram d = Ok h \<and> speed_session_id h = sender_session_id config
        \<and> speed_stream_id h = sender_stream_id config \<and> speed_flags h = UDP_FLAG_END
        \<and> speed_payload_length h = 0)
     \<and> length d = UDP_SPEED_HEADER_BYTES"

definition pacer_ok :: "sender_state \<Rightarrow> bool" where
  "pacer_ok st \<longleftrightarrow> (case sender_pacer st of None \<Rightarrow> True | Some p \<Rightarrow> wire_bytes_per_packet p \<noteq> 0)"

definition sender_inv :: "udp_sender_config \<Rightarrow> sender_state \<Rightarrow> bool" where
  "sender_inv config st \<longleftrightarrow> pacer_ok st \<and> length (datagram_buffer st) = datagram_bytes config
     \<and> (\<exists>a ds. sent_trace st = a # ds \<and> auth_datagram config a
          \<and> (\<forall>i < length ds. data_datagram config i (ds ! i))
          \<and> unat (next_sequence st) = length ds
          \<and> unat (transmitted_bytes st) = length ds * datagram_bytes config)"

lemma length_speed_header_bytes: "speed_header_wf h \<Longrightarrow> length (speed_header_bytes h) = 52"
  by (simp add: speed_header_bytes_def speed_header_wf_def)

lemma send_whole_Ok: "send_whole send m trace d = Ok trace' \<Longrightarrow> trace' = trace @ [d]"
  by (auto simp: send_whole_def outcome_simps split: if_splits)

lemma send_whole_no_panic: "send_whole send m trace d \<noteq> Panic"
  by (auto simp: send_whole_def outcome_simps split: if_splits)

lemma send_auth_Ok:
  assumes "send_auth send config [] = Ok trace" "length (sender_session_id config) = 16"
  shows "\<exists>a. trace = [a] \<and> auth_datagram config a"
proof -
  obtain n :: u32 where n: "try_from_nat (length (sender_tag config)) = Some n"
    using assms(1) by (auto simp: send_auth_def outcome_simps)
  let ?h = "\<lparr>speed_session_id = sender_session_id config, speed_stream_id = sender_stream_id config,
    speed_sequence = 0, speed_flags = UDP_FLAG_AUTH, send_timestamp_nanoseconds = 0,
    speed_payload_length = n\<rparr>"
  let ?d = "speed_header_bytes ?h @ str_bytes (sender_tag config)"
  have wf: "speed_header_wf ?h" using assms(2) by (simp add: speed_header_wf_def)
  then have "trace = [?d]"
    using assms(1) n by (auto simp: send_auth_def encode_speed_header_eq dest: send_whole_Ok)
  moreover have "decode_datagram ?d = Ok ?h"
    using wf try_from_nat_SomeD [OF n] by (intro decode_datagram_bytes) auto
  ultimately show ?thesis
    using wf by (auto simp: auth_datagram_def length_speed_header_bytes UDP_SPEED_HEADER_BYTES_def)
qed

lemma sender_inv_extend:
  assumes inv: "sender_inv config st" and sid: "length (sender_session_id config) = 16"
    and dg: "52 \<le> datagram_bytes config" "datagram_bytes config \<le> 65507"
    and len: "unat payload_len = datagram_bytes config - 52" "unat wire_bytes = datagram_bytes config"
    and h: "h = \<lparr>speed_session_id = sender_session_id config, speed_stream_id = sender_stream_id config,
         speed_sequence = next_sequence st, speed_flags = 0, send_timestamp_nanoseconds = ts,
         speed_payload_length = payload_len\<rparr>"
    and d: "d = speed_header_bytes h @ drop 52 (datagram_buffer st)"
    and q: "checked_add (next_sequence st) 1 = Some q"
    and b: "checked_add (transmitted_bytes st) (ucast (wire_bytes :: u32)) = Some b"
  shows "sender_inv config (st\<lparr>tick := t, next_sequence := q, transmitted_bytes := b,
           datagram_buffer := d, sent_trace := sent_trace st @ [d]\<rparr>)"
proof -
  have wf: "speed_header_wf h" using sid h by (simp add: speed_header_wf_def)
  obtain a ds where ds: "sent_trace st = a # ds" "auth_datagram config a"
    "\<forall>i < length ds. data_datagram config i (ds ! i)" "unat (next_sequence st) = length ds"
    "unat (transmitted_bytes st) = length ds * datagram_bytes config"
    "length (datagram_buffer st) = datagram_bytes config"
    using inv by (auto simp: sender_inv_def)
  have "decode_datagram d = Ok h"
    unfolding d using wf ds(6) len h by (intro decode_datagram_bytes) auto
  moreover have lend: "length d = datagram_bytes config"
    using ds(6) wf dg by (simp add: d length_speed_header_bytes)
  moreover have "next_sequence st = of_nat (length ds)" by (simp add: ds(4) [symmetric])
  ultimately have "data_datagram config (length ds) d"
    using h by (auto simp: data_datagram_def)
  then have "\<forall>i < length (ds @ [d]). data_datagram config i ((ds @ [d]) ! i)"
    using ds(3) by (auto simp: nth_append less_Suc_eq)
  moreover have "unat q = length (ds @ [d])"
    using conjunct1 [OF checked_add_SomeD [OF q]] ds(4) by simp
  moreover have "unat b = length (ds @ [d]) * datagram_bytes config"
    using conjunct1 [OF checked_add_SomeD [OF b]] ds(5) len(2) by (simp add: unat_ucast_u32)
  ultimately show ?thesis using inv ds lend by (auto simp: sender_inv_def pacer_ok_def)
qed

lemma copy_header:
  "length buf = n \<Longrightarrow> 52 \<le> n \<Longrightarrow> length hdr = 52 \<Longrightarrow>
     copy_from_slice buf 0 UDP_SPEED_HEADER_BYTES hdr = Ok (hdr @ drop 52 buf)"
  by (simp add: UDP_SPEED_HEADER_BYTES_def patch_def)

text \<open>The configuration facts a running sender relies on.\<close>

definition sender_env :: "udp_sender_config \<Rightarrow> u32 \<Rightarrow> u32 \<Rightarrow> bool" where
  "sender_env config payload_len wire_bytes \<longleftrightarrow> length (sender_session_id config) = 16
     \<and> 52 \<le> datagram_bytes config \<and> datagram_bytes config \<le> 65507
     \<and> unat payload_len = datagram_bytes config - 52 \<and> unat wire_bytes = datagram_bytes config"

lemma send_burst_inv:
  assumes env: "sender_env config payload_len wire_bytes"
  shows "sender_inv config st \<Longrightarrow>
     (case send_burst clock send config deadline payload_len wire_bytes n sent st of
        Ok (sent', st') \<Rightarrow> sender_inv config st' \<and> tick st \<le> tick st'
      | Err _ \<Rightarrow> True | Panic \<Rightarrow> False)"
proof (induction n arbitrary: sent st)
  case 0
  then show ?case by simp
next
  case (Suc n)
  show ?case
  proof (cases "deadline \<le> clock (tick st)")
    case True
    then show ?thesis using Suc.prems by (auto simp: sender_inv_def pacer_ok_def)
  next
    case False
    define h where "h = \<lparr>speed_session_id = sender_session_id config,
      speed_stream_id = sender_stream_id config, speed_sequence = next_sequence st, speed_flags = 0,
      send_timestamp_nanoseconds = clamp_from_nat (clock (Suc (tick st))), speed_payload_length = payload_len\<rparr>"
    define d where "d = speed_header_bytes h @ drop 52 (datagram_buffer st)"
    have wf: "speed_header_wf h" using env by (simp add: h_def speed_header_wf_def sender_env_def)
    have copied: "(copy_from_slice (datagram_buffer st) 0 UDP_SPEED_HEADER_BYTES (speed_header_bytes h) :: bytes result) = Ok d"
      unfolding d_def using Suc.prems env wf
      by (intro copy_header [of _ "datagram_bytes config"])
        (auto simp: sender_inv_def sender_env_def length_speed_header_bytes)
    have step: "sender_inv config (st\<lparr>tick := tick st + 2, next_sequence := q, transmitted_bytes := b,
        datagram_buffer := d, sent_trace := sent_trace st @ [d]\<rparr>)"
      if "checked_add (next_sequence st) 1 = Some q" "checked_add (transmitted_bytes st) (ucast wire_bytes) = Some b"
      for q b
      using env sender_inv_extend [OF Suc.prems, of payload_len wire_bytes h "clamp_from_nat (clock (Suc (tick st)))" d q b]
        that by (auto simp: sender_env_def h_def d_def)
    show ?thesis
    proof (cases "send_whole send ''UDP socket reported a partial datagram send'' (sent_trace st) d")
      case (Ok trace)
      then have "trace = sent_trace st @ [d]" by (rule send_whole_Ok)
      then show ?thesis
        using False Ok wf copied step Suc.IH
        by (cases "checked_add (next_sequence st) 1"; cases "checked_add (transmitted_bytes st) (ucast wire_bytes)")
          (fastforce simp: h_def [symmetric] encode_speed_header_eq split: outcome.splits prod.splits)+
    next
      case (Err e)
      then show ?thesis using False wf copied by (simp add: h_def [symmetric] encode_speed_header_eq)
    next
      case Panic
      then show ?thesis by (simp only: send_whole_no_panic)
    qed
  qed
qed

lemma sender_inv_tick [simp]: "sender_inv config (st\<lparr>tick := t\<rparr>) \<longleftrightarrow> sender_inv config st"
  by (simp add: sender_inv_def pacer_ok_def)

lemma commit_burst_inv:
  "sender_inv config st \<Longrightarrow> commit_burst sent st = Ok st' \<Longrightarrow> sender_inv config st' \<and> tick st' = tick st"
  by (auto simp: commit_burst_def sender_inv_def pacer_ok_def outcome_simps
      dest: record_sent_Ok split: option.splits)

lemma commit_burst_no_panic: "commit_burst sent st \<noteq> Panic"
  by (auto simp: commit_burst_def record_sent_def outcome_simps split: option.splits)

lemma burst_budget_Ok: "pacer_ok st \<Longrightarrow> \<exists>n. burst_budget config st elapsed = Ok n"
  using available_packets_eq by (fastforce simp: burst_budget_def pacer_ok_def split: option.splits)

lemma sender_iteration_inv:
  assumes env: "sender_env config payload_len wire_bytes" and inv: "sender_inv config st"
  shows "sender_iteration clock send config deadline payload_len wire_bytes st \<noteq> Panic"
    and "sender_iteration clock send config deadline payload_len wire_bytes st = Ok st' \<Longrightarrow>
      sender_inv config st' \<and> tick st < tick st'"
proof -
  let ?st = "st\<lparr>tick := tick st + 1\<rparr>"
  have inv': "sender_inv config ?st" using inv by simp
  then have "pacer_ok ?st" by (simp add: sender_inv_def)
  then obtain n where n: "burst_budget config ?st (clamp_from_nat (clock (tick st))) = Ok n"
    using burst_budget_Ok by blast
  note burst = send_burst_inv [OF env inv', of clock send deadline "unat n" 0]
  show "sender_iteration clock send config deadline payload_len wire_bytes st \<noteq> Panic"
    using n burst commit_burst_no_panic
    by (cases "send_burst clock send config deadline payload_len wire_bytes (unat n) 0 ?st")
      (auto simp: sender_iteration_def Let_def)
  show "sender_inv config st' \<and> tick st < tick st'"
    if it: "sender_iteration clock send config deadline payload_len wire_bytes st = Ok st'"
  proof (cases "n = 0")
    case True
    then have "st' = ?st" using it n by (simp add: sender_iteration_def Let_def)
    then show ?thesis using inv' by simp
  next
    case False
    then obtain sent1 st1 where "send_burst clock send config deadline payload_len wire_bytes (unat n) 0 ?st
        = Ok (sent1, st1)" and commit: "commit_burst sent1 st1 = Ok st'"
      using it n by (auto simp: sender_iteration_def Let_def outcome_simps)
    then have "sender_inv config st1" "tick ?st \<le> tick st1" using burst by simp_all
    then show ?thesis using commit_burst_inv [OF _ commit] by auto
  qed
qed

lemma sender_loop_returns:
  assumes env: "sender_env config payload_len wire_bytes" and clock: "\<forall>j \<ge> k. deadline \<le> clock j"
  shows "sender_inv config st \<Longrightarrow>
    \<exists>r. sender_loop clock send config deadline payload_len wire_bytes st = Some r \<and> r \<noteq> Panic
      \<and> (\<forall>st'. r = Ok st' \<longrightarrow> sender_inv config st')"
proof (induction "k - tick st" arbitrary: st rule: less_induct)
  case less
  show ?case
  proof (cases "clock (tick st) < deadline")
    case False
    then show ?thesis using less.prems by (subst sender_loop.simps) simp
  next
    case True
    then have running: "tick st < k" using clock by (meson not_less)
    let ?st = "st\<lparr>tick := tick st + 1\<rparr>"
    note iter = sender_iteration_inv [OF env, of ?st clock send deadline]
    show ?thesis
    proof (cases "sender_iteration clock send config deadline payload_len wire_bytes ?st")
      case (Ok st')
      then have st': "sender_inv config st'" "tick st < tick st'" using iter(2) less.prems by fastforce+
      have "\<exists>r. sender_loop clock send config deadline payload_len wire_bytes st' = Some r \<and> r \<noteq> Panic
          \<and> (\<forall>st'. r = Ok st' \<longrightarrow> sender_inv config st')"
        using st' running by (intro less.hyps) auto
      then show ?thesis using True Ok by (subst sender_loop.simps) simp
    next
      case (Err e)
      then show ?thesis using True by (subst sender_loop.simps) simp
    next
      case Panic
      then show ?thesis using iter(1) less.prems by simp
    qed
  qed
qed

lemma sender_start_Ok:
  assumes "sender_start send config = Ok (payload_len, wire_bytes, st)" "length (sender_session_id config) = 16"
  shows "sender_env config payload_len wire_bytes \<and> sender_inv config st"
proof -
  obtain trace pacer where parts: "validate_sender config = Ok ()" "send_auth send config [] = Ok trace"
    "try_from_nat (datagram_bytes config - UDP_SPEED_HEADER_BYTES) = Some payload_len"
    "try_from_nat (datagram_bytes config) = Some wire_bytes"
    "(case sender_target_rate config of None \<Rightarrow> Ok None
      | Some bits \<Rightarrow> and_then (new_batch_pacer bits wire_bytes) (\<lambda>p. Ok (Some p))) = Ok pacer"
    "st = \<lparr>tick = 0, sender_pacer = pacer, next_sequence = 0, transmitted_bytes = 0,
          datagram_buffer = replicate (datagram_bytes config) 0xA5, sent_trace = trace\<rparr>"
    using assms(1) by (auto simp: sender_start_def outcome_simps)
  have "52 \<le> datagram_bytes config \<and> datagram_bytes config \<le> 65507"
    using parts(1) by (auto simp: validate_sender_def UDP_SPEED_HEADER_BYTES_def MAX_UDP_DATAGRAM_BYTES_def
        split: if_splits)
  moreover have "unat payload_len = datagram_bytes config - 52" "unat wire_bytes = datagram_bytes config"
    using try_from_nat_SomeD [OF parts(3)] try_from_nat_SomeD [OF parts(4)]
    by (simp_all add: UDP_SPEED_HEADER_BYTES_def)
  moreover have "pacer_ok st"
    using parts(5,6) by (auto simp: pacer_ok_def new_batch_pacer_def outcome_simps split: option.splits if_splits)
  ultimately show ?thesis
    using send_auth_Ok [OF parts(2) assms(2)] assms(2) parts(6) by (auto simp: sender_env_def sender_inv_def)
qed

lemma sender_start_no_panic:
  assumes "length (sender_session_id config) = 16"
  shows "sender_start send config \<noteq> Panic"
  using assms send_whole_no_panic
  by (auto simp: sender_start_def outcome_simps validate_sender_def validate_authorization_tag_def
      send_auth_def encode_speed_header_eq speed_header_wf_def new_batch_pacer_def split: option.splits if_splits)

lemma sender_finish_Ok:
  assumes inv: "sender_inv config st" and sid: "length (sender_session_id config) = 16"
    and fin: "sender_finish clock send config st = Ok (res, trace)"
  shows "\<exists>a ds e. trace = a # ds @ [e] \<and> auth_datagram config a \<and> end_datagram config e
    \<and> (\<forall>i < length ds. data_datagram config i (ds ! i)) \<and> unat (sender_tx_packets res) = length ds
    \<and> unat (tx_datagram_bytes res) = length ds * datagram_bytes config"
proof -
  let ?h = "\<lparr>speed_session_id = sender_session_id config, speed_stream_id = sender_stream_id config,
    speed_sequence = next_sequence st, speed_flags = UDP_FLAG_END,
    send_timestamp_nanoseconds = max (clamp_from_nat (clock (tick st))) 1, speed_payload_length = 0\<rparr>"
  have wf: "speed_header_wf ?h" using sid by (simp add: speed_header_wf_def)
  have res: "sender_tx_packets res = next_sequence st \<and> tx_datagram_bytes res = transmitted_bytes st
      \<and> trace = sent_trace st @ [speed_header_bytes ?h]"
    using fin wf by (auto simp: sender_finish_def send_end_def Let_def outcome_simps encode_speed_header_eq
        dest: send_whole_Ok)
  have "decode_datagram (speed_header_bytes ?h) = Ok ?h"
    using decode_datagram_bytes [OF wf, of "[]"] by simp
  then have "end_datagram config (speed_header_bytes ?h)"
    using wf by (auto simp: end_datagram_def length_speed_header_bytes UDP_SPEED_HEADER_BYTES_def)
  then show ?thesis using inv res by (fastforce simp: sender_inv_def)
qed

lemma run_udp_sender_returns:
  assumes "length (sender_session_id config) = 16"
    and "\<forall>j \<ge> k. unat (measurement_milliseconds config) * 1000000 \<le> clock j"
  shows "\<exists>r. run_udp_sender clock send config = Some r \<and> r \<noteq> Panic
    \<and> (\<forall>res trace. r = Ok (res, trace) \<longrightarrow>
        (\<exists>a ds e. trace = a # ds @ [e] \<and> auth_datagram config a \<and> end_datagram config e
          \<and> (\<forall>i < length ds. data_datagram config i (ds ! i)) \<and> unat (sender_tx_packets res) = length ds
          \<and> unat (tx_datagram_bytes res) = length ds * datagram_bytes config))"
proof (cases "sender_start send config")
  case (Ok start)
  obtain payload_len wire_bytes st where start: "start = (payload_len, wire_bytes, st)" by (cases start)
  then have "sender_env config payload_len wire_bytes" "sender_inv config st"
    using sender_start_Ok Ok assms(1) by blast+
  then obtain r where r: "sender_loop clock send config (unat (measurement_milliseconds config) * 1000000)
      payload_len wire_bytes st = Some r" "r \<noteq> Panic" "\<forall>st'. r = Ok st' \<longrightarrow> sender_inv config st'"
    using sender_loop_returns [OF _ assms(2)] by blast
  have "sender_finish clock send config st' \<noteq> Panic" for st'
    using assms(1) send_whole_no_panic
    by (auto simp: sender_finish_def send_end_def Let_def outcome_simps encode_speed_header_eq speed_header_wf_def)
  then show ?thesis
    using Ok start r sender_finish_Ok [OF _ assms(1)]
    by (cases r) (auto simp: run_udp_sender_def)
next
  case (Err e)
  then show ?thesis by (simp add: run_udp_sender_def)
next
  case Panic
  then show ?thesis using sender_start_no_panic [OF assms(1)] by simp
qed

section \<open>What the receiver makes of it\<close>

definition config_match :: "udp_sender_config \<Rightarrow> 'a udp_receiver_config \<Rightarrow> bool" where
  "config_match sc rc \<longleftrightarrow>
     receiver_session_id rc = sender_session_id sc \<and> receiver_stream_id rc = sender_stream_id sc
     \<and> receiver_tag rc = sender_tag sc \<and> datagram_bytes sc \<le> maximum_datagram_bytes rc
     \<and> UDP_SPEED_HEADER_BYTES + length (sender_tag sc) \<le> maximum_datagram_bytes rc"

text \<open>The events of a network that delivers a list of datagrams in order, at any times.\<close>

fun delivered :: "'a \<Rightarrow> bytes list \<Rightarrow> 'a receive_event list \<Rightarrow> bool" where
  "delivered src [] [] \<longleftrightarrow> True"
| "delivered src (d # ds) (Received content source now reading # es) \<longleftrightarrow>
     content = d \<and> source = src \<and> delivered src ds es"
| "delivered src _ _ \<longleftrightarrow> False"

lemma delivered_Cons:
  "delivered src (d # ds) es \<longleftrightarrow> (\<exists>now reading es'. es = Received d src now reading # es' \<and> delivered src ds es')"
  by (cases "(src, d # ds, es)" rule: delivered.cases) auto

lemma delivered_append:
  "delivered src (xs @ ys) es \<Longrightarrow> \<exists>es1 es2. es = es1 @ es2 \<and> delivered src xs es1 \<and> delivered src ys es2"
proof (induction xs arbitrary: es)
  case Nil
  then show ?case by (intro exI [of _ "[]"] exI [of _ es]) simp
next
  case (Cons x xs)
  obtain now reading es' where es: "es = Received x src now reading # es'" "delivered src (xs @ ys) es'"
    using Cons.prems by (auto simp: delivered_Cons)
  obtain es1 es2 where "es' = es1 @ es2" "delivered src xs es1" "delivered src ys es2"
    using Cons.IH [OF es(2)] by blast
  then show ?case using es(1) by (intro exI [of _ "Received x src now reading # es1"] exI [of _ es2]) simp
qed

abbreviation sequential :: "nat \<Rightarrow> u64 list" where
  "sequential n \<equiv> rev (map of_nat [0..<n])"

lemma sequential_Suc: "sequential (Suc n) = of_nat n # sequential n"
  by simp

lemma sequential_stats:
  assumes "n \<le> 2 ^ 64"
  shows "history_highest (sequential n) = (if n = 0 then None else Some (of_nat (n - 1)))
    \<and> set (sequential n) = of_nat ` {0..<n} \<and> history_late (sequential n) = 0
    \<and> history_repeated (sequential n) = 0 \<and> card (set (sequential n)) = n"
  using assms
proof (induction n)
  case 0
  then show ?case by simp
next
  case (Suc n)
  have inj: "of_nat i = (of_nat j :: u64) \<longleftrightarrow> i = j" if "i < 2 ^ 64" "j < 2 ^ 64" for i j
    using that by (simp add: word_of_nat_eq_iff take_bit_nat_eq_self)
  have le: "of_nat i \<le> (of_nat j :: u64) \<longleftrightarrow> i \<le> j" if "i < 2 ^ 64" "j < 2 ^ 64" for i j
    using that by (simp add: word_le_nat_alt unat_of_nat)
  have fresh: "of_nat n \<notin> set (sequential n)"
    using Suc inj by (auto simp: image_iff)
  have top: "(case history_highest (sequential n) of None \<Rightarrow> of_nat n | Some p \<Rightarrow> max p (of_nat n)) = (of_nat n :: u64)"
  proof (cases "n = 0")
    case False
    have "(of_nat (n - 1) :: u64) \<le> of_nat n" using Suc.prems by (subst le) linarith+
    moreover have "history_highest (sequential n) = Some (of_nat (n - 1))"
      using Suc False by (simp del: of_nat_diff)
    ultimately show ?thesis by (simp only: option.case max_absorb2)
  qed simp
  have "\<not> list_ex (\<lambda>r. of_nat n < r) (sequential n)"
    using Suc le by (auto simp: list_ex_iff not_less image_iff)
  then show ?case
    using Suc fresh top by (simp add: sequential_Suc atLeast0_lessThan_Suc del: upt_Suc)
qed

lemma default_bounded_tracker_Ok:
  "\<exists>t. default_bounded_tracker = Ok t \<and> new_bounded_tracker UDP_SEQUENCE_WINDOW_SIZE = Ok t"
proof -
  have "is_power_of_two 65536" unfolding is_power_of_two_iff by (rule exI [of _ 16]) simp
  then show ?thesis
    by (simp add: default_bounded_tracker_def new_bounded_tracker_def UDP_SEQUENCE_WINDOW_SIZE_def)
qed

text \<open>The receiver after n in-order data datagrams of the stream.\<close>

definition received_in_order :: "udp_sender_config \<Rightarrow> nat \<Rightarrow> receiver_state \<Rightarrow> bool" where
  "received_in_order sc n st \<longleftrightarrow> stream_authorized st
     \<and> bounded_represents UDP_SEQUENCE_WINDOW_SIZE (receiver_tracker st) (sequential n)
     \<and> unat (state_rx_packets st) = n \<and> unat (state_rx_bytes st) = n * datagram_bytes sc
     \<and> state_invalid st = 0 \<and> state_unauthorized st = 0 \<and> (receive_started st \<noteq> None \<longleftrightarrow> 0 < n)"

lemma observe_next:
  assumes "bounded_represents w t (sequential n)" "n < 2 ^ 64"
  shows "\<exists>t'. observe_bounded t (of_nat n) = Ok t' \<and> bounded_represents w t' (sequential (Suc n))"
proof -
  have "0 < w" using assms(1) by (auto simp: bounded_represents_def)
  have "unat (of_nat (n - 1) :: u64) \<le> unat (of_nat n :: u64)"
    using assms(2) by (simp add: unat_of_nat del: of_nat_diff)
  then have "inside_window w (sequential n) (of_nat n)"
    using sequential_stats [of n] assms(2) \<open>0 < w\<close> by (auto simp: inside_window_def simp del: of_nat_diff)
  then show ?thesis
    unfolding sequential_Suc using bounded_tracker.represents_observe [OF assms(1)] by blast
qed

lemma receive_next:
  assumes m: "config_match sc rc" and d: "data_datagram sc n d" and st: "received_in_order sc n st"
    and fits: "Suc n * datagram_bytes sc < 2 ^ 64" "0 < datagram_bytes sc"
  shows "\<exists>st'. receive_datagram rc st d (expected_source rc) now reading = Ok (Continue st')
    \<and> received_in_order sc (Suc n) st'"
proof -
  have "Suc n \<le> Suc n * datagram_bytes sc" using fits(2) by (cases "datagram_bytes sc") auto
  then have n: "Suc n < 2 ^ 64" using fits(1) by linarith
  obtain h where h: "decode_datagram d = Ok h" "speed_session_id h = sender_session_id sc"
    "speed_stream_id h = sender_stream_id sc" "speed_sequence h = of_nat n" "speed_flags h = 0"
    "length d = datagram_bytes sc"
    using d by (auto simp: data_datagram_def)
  obtain t where t: "observe_bounded (receiver_tracker st) (of_nat n) = Ok t"
    "bounded_represents UDP_SEQUENCE_WINDOW_SIZE t (sequential (Suc n))"
    using observe_next [of _ "receiver_tracker st" n] st n by (auto simp: received_in_order_def)
  let ?started = "case receive_started st of None \<Rightarrow> now | Some u \<Rightarrow> u"
  let ?st = "st\<lparr>receiver_tracker := t, receiver_jitter_tracker := observe_jitter (receiver_jitter_tracker st)
      (send_timestamp_nanoseconds h) (clamp_from_nat (reading - ?started)), receive_started := Some ?started,
    state_rx_packets := sat_add (state_rx_packets st) 1,
    state_rx_bytes := sat_add (state_rx_bytes st) (clamp_from_nat (datagram_bytes sc))\<rparr>"
  have "receive_datagram rc st d (expected_source rc) now reading = Ok (Continue ?st)"
    using h m st t(1)
    by (simp add: receive_datagram_def config_match_def received_in_order_def UDP_FLAG_AUTH_def UDP_FLAG_END_def
        measure_datagram_def Let_def)
  moreover have "received_in_order sc (Suc n) ?st"
    using st t(2) fits n
    by (simp add: received_in_order_def unat_sat_add unat_clamp_from_nat)
  ultimately show ?thesis by blast
qed

lemma receive_data_loop:
  assumes m: "config_match sc rc" and dg: "0 < datagram_bytes sc"
  shows "delivered (expected_source rc) ds es \<Longrightarrow> \<forall>i < length ds. data_datagram sc (n + i) (ds ! i) \<Longrightarrow>
    received_in_order sc n st \<Longrightarrow> (n + length ds) * datagram_bytes sc < 2 ^ 64 \<Longrightarrow>
    \<exists>st'. udp_receive_loop rc st (es @ rest) = udp_receive_loop rc st' rest \<and> received_in_order sc (n + length ds) st'"
proof (induction ds arbitrary: n st es)
  case Nil
  then show ?case by (cases es) auto
next
  case (Cons d ds)
  obtain now reading es' where es: "es = Received d (expected_source rc) now reading # es'"
    "delivered (expected_source rc) ds es'" using Cons.prems(1) by (auto simp: delivered_Cons)
  have d: "data_datagram sc n d" using Cons.prems(2) by force
  have "Suc n * datagram_bytes sc \<le> (n + length (d # ds)) * datagram_bytes sc"
    by (intro mult_le_mono1) simp
  then have fits: "Suc n * datagram_bytes sc < 2 ^ 64" using Cons.prems(4) by (rule le_less_trans)
  obtain st1 where st1: "receive_datagram rc st d (expected_source rc) now reading = Ok (Continue st1)"
    "received_in_order sc (Suc n) st1"
    using receive_next [OF m d Cons.prems(3) fits dg] by blast
  have "\<forall>i < length ds. data_datagram sc (Suc n + i) (ds ! i)"
    using Cons.prems(2) by fastforce
  then show ?case
    using Cons.IH [OF es(2) _ st1(2)] Cons.prems(4) es(1) st1(1) by simp
qed

lemma receive_auth:
  assumes "config_match sc rc" "auth_datagram sc a"
  shows "receive_datagram rc (new_receiver_state t) a (expected_source rc) now reading
    = Ok (Continue ((new_receiver_state t)\<lparr>stream_authorized := True\<rparr>))"
proof -
  obtain h where "decode_datagram a = Ok h" "speed_session_id h = sender_session_id sc"
    "speed_stream_id h = sender_stream_id sc" "speed_sequence h = 0" "speed_flags h = UDP_FLAG_AUTH"
    "drop UDP_SPEED_HEADER_BYTES a = str_bytes (sender_tag sc)"
    "length a = UDP_SPEED_HEADER_BYTES + length (sender_tag sc)"
    using assms(2) by (auto simp: auth_datagram_def)
  then show ?thesis
    using assms(1)
    by (simp add: receive_datagram_def config_match_def authorization_tag_matches_iff new_receiver_state_def)
qed

lemma receive_end:
  assumes "config_match sc rc" "end_datagram sc e" "stream_authorized st"
  shows "receive_datagram rc st e (expected_source rc) now reading = Ok (Stop True st)"
proof -
  obtain h where "decode_datagram e = Ok h" "speed_session_id h = sender_session_id sc"
    "speed_stream_id h = sender_stream_id sc" "speed_flags h = UDP_FLAG_END" "speed_payload_length h = 0"
    "length e = UDP_SPEED_HEADER_BYTES"
    using assms(2) by (auto simp: end_datagram_def)
  then show ?thesis
    using assms(1,3)
    by (simp add: receive_datagram_def config_match_def UDP_FLAG_END_def UDP_FLAG_AUTH_def)
qed

section \<open>The properties of the engine\<close>

text \<open>
  C19.  The UDP sender terminates and produces a well-formed stream: once the clock stays past the
  measurement deadline the sender returns, without a panic, whatever the socket answers.  When it
  succeeds, the datagrams it sent are one AUTH datagram carrying the authorization tag, data datagrams
  of the configured size numbered 0, 1, 2, ... without gaps, and one END datagram, and the packet and
  byte counters it reports are the number and the size of the data datagrams.
\<close>

theorem udp_sender_returns:
  assumes "length (sender_session_id config) = 16"
    and "\<forall>j \<ge> k. unat (measurement_milliseconds config) * 1000000 \<le> clock j"
  shows "\<exists>r. run_udp_sender clock send config = Some r \<and> r \<noteq> Panic
    \<and> (\<forall>res trace. r = Ok (res, trace) \<longrightarrow>
        (\<exists>a ds e. trace = a # ds @ [e] \<and> auth_datagram config a \<and> end_datagram config e
          \<and> (\<forall>i < length ds. data_datagram config i (ds ! i)) \<and> unat (sender_tx_packets res) = length ds
          \<and> unat (tx_datagram_bytes res) = length ds * datagram_bytes config))"
  by (rule run_udp_sender_returns [OF assms])

definition sample_sender :: udp_sender_config where
  "sample_sender = \<lparr>sender_session_id = replicate 16 9, sender_stream_id = 3, datagram_bytes = 52,
     measurement_milliseconds = 100, sender_target_rate = None, maximum_packets_per_burst = 1,
     sender_tag = ''aaaaaaaaaaaaaaaa''\<rparr>"

definition sample_clock :: "nat \<Rightarrow> nat" where
  "sample_clock n = (if n < 4 then n else 100000000)"

definition ideal_socket :: udp_send where
  "ideal_socket k d = Inr (length d)"

lemma sample_tag_valid: "validate_authorization_tag ''aaaaaaaaaaaaaaaa'' = Ok ()"
  by code_simp

lemma ideal_send: "send_whole ideal_socket m trace d = Ok (trace @ [d])"
  by (simp add: send_whole_def ideal_socket_def)

lemma sample_sender_run:
  "\<exists>res trace. run_udp_sender sample_clock ideal_socket sample_sender = Some (Ok (res, trace))
    \<and> sender_tx_packets res = 1"
proof -
  note defs = sample_sender_def sample_clock_def encode_speed_header_eq speed_header_wf_def ideal_send
    UDP_SPEED_HEADER_BYTES_def
  have v: "validate_sender sample_sender = Ok ()"
    by (simp add: validate_sender_def sample_sender_def UDP_SPEED_HEADER_BYTES_def MAX_UDP_DATAGRAM_BYTES_def
        sample_tag_valid)
  obtain st where st: "sender_start ideal_socket sample_sender = Ok (0, 52, st)" "tick st = 0"
    "sender_pacer st = None" "next_sequence st = 0" "transmitted_bytes st = 0" "length (datagram_buffer st) = 52"
    using v by (simp add: sender_start_def send_auth_def defs try_from_nat_def)
  obtain st1 where st1: "sender_iteration sample_clock ideal_socket sample_sender 100000000 0 52 (st\<lparr>tick := 1\<rparr>) = Ok st1"
    "tick st1 = 4" "next_sequence st1 = 1"
    using st by (simp add: sender_iteration_def burst_budget_def commit_burst_def defs Let_def checked_add_def
        length_speed_header_bytes)
  have "sender_loop sample_clock ideal_socket sample_sender 100000000 0 52 st1 = Some (Ok (st1\<lparr>tick := 5\<rparr>))"
    using st1 by (subst sender_loop.simps) (simp add: sample_clock_def)
  then have "sender_loop sample_clock ideal_socket sample_sender 100000000 0 52 st = Some (Ok (st1\<lparr>tick := 5\<rparr>))"
    using st st1 by (subst sender_loop.simps) (simp add: sample_clock_def)
  then show ?thesis
    using st(1) st1(3)
    by (simp add: run_udp_sender_def sender_finish_def send_end_def defs Let_def)
qed

theorem udp_sender_returns_witness:
  "\<exists>res a d e. run_udp_sender sample_clock ideal_socket sample_sender = Some (Ok (res, [a, d, e]))
    \<and> auth_datagram sample_sender a \<and> data_datagram sample_sender 0 d \<and> end_datagram sample_sender e"
proof -
  obtain res trace where run: "run_udp_sender sample_clock ideal_socket sample_sender = Some (Ok (res, trace))"
    "sender_tx_packets res = 1" using sample_sender_run by blast
  have "length (sender_session_id sample_sender) = 16" by (simp add: sample_sender_def)
  moreover have "\<forall>j \<ge> 4. unat (measurement_milliseconds sample_sender) * 1000000 \<le> sample_clock j"
    by (simp add: sample_sender_def sample_clock_def)
  ultimately have "\<exists>a ds e. trace = a # ds @ [e] \<and> auth_datagram sample_sender a
      \<and> end_datagram sample_sender e \<and> (\<forall>i < length ds. data_datagram sample_sender i (ds ! i))
      \<and> unat (sender_tx_packets res) = length ds"
    using udp_sender_returns [of sample_sender 4 sample_clock ideal_socket] run(1) by auto
  then obtain a ds e where t: "trace = a # ds @ [e]" "auth_datagram sample_sender a"
    "end_datagram sample_sender e" "\<forall>i < length ds. data_datagram sample_sender i (ds ! i)"
    "unat (sender_tx_packets res) = length ds"
    by blast
  have "length ds = 1" using t(5) run(2) by simp
  then obtain d where "ds = [d]" by (cases ds) auto
  then show ?thesis using run(1) t by auto
qed

lemma sequential_history_stats:
  assumes "0 < n" "n < 2 ^ 64"
  shows "history_stats (sequential n) = \<lparr>received = of_nat n, lost = 0, out_of_order = 0, duplicate = 0,
    highest_sequence = Some (of_nat (n - 1))\<rparr>"
proof -
  have "unat (of_nat (n - 1) :: u64) = n - 1" using assms by (simp add: unat_of_nat del: of_nat_diff)
  then have "history_missing (sequential n) = 0"
    using sequential_stats [of n] assms by (simp add: history_missing_def del: of_nat_diff)
  then show ?thesis
    using sequential_stats [of n] assms by (simp add: history_stats_def clamp_from_nat_def del: of_nat_diff)
qed

lemma new_receiver_in_order:
  assumes "new_bounded_tracker UDP_SEQUENCE_WINDOW_SIZE = Ok t"
  shows "received_in_order sc 0 ((new_receiver_state t)\<lparr>stream_authorized := True\<rparr>)"
  using bounded_tracker.represents_initial [OF assms]
  by (simp add: received_in_order_def new_receiver_state_def)

lemma receive_whole_stream:
  assumes m: "config_match sc rc" and dg: "0 < datagram_bytes sc"
    and a: "auth_datagram sc a" and e: "end_datagram sc e"
    and ds: "\<forall>i < length ds. data_datagram sc i (ds ! i)" "length ds * datagram_bytes sc < 2 ^ 64"
    and es: "delivered (expected_source rc) (a # ds @ [e]) es"
    and t: "new_bounded_tracker UDP_SEQUENCE_WINDOW_SIZE = Ok t"
  shows "\<exists>st. udp_receive_loop rc (new_receiver_state t) es = Some (Ok (True, st))
    \<and> received_in_order sc (length ds) st"
proof -
  obtain now reading es' where es': "es = Received a (expected_source rc) now reading # es'"
    "delivered (expected_source rc) (ds @ [e]) es'"
    using es by (auto simp: delivered_Cons)
  obtain es1 es2 where es2: "es' = es1 @ es2" "delivered (expected_source rc) ds es1"
    "delivered (expected_source rc) [e] es2"
    using delivered_append [OF es'(2)] by blast
  obtain now2 reading2 es3 where last: "es2 = Received e (expected_source rc) now2 reading2 # es3"
    using es2(3) by (auto simp: delivered_Cons)
  obtain st where st: "udp_receive_loop rc ((new_receiver_state t)\<lparr>stream_authorized := True\<rparr>) (es1 @ es2)
      = udp_receive_loop rc st es2" "received_in_order sc (length ds) st"
    using receive_data_loop [OF m dg es2(2) _ new_receiver_in_order [OF t], of es2] ds by auto
  have "udp_receive_loop rc st es2 = Some (Ok (True, st))"
    using receive_end [OF m e, of st] st(2) last by (simp add: received_in_order_def)
  then show ?thesis
    using es'(1) es2(1) st receive_auth [OF m a] by auto
qed

text \<open>
  C1.  Sender and receiver agree over a network that keeps order: whenever the sender's run succeeds
  with at least one data packet and its datagrams reach a matching, validly configured receiver in the
  order sent, at whatever times, the receiver ends gracefully and reports exactly the packets and
  bytes the sender reports, all of them distinct, none lost, out of order, duplicated, invalid or
  unauthorized.
\<close>

theorem udp_stream_end_to_end:
  assumes run: "run_udp_sender clock send sc = Some (Ok (res, trace))"
    and deadline: "\<forall>j \<ge> k. unat (measurement_milliseconds sc) * 1000000 \<le> clock j"
    and sid: "length (sender_session_id sc) = 16" and data: "0 < sender_tx_packets res"
    and m: "config_match sc rc" and valid: "validate_receiver rc = Ok ()"
    and es: "delivered (expected_source rc) trace es"
  shows "\<exists>r. run_udp_receiver rc es reading = Some (Ok r) \<and> graceful_end r
    \<and> receiver_rx_packets r = sender_tx_packets res \<and> rx_datagram_bytes r = tx_datagram_bytes res
    \<and> received (receiver_sequence r) = sender_tx_packets res \<and> lost (receiver_sequence r) = 0
    \<and> out_of_order (receiver_sequence r) = 0 \<and> duplicate (receiver_sequence r) = 0
    \<and> invalid_datagrams r = 0 \<and> unauthorized_datagrams r = 0"
proof -
  obtain a ds e where s: "trace = a # ds @ [e]" "auth_datagram sc a" "end_datagram sc e"
    "\<forall>i < length ds. data_datagram sc i (ds ! i)" "unat (sender_tx_packets res) = length ds"
    "unat (tx_datagram_bytes res) = length ds * datagram_bytes sc"
    using run_udp_sender_returns [OF sid deadline, of send] run by auto
  have n: "0 < length ds" "length ds < 2 ^ 64"
    using data s(5) unsigned_less [of "sender_tx_packets res", where ?'a = nat]
    by (auto simp: word_less_nat_alt)
  have "decode_datagram (ds ! 0) \<noteq> Err x \<and> length (ds ! 0) = datagram_bytes sc" for x
    using s(4) n by (auto simp: data_datagram_def)
  moreover have "52 \<le> length (ds ! 0)"
    using s(4) n decode_datagram_Ok by (fastforce simp: data_datagram_def)
  ultimately have dg: "0 < datagram_bytes sc" by simp
  obtain t where t: "default_bounded_tracker = Ok t" "new_bounded_tracker UDP_SEQUENCE_WINDOW_SIZE = Ok t"
    using default_bounded_tracker_Ok by blast
  have "length ds * datagram_bytes sc < 2 ^ 64"
    using s(6) unsigned_less [of "tx_datagram_bytes res", where ?'a = nat] by simp
  then obtain st where st: "udp_receive_loop rc (new_receiver_state t) es = Some (Ok (True, st))"
    "received_in_order sc (length ds) st"
    using receive_whole_stream [OF m dg s(2,3,4) _ _ t(2)] es s(1) by blast
  have "ring_stats (receiver_tracker st) = history_stats (sequential (length ds))"
    using st(2) by (simp add: received_in_order_def bounded_represents_def)
  moreover have "state_rx_packets st = sender_tx_packets res" "state_rx_bytes st = tx_datagram_bytes res"
    using st(2) s(5,6) by (simp_all add: received_in_order_def word_unat_eq_iff)
  moreover have "of_nat (length ds) = sender_tx_packets res" unfolding s(5) [symmetric] by simp
  moreover obtain started where "receive_started st = Some started"
    using st(2) n by (auto simp: received_in_order_def)
  moreover have "run_udp_receiver rc es reading = Some (receiver_finish reading True st)"
    unfolding run_udp_receiver_def by (simp add: valid t(1) st(1))
  ultimately show ?thesis
    using st(2) sequential_history_stats [OF n]
    by (simp add: receiver_finish_def received_in_order_def Let_def)
qed

definition sample_receiver :: "nat udp_receiver_config" where
  "sample_receiver = \<lparr>receiver_session_id = replicate 16 9, receiver_stream_id = 3, expected_source = 7,
     maximum_datagram_bytes = 1500, idle_timeout_milliseconds = 2000,
     receiver_tag = ''aaaaaaaaaaaaaaaa''\<rparr>"

theorem udp_stream_end_to_end_witness:
  "\<exists>res a d e r. run_udp_sender sample_clock ideal_socket sample_sender = Some (Ok (res, [a, d, e]))
    \<and> run_udp_receiver sample_receiver [Received a 7 1 1, Received d 7 2 3, Received e 7 4 4] 9 = Some (Ok r)
    \<and> graceful_end r \<and> receiver_rx_packets r = 1 \<and> lost (receiver_sequence r) = 0"
proof -
  obtain res trace where run: "run_udp_sender sample_clock ideal_socket sample_sender = Some (Ok (res, trace))"
    "sender_tx_packets res = 1" using sample_sender_run by blast
  have sid: "length (sender_session_id sample_sender) = 16" by (simp add: sample_sender_def)
  have deadline: "\<forall>j \<ge> 4. unat (measurement_milliseconds sample_sender) * 1000000 \<le> sample_clock j"
    by (simp add: sample_sender_def sample_clock_def)
  obtain a ds e where t: "trace = a # ds @ [e]" "unat (sender_tx_packets res) = length ds"
    using run_udp_sender_returns [OF sid deadline, of ideal_socket] run(1) by auto
  have "length ds = 1" using t(2) run(2) by simp
  then obtain d where d: "trace = [a, d, e]" using t(1) by (cases ds) auto
  have m: "config_match sample_sender sample_receiver"
    by (simp add: config_match_def sample_sender_def sample_receiver_def UDP_SPEED_HEADER_BYTES_def)
  have v: "validate_receiver sample_receiver = Ok ()"
    by (simp add: validate_receiver_def sample_receiver_def sample_tag_valid UDP_SPEED_HEADER_BYTES_def
        MAX_UDP_DATAGRAM_BYTES_def)
  have del: "delivered (expected_source sample_receiver) trace
      [Received a 7 1 1, Received d 7 2 3, Received e 7 4 4]"
    by (simp add: d sample_receiver_def)
  have "0 < sender_tx_packets res" by (simp add: run(2))
  then obtain r where "run_udp_receiver sample_receiver [Received a 7 1 1, Received d 7 2 3, Received e 7 4 4] 9
      = Some (Ok r)" "graceful_end r" "receiver_rx_packets r = 1" "lost (receiver_sequence r) = 0"
    using udp_stream_end_to_end [OF run(1) deadline sid _ m v del, of 9] run(2) by auto
  then show ?thesis using run(1) d by blast
qed

section \<open>Limits of the engine\<close>

text \<open>
  The reported rate is exact, rounded down, while eight thousand million times the byte count fits 64
  bits, about 2.3 gigabytes.  Above that the intermediate product saturates: one second at 100 gigabits
  per second is reported as 18.4.
\<close>

lemma udp_rate_exact:
  assumes "unat transferred * 8000000000 < 2 ^ 64" "0 < elapsed"
  shows "unat (udp_rate transferred elapsed) = unat transferred * 8000000000 div unat elapsed"
proof -
  have "max elapsed 1 = elapsed" using assms(2) by (auto simp: max_def word_le_nat_alt word_less_nat_alt word_unat_eq_iff)
  then show ?thesis
    using assms(1) by (simp add: udp_rate_def unat_div unat_sat_mul min_def mult.commute)
qed

lemma udp_rate_saturates: "udp_rate 12500000000 1000000000 = 18446744073"
proof -
  have "sat_mul (sat_mul (12500000000 :: u64) 8) 1000000000 = - 1"
    by (simp add: sat_mul_def)
  then show ?thesis by (simp add: udp_rate_def)
qed

text \<open>
  The receiver's validation does not relate the buffer to the tag: with a valid configuration whose
  buffer is smaller than the header and the tag no datagram that fits ever authorizes the stream.
\<close>

lemma small_buffer_never_authorizes:
  assumes "maximum_datagram_bytes rc < UDP_SPEED_HEADER_BYTES + length (receiver_tag rc)"
    "validate_receiver rc = Ok ()"
    and "\<not> stream_authorized st" "receive_datagram rc st content source now reading = Ok (Continue st')"
  shows "\<not> stream_authorized st'"
proof -
  have "\<not> authorization_tag_matches (receiver_tag rc) (drop UDP_SPEED_HEADER_BYTES content)"
    if "length content \<le> maximum_datagram_bytes rc"
  proof
    assume "authorization_tag_matches (receiver_tag rc) (drop UDP_SPEED_HEADER_BYTES content)"
    then have "length (receiver_tag rc) = length content - UDP_SPEED_HEADER_BYTES"
      by (metis authorization_tag_matches_iff length_drop length_str_bytes)
    moreover have "receiver_tag rc \<noteq> []"
      using assms(2) by (auto simp: validate_receiver_def validate_authorization_tag_def
          MIN_AUTHORIZATION_TAG_BYTES_def split: if_splits)
    ultimately show False using that assms(1) by (cases "receiver_tag rc") auto
  qed
  then show ?thesis
    using assms(3,4)
    by (auto simp: receive_datagram_def count_invalid_def count_unauthorized_def measure_datagram_def
        outcome_simps slice_from_def split: if_splits outcome.splits)
qed

lemma small_buffer_accepted:
  "validate_receiver (sample_receiver\<lparr>maximum_datagram_bytes := 52\<rparr>) = Ok ()"
  by (simp add: validate_receiver_def sample_receiver_def sample_tag_valid UDP_SPEED_HEADER_BYTES_def
      MAX_UDP_DATAGRAM_BYTES_def)

end
