(* ===== verification/Speed_Tcp.thy ===== *)
theory Speed_Tcp
  imports Speed_Session
begin

text \<open>
  The TCP throughput engine (src/crates/speed/src/tcp.rs): the per-stream authorization handshake, the
  sender, which opens its streams, warms up and writes a fixed payload round robin until a deadline,
  and the receiver, which accepts a fixed number of streams and reads each to its end.

  The clock and the outcomes of connects and writes are functions from the number of the reading or
  call; what a peer sends is an argument of the receiver: the bytes of its handshake, how they end,
  and the results of the reads that follow.  Streams are read by concurrent workers that share nothing;
  the order in which they are joined is an argument.  A worker cannot panic, so the error of a failed
  task does not arise.
\<close>

section \<open>Configuration and results\<close>

definition TCP_AUTH_MAGIC :: bytes where
  "TCP_AUTH_MAGIC = str_bytes ''NTA1''"

definition TCP_AUTH_HEADER_BYTES :: nat where
  "TCP_AUTH_HEADER_BYTES = 26"

record tcp_run_config =
  tcp_streams :: u16
  payload_bytes :: nat
  tcp_warmup_milliseconds :: u64
  tcp_measurement_milliseconds :: u64

definition validate_tcp_run :: "tcp_run_config \<Rightarrow> unit result" where
  "validate_tcp_run self =
     (if \<not> (1 \<le> tcp_streams self \<and> tcp_streams self \<le> 128)
      then Err (speed_invalid ''TCP streams must be between 1 and 128'')
      else if \<not> (1024 \<le> payload_bytes self \<and> payload_bytes self \<le> 16 * 1024 * 1024)
      then Err (speed_invalid ''TCP payload must be between 1 KiB and 16 MiB'')
      else if \<not> (100 \<le> tcp_measurement_milliseconds self \<and> tcp_measurement_milliseconds self \<le> 86400000)
      then Err (speed_invalid ''TCP measurement must be between 100 ms and 24 hours'')
      else Ok ())"

record tcp_run_result =
  result_streams :: u16
  transferred_bytes :: u64
  tcp_elapsed_nanoseconds :: u64
  average_bits_per_second :: u64

record tcp_authorization =
  auth_session_id :: bytes
  auth_tag :: string

record authorized_tcp_sender_config =
  authorized_run :: tcp_run_config
  authorized_sender_session :: bytes
  authorized_sender_tag :: string

record authorized_tcp_receiver_config =
  expected_streams :: u16
  authorized_receiver_session :: bytes
  authorized_receiver_tag :: string

definition authorization_error :: "string \<Rightarrow> nettool_error" where
  "authorization_error m = new_error DataPlaneUnauthorized m False"

definition tcp_io_error :: "string \<Rightarrow> nettool_error" where
  "tcp_io_error e = new_error SpeedFailed (''TCP speed I/O failed: '' @ e) True"

definition tcp_result :: "u16 \<Rightarrow> u64 \<Rightarrow> nat \<Rightarrow> tcp_run_result" where
  "tcp_result streams transferred elapsed =
     (let nanos = max (clamp_from_nat elapsed) 1 in
      \<lparr>result_streams = streams, transferred_bytes = transferred, tcp_elapsed_nanoseconds = nanos,
       average_bits_per_second = sat_mul (sat_mul transferred 8) 1000000000 div nanos\<rparr>)"

section \<open>The authorization handshake\<close>

text \<open>The handshake as the bytes handed to the stream when every write succeeds; \<open>fails\<close> gives the
  error of the first, second or third call.\<close>

definition write_tcp_authorization ::
  "(nat \<Rightarrow> string option) \<Rightarrow> tcp_authorization \<Rightarrow> u32 \<Rightarrow> bytes result" where
  "write_tcp_authorization fails authorization stream =
     and_then (ok_or (authorization_error ''TCP authorization tag is too long'')
                 (try_from_nat (length (auth_tag authorization)))) (\<lambda>tag_length :: u16.
     and_then (copy_fields (replicate TCP_AUTH_HEADER_BYTES 0)
       [(0, 4, TCP_AUTH_MAGIC), (4, 20, auth_session_id authorization),
        (20, 24, to_be_bytes 4 stream), (24, 26, to_be_bytes 2 tag_length)]) (\<lambda>header.
     case fails 0 of Some e \<Rightarrow> Err (tcp_io_error e) | None \<Rightarrow>
     case fails 1 of Some e \<Rightarrow> Err (tcp_io_error e) | None \<Rightarrow>
     case fails 2 of Some e \<Rightarrow> Err (tcp_io_error e) | None \<Rightarrow>
     Ok (header @ str_bytes (auth_tag authorization))))"

text \<open>How the input of a peer ends: it closes, fails, or stays silent past the handshake timeout.\<close>

datatype input_end = InputClosed | InputFailed string | InputSilent

definition early_eof :: string where
  "early_eof = ''early eof''"

definition tcp_timeout_error :: nettool_error where
  "tcp_timeout_error = authorization_error ''TCP authorization handshake timed out''"

definition tcp_read_exact :: "nat \<Rightarrow> input_end \<Rightarrow> bytes \<Rightarrow> (bytes \<times> bytes) result" where
  "tcp_read_exact n ending input =
     (if n \<le> length input then Ok (take n input, drop n input)
      else case ending of
        InputClosed \<Rightarrow> Err (tcp_io_error early_eof)
      | InputFailed e \<Rightarrow> Err (tcp_io_error e)
      | InputSilent \<Rightarrow> Err tcp_timeout_error)"

definition read_tcp_authorization :: "tcp_authorization \<Rightarrow> input_end \<Rightarrow> bytes \<Rightarrow> u32 result" where
  "read_tcp_authorization expected ending input =
     and_then (tcp_read_exact TCP_AUTH_HEADER_BYTES ending input) (\<lambda>(header, rest).
     and_then (slice_to header 4) (\<lambda>magic. and_then (slice_range header 4 20) (\<lambda>session.
     if magic \<noteq> TCP_AUTH_MAGIC \<or> session \<noteq> auth_session_id expected
     then Err (authorization_error ''TCP authorization session or protocol header mismatch'')
     else
     and_then (slice_range header 20 24) (\<lambda>stream_bytes.
     and_then (slice_range header 24 26) (\<lambda>length_bytes.
     let tag_length = unat (from_be_bytes length_bytes :: u16) in
     if tag_length \<noteq> length (auth_tag expected)
     then Err (authorization_error ''TCP authorization tag length mismatch'')
     else
     and_then (tcp_read_exact tag_length ending rest) (\<lambda>(tag, _).
     if \<not> authorization_tag_matches (auth_tag expected) tag
     then Err (authorization_error ''TCP authorization tag mismatch'')
     else Ok (from_be_bytes stream_bytes)))))))"

section \<open>The sender\<close>

text \<open>\<open>connects\<close> gives the outcome of each connect, \<open>handshakes\<close> of the writes of each handshake,
  \<open>writes\<close> of each payload write and \<open>shutdowns\<close> of each shutdown.\<close>

record tcp_network =
  connects :: "nat \<Rightarrow> string option"
  handshakes :: "nat \<Rightarrow> nat \<Rightarrow> string option"
  writes :: "nat \<Rightarrow> string option"
  shutdowns :: "nat \<Rightarrow> string option"

definition io_outcome :: "string option \<Rightarrow> unit result" where
  "io_outcome r = (case r of None \<Rightarrow> Ok () | Some e \<Rightarrow> Err (tcp_io_error e))"

fun open_streams ::
  "tcp_network \<Rightarrow> tcp_authorization option \<Rightarrow> nat \<Rightarrow> nat \<Rightarrow> bytes list \<Rightarrow> bytes list result" where
  "open_streams net authorization i 0 opened = Ok opened"
| "open_streams net authorization i (Suc n) opened =
     and_then (io_outcome (connects net i)) (\<lambda>_.
     and_then (case authorization of
                 None \<Rightarrow> Ok []
               | Some a \<Rightarrow> write_tcp_authorization (handshakes net i) a (of_nat i)) (\<lambda>written.
     open_streams net authorization (Suc i) n (opened @ [written])))"

record tcp_sender_state =
  tcp_tick :: nat
  write_count :: nat
  sent_bytes :: u64

fun warmup_round :: "tcp_network \<Rightarrow> nat \<Rightarrow> tcp_sender_state \<Rightarrow> tcp_sender_state result" where
  "warmup_round net 0 st = Ok st"
| "warmup_round net (Suc n) st =
     and_then (io_outcome (writes net (write_count st))) (\<lambda>_.
     warmup_round net n (st\<lparr>write_count := write_count st + 1\<rparr>))"

fun measure_round :: "tcp_network \<Rightarrow> nat \<Rightarrow> nat \<Rightarrow> tcp_sender_state \<Rightarrow> tcp_sender_state result" where
  "measure_round net payload 0 st = Ok st"
| "measure_round net payload (Suc n) st =
     and_then (io_outcome (writes net (write_count st))) (\<lambda>_.
     and_then (ok_or (speed_invalid ''TCP byte counter overflow'')
                 (checked_add (sent_bytes st) (of_nat payload))) (\<lambda>b.
     measure_round net payload n (st\<lparr>write_count := write_count st + 1, sent_bytes := b\<rparr>)))"

text \<open>\<open>while Instant::now() < deadline\<close> around a round over all streams.\<close>

partial_function (option) rounds_until ::
  "(nat \<Rightarrow> nat) \<Rightarrow> nat \<Rightarrow> (tcp_sender_state \<Rightarrow> tcp_sender_state result) \<Rightarrow> tcp_sender_state
     \<Rightarrow> tcp_sender_state result option" where
  "rounds_until clock deadline round st =
     (let st' = st\<lparr>tcp_tick := tcp_tick st + 1\<rparr> in
      if clock (tcp_tick st) < deadline then
        (case round st' of
           Ok st'' \<Rightarrow> rounds_until clock deadline round st''
         | Err e \<Rightarrow> Some (Err e)
         | Panic \<Rightarrow> Some Panic)
      else Some (Ok st'))"

declare rounds_until.simps [code]

fun shutdown_streams :: "tcp_network \<Rightarrow> nat \<Rightarrow> nat \<Rightarrow> unit result" where
  "shutdown_streams net i 0 = Ok ()"
| "shutdown_streams net i (Suc n) =
     and_then (io_outcome (shutdowns net i)) (\<lambda>_. shutdown_streams net (Suc i) n)"

text \<open>The warm-up phase, the measurement phase and the end of a run.\<close>

definition warmup_phase ::
  "(nat \<Rightarrow> nat) \<Rightarrow> tcp_network \<Rightarrow> tcp_run_config \<Rightarrow> tcp_sender_state \<Rightarrow> tcp_sender_state result option" where
  "warmup_phase clock net config st =
     (let deadline = clock (tcp_tick st) + unat (tcp_warmup_milliseconds config) * 1000000;
          st = st\<lparr>tcp_tick := tcp_tick st + 1\<rparr> in
      if 0 < tcp_warmup_milliseconds config
      then rounds_until clock deadline (warmup_round net (unat (tcp_streams config))) st
      else Some (Ok st))"

definition measure_phase ::
  "(nat \<Rightarrow> nat) \<Rightarrow> tcp_network \<Rightarrow> tcp_run_config \<Rightarrow> tcp_sender_state
     \<Rightarrow> (nat \<times> tcp_sender_state) result option" where
  "measure_phase clock net config st =
     (let started = clock (tcp_tick st);
          deadline = started + unat (tcp_measurement_milliseconds config) * 1000000 in
      map_option (\<lambda>r. and_then r (\<lambda>st. Ok (started, st)))
        (rounds_until clock deadline (measure_round net (payload_bytes config) (unat (tcp_streams config)))
          (st\<lparr>tcp_tick := tcp_tick st + 1\<rparr>)))"

definition finish_run ::
  "(nat \<Rightarrow> nat) \<Rightarrow> tcp_network \<Rightarrow> tcp_run_config \<Rightarrow> nat \<times> tcp_sender_state \<Rightarrow> tcp_run_result result" where
  "finish_run clock net config = (\<lambda>(started, st).
     and_then (shutdown_streams net 0 (unat (tcp_streams config))) (\<lambda>_.
     Ok (tcp_result (tcp_streams config) (sent_bytes st) (clock (tcp_tick st) - started))))"

definition bind_run ::
  "('a result) option \<Rightarrow> ('a \<Rightarrow> ('b result) option) \<Rightarrow> ('b result) option" where
  "bind_run m f =
     (case m of None \<Rightarrow> None | Some Panic \<Rightarrow> Some Panic | Some (Err e) \<Rightarrow> Some (Err e) | Some (Ok x) \<Rightarrow> f x)"

definition run_tcp_sender_internal ::
  "(nat \<Rightarrow> nat) \<Rightarrow> tcp_network \<Rightarrow> tcp_run_config \<Rightarrow> tcp_authorization option
     \<Rightarrow> (bytes list \<times> tcp_run_result) result option" where
  "run_tcp_sender_internal clock net config authorization =
     bind_run (Some (and_then (validate_tcp_run config) (\<lambda>_.
       open_streams net authorization 0 (unat (tcp_streams config)) []))) (\<lambda>opened.
     bind_run (warmup_phase clock net config \<lparr>tcp_tick = 0, write_count = 0, sent_bytes = 0\<rparr>) (\<lambda>st.
     bind_run (measure_phase clock net config st) (\<lambda>m.
     Some (and_then (finish_run clock net config m) (\<lambda>r. Ok (opened, r))))))"

definition run_tcp_sender ::
  "(nat \<Rightarrow> nat) \<Rightarrow> tcp_network \<Rightarrow> tcp_run_config \<Rightarrow> (bytes list \<times> tcp_run_result) result option" where
  "run_tcp_sender clock net config = run_tcp_sender_internal clock net config None"

definition run_authorized_tcp_sender ::
  "(nat \<Rightarrow> nat) \<Rightarrow> tcp_network \<Rightarrow> authorized_tcp_sender_config
     \<Rightarrow> (bytes list \<times> tcp_run_result) result option" where
  "run_authorized_tcp_sender clock net config =
     bind_run (Some (validate_authorization_tag (authorized_sender_tag config))) (\<lambda>_.
     run_tcp_sender_internal clock net (authorized_run config)
       (Some \<lparr>auth_session_id = authorized_sender_session config, auth_tag = authorized_sender_tag config\<rparr>))"

section \<open>The receiver\<close>

record tcp_peer =
  peer_handshake :: bytes
  peer_input_end :: input_end
  peer_reads :: "(string + nat) list"

datatype accept_event = Accepted tcp_peer | AcceptFailed string

text \<open>A worker, over the results of its reads; \<open>None\<close> while it waits for the next.\<close>

fun read_worker :: "u64 \<Rightarrow> (string + nat) list \<Rightarrow> u64 result option" where
  "read_worker n [] = None"
| "read_worker n (Inl e # rest) = Some (Err (tcp_io_error e))"
| "read_worker n (Inr chunk # rest) =
     (if chunk = 0 then Some (Ok n)
      else case checked_add n (of_nat chunk) of
        None \<Rightarrow> Some (Err (speed_invalid ''TCP byte counter overflow''))
      | Some n' \<Rightarrow> read_worker n' rest)"

fun accept_streams ::
  "tcp_authorization option \<Rightarrow> u16 \<Rightarrow> nat \<Rightarrow> u32 set \<Rightarrow> tcp_peer list \<Rightarrow> accept_event list
     \<Rightarrow> tcp_peer list result option" where
  "accept_streams authorization expected 0 ids workers events = Some (Ok workers)"
| "accept_streams authorization expected (Suc n) ids workers [] = None"
| "accept_streams authorization expected (Suc n) ids workers (AcceptFailed e # events) =
     Some (Err (tcp_io_error e))"
| "accept_streams authorization expected (Suc n) ids workers (Accepted peer # events) =
     (case authorization of
        None \<Rightarrow> accept_streams authorization expected n ids (workers @ [peer]) events
      | Some a \<Rightarrow>
          (case read_tcp_authorization a (peer_input_end peer) (peer_handshake peer) of
             Err e \<Rightarrow> Some (Err e)
           | Panic \<Rightarrow> Some Panic
           | Ok stream \<Rightarrow>
               if ucast expected \<le> stream \<or> stream \<in> ids
               then Some (Err (authorization_error
                      ''TCP authorization stream ID is out of range or duplicated''))
               else accept_streams authorization expected n (insert stream ids) (workers @ [peer]) events))"

fun join_workers :: "u64 \<Rightarrow> u64 result option list \<Rightarrow> u64 result option" where
  "join_workers acc [] = Some (Ok acc)"
| "join_workers acc (r # rest) =
     bind_run r (\<lambda>n.
       case checked_add acc n of
         None \<Rightarrow> Some (Err (speed_invalid ''TCP byte counter overflow''))
       | Some acc' \<Rightarrow> join_workers acc' rest)"

definition run_tcp_receiver_internal ::
  "(tcp_peer list \<Rightarrow> tcp_peer list) \<Rightarrow> nat \<Rightarrow> accept_event list \<Rightarrow> u16 \<Rightarrow> tcp_authorization option
     \<Rightarrow> tcp_run_result result option" where
  "run_tcp_receiver_internal order elapsed events expected authorization =
     (if \<not> (1 \<le> expected \<and> expected \<le> 128)
      then Some (Err (speed_invalid ''expected TCP streams must be between 1 and 128''))
      else
      bind_run (accept_streams authorization expected (unat expected) {} [] events) (\<lambda>workers.
      bind_run (join_workers 0 (map (\<lambda>w. read_worker 0 (peer_reads w)) (order workers))) (\<lambda>transferred.
      Some (Ok (tcp_result expected transferred elapsed)))))"

definition run_tcp_receiver ::
  "(tcp_peer list \<Rightarrow> tcp_peer list) \<Rightarrow> nat \<Rightarrow> accept_event list \<Rightarrow> u16 \<Rightarrow> tcp_run_result result option" where
  "run_tcp_receiver order elapsed events expected =
     run_tcp_receiver_internal order elapsed events expected None"

definition run_authorized_tcp_receiver ::
  "(tcp_peer list \<Rightarrow> tcp_peer list) \<Rightarrow> nat \<Rightarrow> accept_event list \<Rightarrow> authorized_tcp_receiver_config
     \<Rightarrow> tcp_run_result result option" where
  "run_authorized_tcp_receiver order elapsed events config =
     bind_run (Some (validate_authorization_tag (authorized_receiver_tag config))) (\<lambda>_.
     run_tcp_receiver_internal order elapsed events (expected_streams config)
       (Some \<lparr>auth_session_id = authorized_receiver_session config,
              auth_tag = authorized_receiver_tag config\<rparr>))"

section \<open>The handshake is exact\<close>

definition authorization_bytes :: "tcp_authorization \<Rightarrow> u32 \<Rightarrow> bytes" where
  "authorization_bytes a stream =
     TCP_AUTH_MAGIC @ auth_session_id a @ to_be_bytes 4 stream
     @ to_be_bytes 2 (of_nat (length (auth_tag a)) :: u16) @ str_bytes (auth_tag a)"

definition authorization_wf :: "tcp_authorization \<Rightarrow> bool" where
  "authorization_wf a \<longleftrightarrow> length (auth_session_id a) = 16 \<and> length (auth_tag a) < 65536"

lemma length_TCP_AUTH_MAGIC [simp]: "length TCP_AUTH_MAGIC = 4"
  by (simp add: TCP_AUTH_MAGIC_def)

lemma write_tcp_authorization_eq:
  assumes "authorization_wf a" "\<forall>i. fails i = None"
  shows "write_tcp_authorization fails a stream = Ok (authorization_bytes a stream)"
proof -
  have n: "try_from_nat (length (auth_tag a)) = Some (of_nat (length (auth_tag a)) :: u16)"
    using assms(1) by (simp add: try_from_nat_def authorization_wf_def)
  have "copy_fields (replicate TCP_AUTH_HEADER_BYTES 0)
       [(0, 4, TCP_AUTH_MAGIC), (4, 20, auth_session_id a), (20, 24, to_be_bytes 4 stream),
        (24, 26, to_be_bytes 2 (of_nat (length (auth_tag a)) :: u16))]
     = (Ok (TCP_AUTH_MAGIC @ auth_session_id a @ to_be_bytes 4 stream
         @ to_be_bytes 2 (of_nat (length (auth_tag a)) :: u16)) :: bytes result)"
    using assms(1) by (subst copy_fields_fill) (simp_all add: TCP_AUTH_HEADER_BYTES_def authorization_wf_def)
  then show ?thesis using n assms(2) by (simp add: write_tcp_authorization_def authorization_bytes_def)
qed

lemma read_tcp_authorization_bytes:
  assumes "authorization_wf a"
  shows "read_tcp_authorization a ending (authorization_bytes a stream @ rest) = Ok stream"
proof -
  have "unat (of_nat (length (auth_tag a)) :: u16) = length (auth_tag a)"
    using assms by (simp add: unat_of_nat authorization_wf_def)
  then show ?thesis
    using assms
    by (simp add: read_tcp_authorization_def tcp_read_exact_def authorization_bytes_def authorization_wf_def
        TCP_AUTH_HEADER_BYTES_def bytes_simps authorization_tag_matches_iff Let_def)
qed

lemma read_tcp_authorization_OkD:
  assumes "read_tcp_authorization a ending input = Ok stream" "authorization_wf a"
  shows "input = authorization_bytes a stream @ drop (26 + length (auth_tag a)) input"
proof -
  let ?k = "length (auth_tag a)"
  have f: "26 + ?k \<le> length input" "take 4 input = TCP_AUTH_MAGIC" "take 16 (drop 4 input) = auth_session_id a"
    "stream = from_be_bytes (take 4 (drop 20 input))"
    "unat (from_be_bytes (take 2 (drop 24 input)) :: u16) = ?k"
    "take ?k (drop 26 input) = str_bytes (auth_tag a)"
    using assms(1)
    by (auto simp: read_tcp_authorization_def tcp_read_exact_def TCP_AUTH_HEADER_BYTES_def Let_def
        authorization_tag_matches_iff drop_take split: if_splits input_end.splits)
  have len: "to_be_bytes 2 (of_nat ?k :: u16) = take 2 (drop 24 input)"
  proof -
    have "(of_nat ?k :: u16) = from_be_bytes (take 2 (drop 24 input))" unfolding f(5) [symmetric] by simp
    then show ?thesis using f(1) by (simp add: to_be_bytes_from_be_bytes)
  qed
  have stream: "to_be_bytes 4 stream = take 4 (drop 20 input)"
    using f(1,4) by (simp add: to_be_bytes_from_be_bytes)
  have "authorization_bytes a stream @ drop (26 + ?k) input = take 4 input @ take 16 (drop 4 input)
      @ take 4 (drop 20 input) @ take 2 (drop 24 input) @ take ?k (drop 26 input) @ drop (26 + ?k) input"
    unfolding authorization_bytes_def f(2) [symmetric] f(3) [symmetric] stream len f(6) [symmetric] by simp
  also have "\<dots> = input"
    using drop_split [of 0 input 4] drop_split [of 4 input 16] drop_split [of 20 input 4]
      drop_split [of 24 input 2] drop_split [of 26 input ?k] by simp
  finally show ?thesis by simp
qed

section \<open>The receiver accepts each stream once\<close>

lemma bind_run_Ok: "bind_run m f = Some (Ok y) \<longleftrightarrow> (\<exists>x. m = Some (Ok x) \<and> f x = Some (Ok y))"
  by (auto simp: bind_run_def split: option.splits outcome.splits)

text \<open>The accepted peers, each with the stream it was authorized for.\<close>

lemma accept_streams_authorized:
  assumes "authorization_wf a"
  shows "accept_streams (Some a) expected n ids workers events = Some (Ok all) \<Longrightarrow>
    \<exists>peers streams. all = workers @ peers \<and> take n events = map Accepted peers
      \<and> length peers = n \<and> length streams = n \<and> distinct streams \<and> set streams \<inter> ids = {}
      \<and> (\<forall>s \<in> set streams. unat s < unat expected)
      \<and> (\<forall>i < n. \<exists>rest. peer_handshake (peers ! i) = authorization_bytes a (streams ! i) @ rest)"
proof (induction n arbitrary: ids workers events)
  case 0
  then show ?case by simp
next
  case (Suc n)
  obtain peer events' where ev: "events = Accepted peer # events'"
    using Suc.prems by (cases events; cases "hd events") auto
  obtain s where s: "read_tcp_authorization a (peer_input_end peer) (peer_handshake peer) = Ok s"
    using Suc.prems ev by (auto split: outcome.splits)
  have fresh: "\<not> ucast expected \<le> s" "s \<notin> ids"
    and go: "accept_streams (Some a) expected n (insert s ids) (workers @ [peer]) events' = Some (Ok all)"
    using Suc.prems ev s by (auto split: if_splits)
  obtain peers streams where r: "all = (workers @ [peer]) @ peers" "take n events' = map Accepted peers"
    "length peers = n" "length streams = n" "distinct streams" "set streams \<inter> insert s ids = {}"
    "\<forall>s \<in> set streams. unat s < unat expected"
    "\<forall>i < n. \<exists>rest. peer_handshake (peers ! i) = authorization_bytes a (streams ! i) @ rest"
    using Suc.IH [OF go] by blast
  have "unat s < unat expected"
    using fresh(1) unat_ucast_up [of expected, where ?'b = 32] by (simp add: word_le_nat_alt not_le)
  moreover have "\<exists>rest. peer_handshake peer = authorization_bytes a s @ rest"
    using read_tcp_authorization_OkD [OF s assms] by blast
  ultimately show ?case
    using r fresh(2) ev
    by (intro exI [of _ "peer # peers"] exI [of _ "s # streams"]) (auto simp: nth_Cons split: nat.splits)
qed

definition read_total :: "(string + nat) list \<Rightarrow> nat" where
  "read_total rs = sum_list (map (case_sum (\<lambda>_. 0) id) (takeWhile (\<lambda>r. r \<noteq> Inr 0) rs))"

lemma read_worker_Ok: 
  "read_worker n rs = Some (Ok m) \<Longrightarrow> \<forall>c. Inr c \<in> set rs \<longrightarrow> c < 2 ^ 64 \<Longrightarrow>
     unat m = unat n + read_total rs"
proof (induction n rs rule: read_worker.induct)
  case (3 n chunk rest)
  show ?case
  proof (cases "chunk = 0")
    case True
    then show ?thesis using 3 by (simp add: read_total_def)
  next
    case False
    then obtain n' where n': "checked_add n (of_nat chunk) = Some n'"
      using 3 by (auto split: option.splits)
    then have "unat n' = unat n + chunk"
      using checked_add_SomeD [OF n'] "3.prems"(2) by (auto simp: unat_of_nat)
    then show ?thesis using 3 False n' by (simp add: read_total_def)
  qed
qed auto

lemma join_workers_Ok:
  "join_workers acc rs = Some (Ok m) \<Longrightarrow>
     \<exists>ns. rs = map (\<lambda>n. Some (Ok n)) ns \<and> unat m = unat acc + sum_list (map unat ns)"
proof (induction rs arbitrary: acc)
  case Nil
  then show ?case by simp
next
  case (Cons r rs)
  obtain n acc' where n: "r = Some (Ok n)" "checked_add acc n = Some acc'" "join_workers acc' rs = Some (Ok m)"
    using Cons.prems by (auto simp: bind_run_Ok split: option.splits)
  obtain ns where "rs = map (\<lambda>n. Some (Ok n)) ns" "unat m = unat acc' + sum_list (map unat ns)"
    using Cons.IH [OF n(3)] by blast
  then show ?case using n(1) checked_add_SomeD [OF n(2)] by (intro exI [of _ "n # ns"]) auto
qed

lemma workers_total:
  assumes "join_workers 0 (map (\<lambda>w. read_worker 0 (peer_reads w)) ws) = Some (Ok m)"
    and "\<forall>w \<in> set ws. \<forall>c. Inr c \<in> set (peer_reads w) \<longrightarrow> c < 2 ^ 64"
  shows "unat m = sum_list (map (\<lambda>w. read_total (peer_reads w)) ws)"
proof -
  obtain ns where ns: "map (\<lambda>w. read_worker 0 (peer_reads w)) ws = map (\<lambda>n. Some (Ok n)) ns"
    "unat m = sum_list (map unat ns)"
    using join_workers_Ok [OF assms(1)] by auto
  have "map unat ns = map (\<lambda>w. read_total (peer_reads w)) ws"
  proof (rule nth_equalityI)
    show len: "length (map unat ns) = length (map (\<lambda>w. read_total (peer_reads w)) ws)"
      using arg_cong [OF ns(1), of length] by simp
    fix i assume i: "i < length (map unat ns)"
    then have "read_worker 0 (peer_reads (ws ! i)) = Some (Ok (ns ! i))"
      using arg_cong [OF ns(1), of "\<lambda>l. l ! i"] len by simp
    moreover have "\<forall>c. Inr c \<in> set (peer_reads (ws ! i)) \<longrightarrow> c < 2 ^ 64"
      using bspec [OF assms(2) nth_mem, of i] i len by simp
    ultimately show "map unat ns ! i = map (\<lambda>w. read_total (peer_reads w)) ws ! i"
      using read_worker_Ok [of 0 "peer_reads (ws ! i)" "ns ! i"] i len by simp
  qed
  then show ?thesis using ns(2) by simp
qed

lemma distinct_bounded_onto:
  assumes "distinct (xs :: u32 list)" "length xs = n" "\<forall>x \<in> set xs. unat x < n"
  shows "unat ` set xs = {..<n}"
proof (rule card_subset_eq)
  have "card (unat ` set xs) = card (set xs)"
    by (intro card_image) (simp add: inj_on_def word_unat_eq_iff)
  then show "card (unat ` set xs) = card {..<n}" using assms(1,2) by (simp add: distinct_card)
qed (use assms(3) in auto)

lemma authorized_receiver_streams:
  assumes run: "run_authorized_tcp_receiver order elapsed events config = Some (Ok r)"
    and sid: "length (authorized_receiver_session config) = 16" and order: "\<And>xs. mset (order xs) = mset xs"
    and reads: "\<forall>p. Accepted p \<in> set events \<longrightarrow> (\<forall>c. Inr c \<in> set (peer_reads p) \<longrightarrow> c < 2 ^ 64)"
  shows "\<exists>peers streams. let n = unat (expected_streams config);
      a = \<lparr>auth_session_id = authorized_receiver_session config, auth_tag = authorized_receiver_tag config\<rparr> in
    take n events = map Accepted peers \<and> length peers = n \<and> length streams = n
    \<and> distinct streams \<and> unat ` set streams = {..<n}
    \<and> (\<forall>i < n. \<exists>rest. peer_handshake (peers ! i) = authorization_bytes a (streams ! i) @ rest)
    \<and> unat (transferred_bytes r) = sum_list (map (\<lambda>p. read_total (peer_reads p)) peers)"
proof -
  let ?a = "\<lparr>auth_session_id = authorized_receiver_session config, auth_tag = authorized_receiver_tag config\<rparr>"
  let ?n = "unat (expected_streams config)"
  have "validate_authorization_tag (authorized_receiver_tag config) = Ok ()"
    using run by (auto simp: run_authorized_tcp_receiver_def bind_run_Ok)
  then have wf: "authorization_wf ?a"
    using sid by (auto simp: authorization_wf_def validate_authorization_tag_def MAX_AUTHORIZATION_TAG_BYTES_def
        split: if_splits)
  obtain workers m where w: "accept_streams (Some ?a) (expected_streams config) ?n {} [] events = Some (Ok workers)"
    "join_workers 0 (map (\<lambda>w. read_worker 0 (peer_reads w)) (order workers)) = Some (Ok m)"
    "r = tcp_result (expected_streams config) m elapsed"
    using run by (auto simp: run_authorized_tcp_receiver_def run_tcp_receiver_internal_def bind_run_Ok split: if_splits)
  obtain streams where s: "take ?n events = map Accepted workers" "length workers = ?n" "length streams = ?n"
    "distinct streams" "\<forall>s \<in> set streams. unat s < ?n"
    "\<forall>i < ?n. \<exists>rest. peer_handshake (workers ! i) = authorization_bytes ?a (streams ! i) @ rest"
    using accept_streams_authorized [OF wf w(1)] by auto
  have set_order: "set (order workers) = set workers" using order by (metis set_mset_mset)
  have "Accepted p \<in> set events" if "p \<in> set workers" for p
    using that s(1) by (metis image_eqI in_set_takeD list.set_map)
  then have "unat m = sum_list (map (\<lambda>p. read_total (peer_reads p)) (order workers))"
    using workers_total [OF w(2)] reads set_order by blast
  also have "\<dots> = sum_list (map (\<lambda>p. read_total (peer_reads p)) workers)"
    by (simp only: sum_mset_sum_list [symmetric] mset_map order)
  finally have "unat (transferred_bytes r) = sum_list (map (\<lambda>p. read_total (peer_reads p)) workers)"
    by (simp add: w(3) tcp_result_def Let_def)
  then show ?thesis
    using s distinct_bounded_onto [OF s(4,3,5)] by (intro exI [of _ workers] exI [of _ streams]) (simp add: Let_def)
qed

text \<open>
  C20.  An authorized TCP receiver that succeeds has heard each stream exactly once: the first
  connections it accepted are as many as the expected streams, each opened with the handshake of the
  configured session and tag, their stream numbers are 0 up to the expected count without repetition,
  and the bytes it reports are the sum of what the streams carried, in whatever order the workers
  finish.
\<close>

theorem authorized_tcp_receiver_exact:
  assumes "run_authorized_tcp_receiver order elapsed events config = Some (Ok r)"
    and "length (authorized_receiver_session config) = 16" "\<And>xs. mset (order xs) = mset xs"
    and "\<forall>p. Accepted p \<in> set events \<longrightarrow> (\<forall>c. Inr c \<in> set (peer_reads p) \<longrightarrow> c < 2 ^ 64)"
  shows "\<exists>peers streams. let n = unat (expected_streams config);
      a = \<lparr>auth_session_id = authorized_receiver_session config, auth_tag = authorized_receiver_tag config\<rparr> in
    take n events = map Accepted peers \<and> length peers = n \<and> length streams = n
    \<and> distinct streams \<and> unat ` set streams = {..<n}
    \<and> (\<forall>i < n. \<exists>rest. peer_handshake (peers ! i) = authorization_bytes a (streams ! i) @ rest)
    \<and> unat (transferred_bytes r) = sum_list (map (\<lambda>p. read_total (peer_reads p)) peers)"
  using assms by (rule authorized_receiver_streams)

definition sample_tcp_authorization :: tcp_authorization where
  "sample_tcp_authorization = \<lparr>auth_session_id = replicate 16 9, auth_tag = ''aaaaaaaaaaaaaaaa''\<rparr>"

definition sample_peer :: "u32 \<Rightarrow> nat \<Rightarrow> tcp_peer" where
  "sample_peer stream n = \<lparr>peer_handshake = authorization_bytes sample_tcp_authorization stream,
     peer_input_end = InputSilent, peer_reads = [Inr n, Inr 0]\<rparr>"

definition sample_tcp_receiver :: authorized_tcp_receiver_config where
  "sample_tcp_receiver = \<lparr>expected_streams = 2, authorized_receiver_session = replicate 16 9,
     authorized_receiver_tag = ''aaaaaaaaaaaaaaaa''\<rparr>"

lemma sample_tcp_run:
  "run_authorized_tcp_receiver rev 5 [Accepted (sample_peer 1 300), Accepted (sample_peer 0 200)] sample_tcp_receiver
     = Some (Ok (tcp_result 2 500 5))"
proof -
  have wf: "authorization_wf sample_tcp_authorization"
    by (simp add: authorization_wf_def sample_tcp_authorization_def)
  have "read_tcp_authorization sample_tcp_authorization InputSilent (authorization_bytes sample_tcp_authorization s)
      = Ok s" for s
    using read_tcp_authorization_bytes [OF wf, of _ _ "[]"] by simp
  then have "accept_streams (Some sample_tcp_authorization) 2 (Suc (Suc 0)) {} []
      [Accepted (sample_peer 1 300), Accepted (sample_peer 0 200)]
      = Some (Ok [sample_peer 1 300, sample_peer 0 200])"
    by (simp add: sample_peer_def word_le_nat_alt)
  then have acc: "accept_streams (Some sample_tcp_authorization) 2 2 {} []
      [Accepted (sample_peer 1 300), Accepted (sample_peer 0 200)]
      = Some (Ok [sample_peer 1 300, sample_peer 0 200])"
    by (simp only: numeral_2_eq_2)
  have tag: "validate_authorization_tag ''aaaaaaaaaaaaaaaa'' = Ok ()" by code_simp
  have join: "join_workers 0 (map (\<lambda>w. read_worker 0 (peer_reads w)) [sample_peer 0 200, sample_peer 1 300])
      = Some (Ok 500)"
    by (simp add: sample_peer_def checked_add_def bind_run_def)
  show ?thesis
    by (simp add: run_authorized_tcp_receiver_def run_tcp_receiver_internal_def sample_tcp_receiver_def bind_run_def
        sample_tcp_authorization_def [symmetric] acc tag join del: join_workers.simps list.map)
qed

theorem authorized_tcp_receiver_exact_witness:
  "\<exists>peers streams. [Accepted (sample_peer 1 300), Accepted (sample_peer 0 200)] = map Accepted peers
    \<and> length peers = 2 \<and> length streams = 2 \<and> distinct streams \<and> unat ` set streams = {..<2}
    \<and> (\<forall>i < 2. \<exists>rest. peer_handshake (peers ! i) = authorization_bytes sample_tcp_authorization (streams ! i) @ rest)
    \<and> 500 = sum_list (map (\<lambda>p. read_total (peer_reads p)) peers)"
proof -
  let ?ev = "[Accepted (sample_peer 1 300), Accepted (sample_peer 0 200)]"
  have reads: "\<forall>p. Accepted p \<in> set ?ev \<longrightarrow> (\<forall>c. Inr c \<in> set (peer_reads p) \<longrightarrow> c < 2 ^ 64)"
    by (auto simp: sample_peer_def)
  have sid: "length (authorized_receiver_session sample_tcp_receiver) = 16"
    and n: "unat (expected_streams sample_tcp_receiver) = 2"
    and sent: "unat (transferred_bytes (tcp_result 2 500 5)) = 500"
    and a: "\<lparr>auth_session_id = authorized_receiver_session sample_tcp_receiver,
        auth_tag = authorized_receiver_tag sample_tcp_receiver\<rparr> = sample_tcp_authorization"
    by (simp_all add: sample_tcp_receiver_def sample_tcp_authorization_def tcp_result_def Let_def)
  have all: "take 2 ?ev = ?ev" by simp
  show ?thesis
    using authorized_tcp_receiver_exact [OF sample_tcp_run sid mset_rev reads]
    unfolding Let_def n sent all a .
qed

section \<open>The sender counts what it writes\<close>

lemma measure_round_Ok:
  "measure_round net payload n st = Ok st' \<Longrightarrow> payload < 2 ^ 64 \<Longrightarrow>
     unat (sent_bytes st') = unat (sent_bytes st) + n * payload \<and> write_count st' = write_count st + n
     \<and> tcp_tick st' = tcp_tick st"
proof (induction n arbitrary: st)
  case 0
  then show ?case by simp
next
  case (Suc n)
  obtain b where b: "checked_add (sent_bytes st) (of_nat payload) = Some b"
    "measure_round net payload n (st\<lparr>write_count := write_count st + 1, sent_bytes := b\<rparr>) = Ok st'"
    using Suc.prems by (auto simp: outcome_simps)
  have "unat b = unat (sent_bytes st) + payload"
    using conjunct1 [OF checked_add_SomeD [OF b(1)]] Suc.prems(2) by (simp add: unat_of_nat)
  then show ?case using Suc.IH [OF b(2)] Suc.prems(2) by simp
qed

lemma warmup_round_Ok:
  "warmup_round net n st = Ok st' \<Longrightarrow> sent_bytes st' = sent_bytes st \<and> tcp_tick st' = tcp_tick st"
  by (induction n arbitrary: st) (auto simp: outcome_simps)

lemma io_outcome_no_panic [simp]: "io_outcome r \<noteq> Panic"
  by (simp add: io_outcome_def split: option.split)

lemma rounds_no_panic: "warmup_round net n st \<noteq> Panic" "measure_round net payload n st \<noteq> Panic"
  by (induction n arbitrary: st) (auto simp: outcome_simps)

text \<open>A loop of rounds that keep \<open>P\<close> returns once the clock stays past the deadline.\<close>

lemma rounds_until_returns:
  assumes clock: "\<forall>j \<ge> k. deadline \<le> clock j" and panic: "\<And>st. round st \<noteq> Panic"
    and keep: "\<And>st st'. P st \<Longrightarrow> round st = Ok st' \<Longrightarrow> P st' \<and> tcp_tick st' = tcp_tick st"
    and ticks: "\<And>st t. P st \<Longrightarrow> P (st\<lparr>tcp_tick := t\<rparr>)"
  shows "P st \<Longrightarrow> \<exists>r. rounds_until clock deadline round st = Some r \<and> r \<noteq> Panic \<and> (\<forall>st'. r = Ok st' \<longrightarrow> P st')"
proof (induction "k - tcp_tick st" arbitrary: st rule: less_induct)
  case less
  show ?case
  proof (cases "clock (tcp_tick st) < deadline")
    case True
    then have running: "tcp_tick st < k" using clock by (meson not_less)
    show ?thesis
    proof (cases "round (st\<lparr>tcp_tick := tcp_tick st + 1\<rparr>)")
      case (Ok st')
      then have "P st'" "tcp_tick st' = tcp_tick st + 1"
        using keep [OF ticks [OF less.prems] Ok] by simp_all
      then show ?thesis
        using less.hyps [of st'] running True Ok by (subst rounds_until.simps) (simp add: Let_def)
    next
      case (Err e)
      then show ?thesis using True by (subst rounds_until.simps) (simp add: Let_def)
    next
      case Panic
      then show ?thesis using panic by simp
    qed
  next
    case False
    then show ?thesis using ticks [OF less.prems] by (subst rounds_until.simps) (simp add: Let_def)
  qed
qed

lemma warmup_phase_returns:
  assumes "\<forall>t. \<exists>k. \<forall>j \<ge> k. t \<le> clock j"
  shows "\<exists>r. warmup_phase clock net config st = Some r \<and> r \<noteq> Panic
    \<and> (\<forall>st'. r = Ok st' \<longrightarrow> sent_bytes st' = sent_bytes st)"
proof -
  let ?d = "clock (tcp_tick st) + unat (tcp_warmup_milliseconds config) * 1000000"
  obtain k where k: "\<forall>j \<ge> k. ?d \<le> clock j" using assms by blast
  have "\<exists>r. rounds_until clock ?d (warmup_round net (unat (tcp_streams config))) (st\<lparr>tcp_tick := tcp_tick st + 1\<rparr>)
      = Some r \<and> r \<noteq> Panic \<and> (\<forall>st'. r = Ok st' \<longrightarrow> sent_bytes st' = sent_bytes st)"
    by (rule rounds_until_returns [OF k, where P = "\<lambda>s. sent_bytes s = sent_bytes st"])
      (auto simp: rounds_no_panic dest: warmup_round_Ok)
  then show ?thesis by (auto simp: warmup_phase_def Let_def)
qed

lemma measure_phase_returns:
  assumes clock: "\<forall>t. \<exists>k. \<forall>j \<ge> k. t \<le> clock j" and "payload_bytes config < 2 ^ 64" "sent_bytes st = 0"
  shows "\<exists>r. measure_phase clock net config st = Some r \<and> r \<noteq> Panic
    \<and> (\<forall>started st'. r = Ok (started, st') \<longrightarrow>
        (\<exists>n. unat (sent_bytes st') = n * (unat (tcp_streams config) * payload_bytes config)))"
proof -
  let ?d = "clock (tcp_tick st) + unat (tcp_measurement_milliseconds config) * 1000000"
  let ?P = "\<lambda>s. \<exists>n. unat (sent_bytes s) = n * (unat (tcp_streams config) * payload_bytes config)"
  obtain k where k: "\<forall>j \<ge> k. ?d \<le> clock j" using clock by blast
  have keep: "?P s' \<and> tcp_tick s' = tcp_tick s"
    if old: "?P s" and step: "measure_round net (payload_bytes config) (unat (tcp_streams config)) s = Ok s'" for s s'
  proof -
    obtain n where "unat (sent_bytes s) = n * (unat (tcp_streams config) * payload_bytes config)"
      using old by blast
    then have "unat (sent_bytes s') = Suc n * (unat (tcp_streams config) * payload_bytes config)"
      using measure_round_Ok [OF step assms(2)] by simp
    then show ?thesis using measure_round_Ok [OF step assms(2)] by blast
  qed
  have "?P (st\<lparr>tcp_tick := tcp_tick st + 1\<rparr>)" using assms(3) by (intro exI [of _ 0]) simp
  then have "\<exists>r. rounds_until clock ?d (measure_round net (payload_bytes config) (unat (tcp_streams config)))
      (st\<lparr>tcp_tick := tcp_tick st + 1\<rparr>) = Some r \<and> r \<noteq> Panic \<and> (\<forall>st'. r = Ok st' \<longrightarrow> ?P st')"
    using rounds_until_returns [of k ?d clock _ ?P, OF k rounds_no_panic(2) keep] by simp
  then show ?thesis by (auto simp: measure_phase_def Let_def outcome_simps)
qed

lemma bind_run_returns:
  "m = Some r \<Longrightarrow> r \<noteq> Panic \<Longrightarrow> (\<And>x. r = Ok x \<Longrightarrow> \<exists>r'. f x = Some r' \<and> r' \<noteq> Panic \<and> Q r') \<Longrightarrow>
     (\<And>e. Q (Err e)) \<Longrightarrow> \<exists>r'. bind_run m f = Some r' \<and> r' \<noteq> Panic \<and> Q r'"
  by (cases r) (auto simp: bind_run_def)

lemma shutdown_no_panic: "shutdown_streams net i n \<noteq> Panic"
  by (induction n arbitrary: i) (auto simp: outcome_simps)

lemma open_streams_no_panic:
  assumes "case authorization of None \<Rightarrow> True | Some a \<Rightarrow> length (auth_session_id a) = 16"
  shows "open_streams net authorization i n opened \<noteq> Panic"
proof (induction n arbitrary: i opened)
  case 0
  then show ?case by simp
next
  case (Suc n)
  have "write_tcp_authorization fails a stream \<noteq> Panic" if "authorization = Some a" for a fails stream
    using that assms
    by (auto simp: write_tcp_authorization_def outcome_simps TCP_AUTH_HEADER_BYTES_def copy_from_slice_def
        split: option.splits if_splits)
  then show ?case using Suc by (auto simp: outcome_simps split: option.splits)
qed

text \<open>The sender ends on every network, and reports a whole number of rounds over its streams.\<close>

lemma tcp_sender_returns:
  assumes clock: "\<forall>t. \<exists>k. \<forall>j \<ge> k. t \<le> clock j"
    and sid: "case authorization of None \<Rightarrow> True | Some a \<Rightarrow> length (auth_session_id a) = 16"
  shows "\<exists>r. run_tcp_sender_internal clock net config authorization = Some r \<and> r \<noteq> Panic
    \<and> (\<forall>opened res. r = Ok (opened, res) \<longrightarrow>
        (\<exists>n. unat (transferred_bytes res) = n * (unat (tcp_streams config) * payload_bytes config)))"
  (is "\<exists>r. _ \<and> _ \<and> ?Q r")
  unfolding run_tcp_sender_internal_def
proof (rule bind_run_returns [OF refl])
  let ?start = "and_then (validate_tcp_run config) (\<lambda>_. open_streams net authorization 0 (unat (tcp_streams config)) [])"
  show "?start \<noteq> Panic"
    using open_streams_no_panic [OF sid] by (auto simp: validate_tcp_run_def)
  fix opened assume "?start = Ok opened"
  then have small: "payload_bytes config < 2 ^ 64"
    by (auto simp: outcome_simps validate_tcp_run_def split: if_splits)
  obtain r1 where r1: "warmup_phase clock net config \<lparr>tcp_tick = 0, write_count = 0, sent_bytes = 0\<rparr> = Some r1"
    "r1 \<noteq> Panic" "\<forall>st'. r1 = Ok st' \<longrightarrow> sent_bytes st' = 0"
    using warmup_phase_returns [OF clock, of net config "\<lparr>tcp_tick = 0, write_count = 0, sent_bytes = 0\<rparr>"] by auto
  show "\<exists>r'. bind_run (warmup_phase clock net config \<lparr>tcp_tick = 0, write_count = 0, sent_bytes = 0\<rparr>)
      (\<lambda>st. bind_run (measure_phase clock net config st)
        (\<lambda>m. Some (and_then (finish_run clock net config m) (\<lambda>r. Ok (opened, r))))) = Some r' \<and> r' \<noteq> Panic \<and> ?Q r'"
  proof (rule bind_run_returns [OF r1(1,2)])
    fix st assume "r1 = Ok st"
    then obtain r2 where r2: "measure_phase clock net config st = Some r2" "r2 \<noteq> Panic"
      "\<forall>started st'. r2 = Ok (started, st') \<longrightarrow>
        (\<exists>n. unat (sent_bytes st') = n * (unat (tcp_streams config) * payload_bytes config))"
      using measure_phase_returns [OF clock small, of st net] r1(3) by auto
    show "\<exists>r'. bind_run (measure_phase clock net config st)
        (\<lambda>m. Some (and_then (finish_run clock net config m) (\<lambda>r. Ok (opened, r)))) = Some r' \<and> r' \<noteq> Panic \<and> ?Q r'"
      by (rule bind_run_returns [OF r2(1,2)])
        (use r2(3) shutdown_no_panic in \<open>auto simp: finish_run_def outcome_simps tcp_result_def Let_def\<close>)
  qed simp
qed simp

end
