(* ===== verification/Node_Session.thy ===== *)
theory Node_Session
  imports Node_Protocol Resource_Manager Ip_Text Helper_Protocol Speed_Engine Speed_Tcp
begin

text \<open>
  The session coordinator of a node (src/crates/node/src/session.rs and session_prepare_*.rs): it
  prepares TCP, UDP and DPDK tests, schedules their common start, hands the prepared endpoints to one
  worker each, and keeps the results.  This theory holds the state and the operations;
  Session_Safety has the theorems.

  An operation returns its result and the next coordinator; what it changed before an error stays
  changed.  Listeners and sockets are handles of a type variable.  The operating system (binding an
  address, reading the bound address, random bytes) is a record of functions that every call
  receives; the JSON parser and SHA-256 are arguments.  The coordinator's hash maps are only looked
  up and updated, never iterated, and are maps.
\<close>

section \<open>Socket addresses\<close>

datatype socket_addr = SocketV4 u32 u16 | SocketV6 u128 u16 u32 u32

fun socket_ip :: "socket_addr \<Rightarrow> ip_addr" where
  "socket_ip (SocketV4 a p) = V4 a"
| "socket_ip (SocketV6 a p flowinfo scope) = V6 a"

fun socket_port :: "socket_addr \<Rightarrow> u16" where
  "socket_port (SocketV4 a p) = p"
| "socket_port (SocketV6 a p flowinfo scope) = p"

fun socket_new :: "ip_addr \<Rightarrow> u16 \<Rightarrow> socket_addr" where
  "socket_new (V4 a) p = SocketV4 a p"
| "socket_new (V6 a) p = SocketV6 a p 0 0"

text \<open>\<open>Display\<close> of a socket address; the scope of an IPv6 address is shown unless it is zero.\<close>

fun socket_display :: "socket_addr \<Rightarrow> string" where
  "socket_display (SocketV4 a p) = ip_display (V4 a) @ '':'' @ decimal (unat p)"
| "socket_display (SocketV6 a p flowinfo scope) =
     ''['' @ ip_display (V6 a) @ (if scope = 0 then '''' else ''%'' @ decimal (unat scope)) @ '']:''
     @ decimal (unat p)"

section \<open>Requests, responses and sessions\<close>

record prepare_dpdk_receiver_request =
  dpdk_request_session :: bytes
  dpdk_request_operation :: string
  dpdk_request_source_node :: bytes
  dpdk_request_pci :: string
  dpdk_request_duration :: u64
  dpdk_request_mac :: string
  dpdk_request_ttl :: u64

record prepared_dpdk_receiver =
  plan_pci_address :: string
  plan_duration_milliseconds :: u64
  plan_remote_mac :: string

datatype 'h prepared_socket_receiver =
    ReceiverTcp 'h authorized_tcp_receiver_config
  | ReceiverUdp 'h "socket_addr udp_receiver_config"

datatype 'h prepared_socket_sender =
    SenderTcp authorized_tcp_sender_config socket_addr
  | SenderUdp 'h udp_sender_config socket_addr

datatype 'h prepared_socket_bidirectional =
    BidirectionalTcp 'h authorized_tcp_receiver_config authorized_tcp_sender_config socket_addr
  | BidirectionalUdp 'h "socket_addr udp_receiver_config" udp_sender_config socket_addr

record prepare_tcp_request =
  tcp_request_session :: bytes
  tcp_request_operation :: string
  tcp_request_source_node :: bytes
  tcp_request_source :: ip_addr
  tcp_request_bind :: socket_addr
  tcp_request_config :: tcp_run_config
  tcp_request_ttl :: u64

record prepare_tcp_sender_request =
  tcp_sender_session :: bytes
  tcp_sender_operation :: string
  tcp_sender_source_node :: bytes
  tcp_sender_source :: ip_addr
  tcp_sender_target :: socket_addr
  tcp_sender_run :: tcp_run_config
  tcp_sender_ttl :: u64

record prepare_udp_sender_request =
  udp_sender_session :: bytes
  udp_sender_operation :: string
  udp_sender_source_node :: bytes
  udp_sender_source :: ip_addr
  udp_sender_target :: socket_addr
  udp_sender_stream :: u32
  udp_sender_datagram :: nat
  udp_sender_measurement :: u64
  udp_sender_rate :: "u64 option"
  udp_sender_ttl :: u64

record prepare_tcp_bidirectional_request =
  tcp_both_session :: bytes
  tcp_both_operation :: string
  tcp_both_source_node :: bytes
  tcp_both_source :: ip_addr
  tcp_both_bind :: socket_addr
  tcp_both_target :: socket_addr
  tcp_both_run :: tcp_run_config
  tcp_both_ttl :: u64

record prepare_udp_bidirectional_request =
  udp_both_session :: bytes
  udp_both_operation :: string
  udp_both_source_node :: bytes
  udp_both_source :: socket_addr
  udp_both_bind :: ip_addr
  udp_both_target :: socket_addr
  udp_both_stream :: u32
  udp_both_datagram :: nat
  udp_both_measurement :: u64
  udp_both_rate :: "u64 option"
  udp_both_ttl :: u64

record prepare_tcp_response =
  tcp_response_session :: bytes
  tcp_response_port :: u16
  tcp_response_tag :: string
  tcp_response_expires :: u64
  tcp_response_state :: node_connection_state

record prepare_udp_request =
  udp_request_session :: bytes
  udp_request_operation :: string
  udp_request_source_node :: bytes
  udp_request_source :: socket_addr
  udp_request_bind :: socket_addr
  udp_request_stream :: u32
  udp_request_datagram :: nat
  udp_request_idle :: u64
  udp_request_ttl :: u64

record prepare_udp_response =
  udp_response_session :: bytes
  udp_response_port :: u16
  udp_response_tag :: string
  udp_response_expires :: u64
  udp_response_state :: node_connection_state

record data_plane_authorization =
  auth_session :: bytes
  auth_source_node :: bytes
  auth_source :: ip_addr
  auth_source_port :: "u16 option"
  auth_destination :: ip_addr
  auth_protocol :: string
  auth_destination_port :: u16
  auth_tag :: string
  auth_expires :: u64

record data_plane_attempt =
  attempt_session :: bytes
  attempt_source_node :: bytes
  attempt_source :: socket_addr
  attempt_destination :: socket_addr
  attempt_protocol :: string
  attempt_tag :: string
  attempt_now :: u64

record 'h tcp_session =
  tcp_response :: prepare_tcp_response
  tcp_authorization :: data_plane_authorization
  tcp_config :: tcp_run_config
  tcp_listener :: "'h option"
  tcp_state :: node_connection_state
  tcp_reservation :: string
  tcp_lifecycle :: speed_test_lifecycle
  tcp_destination :: "socket_addr option"
  tcp_sender_config :: "tcp_run_config option"

record 'h udp_session =
  udp_response :: prepare_udp_response
  udp_authorization :: data_plane_authorization
  udp_socket :: "'h option"
  udp_stream_id :: u32
  udp_maximum_datagram :: nat
  udp_idle_timeout :: u64
  udp_state :: node_connection_state
  udp_reservation :: string
  udp_lifecycle :: speed_test_lifecycle
  udp_destination :: "socket_addr option"
  udp_sender_config_of :: "udp_sender_config option"

record dpdk_session =
  dpdk_authorization :: data_plane_authorization
  dpdk_state :: node_connection_state
  dpdk_reservation :: string
  dpdk_lifecycle :: speed_test_lifecycle
  dpdk_plan :: "prepared_dpdk_receiver option"

datatype 'h session_view = TcpMut "'h tcp_session" | UdpMut "'h udp_session" | DpdkMut dpdk_session

fun authorization :: "'h session_view \<Rightarrow> data_plane_authorization" where
  "authorization (TcpMut session) = tcp_authorization session"
| "authorization (UdpMut session) = udp_authorization session"
| "authorization (DpdkMut session) = dpdk_authorization session"

fun state_of :: "'h session_view \<Rightarrow> node_connection_state" where
  "state_of (TcpMut session) = tcp_state session"
| "state_of (UdpMut session) = udp_state session"
| "state_of (DpdkMut session) = dpdk_state session"

fun set_state :: "node_connection_state \<Rightarrow> 'h session_view \<Rightarrow> 'h session_view" where
  "set_state st (TcpMut session) = TcpMut (session\<lparr>tcp_state := st\<rparr>)"
| "set_state st (UdpMut session) = UdpMut (session\<lparr>udp_state := st\<rparr>)"
| "set_state st (DpdkMut session) = DpdkMut (session\<lparr>dpdk_state := st\<rparr>)"

fun lifecycle_of :: "'h session_view \<Rightarrow> speed_test_lifecycle" where
  "lifecycle_of (TcpMut session) = tcp_lifecycle session"
| "lifecycle_of (UdpMut session) = udp_lifecycle session"
| "lifecycle_of (DpdkMut session) = dpdk_lifecycle session"

text \<open>\<open>lifecycle\<close> hands out a mutable reference; writing through it is \<open>set_lifecycle\<close>.\<close>

fun set_lifecycle :: "speed_test_lifecycle \<Rightarrow> 'h session_view \<Rightarrow> 'h session_view" where
  "set_lifecycle l (TcpMut session) = TcpMut (session\<lparr>tcp_lifecycle := l\<rparr>)"
| "set_lifecycle l (UdpMut session) = UdpMut (session\<lparr>udp_lifecycle := l\<rparr>)"
| "set_lifecycle l (DpdkMut session) = DpdkMut (session\<lparr>dpdk_lifecycle := l\<rparr>)"

fun reservation_of :: "'h session_view \<Rightarrow> string" where
  "reservation_of (TcpMut session) = tcp_reservation session"
| "reservation_of (UdpMut session) = udp_reservation session"
| "reservation_of (DpdkMut session) = dpdk_reservation session"

fun close_endpoint :: "'h session_view \<Rightarrow> 'h session_view" where
  "close_endpoint (TcpMut session) = TcpMut (session\<lparr>tcp_listener := None\<rparr>)"
| "close_endpoint (UdpMut session) = UdpMut (session\<lparr>udp_socket := None\<rparr>)"
| "close_endpoint (DpdkMut session) = DpdkMut (session\<lparr>dpdk_plan := None\<rparr>)"

datatype operation_record =
    OpPrepareTcp prepare_tcp_request prepare_tcp_response
  | OpPrepareTcpSender prepare_tcp_sender_request prepare_tcp_response
  | OpPrepareTcpBidirectional prepare_tcp_bidirectional_request prepare_tcp_response
  | OpPrepareUdpSender prepare_udp_sender_request prepare_udp_response
  | OpPrepareUdpBidirectional prepare_udp_bidirectional_request prepare_udp_response
  | OpPrepareUdp prepare_udp_request prepare_udp_response
  | OpPrepareDpdkReceiver prepare_dpdk_receiver_request prepared_dpdk_receiver
  | OpStart bytes u64 node_connection_state
  | OpStop bytes node_connection_state

record test_result =
  result_session :: bytes
  result_json :: bytes
  result_checksum :: bytes

record 'h session_coordinator =
  tcp_sessions :: "bytes \<rightharpoonup> 'h tcp_session"
  udp_sessions :: "bytes \<rightharpoonup> 'h udp_session"
  dpdk_sessions :: "bytes \<rightharpoonup> dpdk_session"
  operations :: "string \<rightharpoonup> operation_record"
  results :: "bytes \<rightharpoonup> test_result"
  pending_results :: "bytes \<rightharpoonup> test_result"
  resources :: resource_manager

definition new_coordinator :: "'h session_coordinator" where
  "new_coordinator =
     \<lparr>tcp_sessions = Map.empty, udp_sessions = Map.empty, dpdk_sessions = Map.empty,
      operations = Map.empty, results = Map.empty, pending_results = Map.empty,
      resources = new_manager\<rparr>"

text \<open>The operating system as a call sees it.\<close>

record 'h session_os =
  bind_tcp :: "socket_addr \<Rightarrow> string + 'h"
  bind_udp :: "socket_addr \<Rightarrow> string + 'h"
  local_addr :: "'h \<Rightarrow> string + socket_addr"
  random_fill :: "string + bytes"

section \<open>Errors and small helpers\<close>

definition session_invalid :: "string \<Rightarrow> nettool_error" where
  "session_invalid m = new_error InvalidArgument m False"

definition session_invalid_state :: "string \<Rightarrow> nettool_error" where
  "session_invalid_state m = new_error InvalidState m False"

definition operation_conflict :: nettool_error where
  "operation_conflict =
     new_error OperationConflict ''operation ID was already used by a different request'' False"

definition session_missing :: nettool_error where
  "session_missing = new_error InvalidArgument ''session does not exist'' False"

definition session_io_error :: "string \<Rightarrow> nettool_error" where
  "session_io_error e = new_error SpeedFailed (''dynamic data port allocation failed: '' @ e) True"

definition session_id_exists :: nettool_error where
  "session_id_exists = new_error ResourceConflict ''session ID already exists'' False"

definition authorization_expired :: "string \<Rightarrow> nettool_error" where
  "authorization_expired m = new_error AuthorizationExpired m False"

text \<open>The \<open>?\<close> operator on a step that also returns the next state.\<close>

fun try_with :: "'a result \<times> 's \<Rightarrow> ('a \<Rightarrow> 's \<Rightarrow> 'b result \<times> 's) \<Rightarrow> 'b result \<times> 's" where
  "try_with (Ok x, s) f = f x s"
| "try_with (Err e, s) f = (Err e, s)"
| "try_with (Panic, s) f = (Panic, s)"

text \<open>A call on the coordinator's resource manager.\<close>

definition on_resources ::
  "'h session_coordinator \<Rightarrow> (resource_manager \<Rightarrow> 'a result \<times> resource_manager)
     \<Rightarrow> 'a result \<times> 'h session_coordinator" where
  "on_resources self f = (case f (resources self) of (r, m) \<Rightarrow> (r, self\<lparr>resources := m\<rparr>))"

text \<open>\<open>{byte:02x}\<close> of every byte.\<close>

definition hex_bytes :: "bytes \<Rightarrow> string" where
  "hex_bytes bs = concat (map (\<lambda>b. [hex_char (unat b div 16), hex_char (unat b mod 16)]) bs)"

definition hex_session_id :: "bytes \<Rightarrow> string" where
  "hex_session_id session_id = hex_bytes session_id"

definition random_tag :: "'h session_os \<Rightarrow> string result" where
  "random_tag os =
     and_then (map_err (\<lambda>e. new_error RandomFailed (''secure random generation failed: '' @ e) True)
       (from_result (random_fill os))) (\<lambda>bs. Ok (hex_bytes bs))"

definition matching_start ::
  "operation_record \<Rightarrow> bytes \<Rightarrow> u64 \<Rightarrow> node_connection_state result" where
  "matching_start rec session_id start_at =
     (case rec of
        OpStart stored stored_start st \<Rightarrow>
          if stored = session_id \<and> stored_start = start_at then Ok st else Err operation_conflict
      | _ \<Rightarrow> Err operation_conflict)"

definition matching_stop :: "operation_record \<Rightarrow> bytes \<Rightarrow> node_connection_state result" where
  "matching_stop rec session_id =
     (case rec of
        OpStop stored st \<Rightarrow> if stored = session_id then Ok st else Err operation_conflict
      | _ \<Rightarrow> Err operation_conflict)"

text \<open>The fold of \<open>constant_time_eq\<close> over the zipped bytes.\<close>

definition constant_time_eq :: "bytes \<Rightarrow> bytes \<Rightarrow> bool" where
  "constant_time_eq expected candidate =
     (if length expected \<noteq> length candidate then False
      else foldl (\<lambda>difference (left, right). difference OR (left XOR right)) 0
             (zip expected candidate) = 0)"

definition authorize_data_plane :: "data_plane_authorization \<Rightarrow> data_plane_attempt \<Rightarrow> bool" where
  "authorize_data_plane ctxt attempt \<longleftrightarrow>
     auth_session ctxt = attempt_session attempt
     \<and> auth_source_node ctxt = attempt_source_node attempt
     \<and> auth_source ctxt = socket_ip (attempt_source attempt)
     \<and> (case auth_source_port ctxt of None \<Rightarrow> True | Some p \<Rightarrow> p = socket_port (attempt_source attempt))
     \<and> auth_destination ctxt = socket_ip (attempt_destination attempt)
     \<and> auth_destination_port ctxt = socket_port (attempt_destination attempt)
     \<and> auth_protocol ctxt = attempt_protocol attempt
     \<and> constant_time_eq (str_bytes (auth_tag ctxt)) (str_bytes (attempt_tag attempt))
     \<and> attempt_now attempt \<le> auth_expires ctxt"

section \<open>Validation\<close>

definition ttl_invalid :: nettool_error where
  "ttl_invalid = session_invalid ''authorization TTL must be between 10 seconds and one hour''"

definition validate_prepare :: "prepare_tcp_request \<Rightarrow> unit result" where
  "validate_prepare req =
     (if str_blank (tcp_request_operation req) then Err (session_invalid ''operation ID is required'')
      else if socket_port (tcp_request_bind req) \<noteq> 0
      then Err (session_invalid ''data-plane bind port must be zero for dynamic allocation'')
      else if \<not> (10 \<le> tcp_request_ttl req \<and> tcp_request_ttl req \<le> 3600) then Err ttl_invalid
      else validate_tcp_run (tcp_request_config req))"

definition validate_tcp_sender_prepare :: "prepare_tcp_sender_request \<Rightarrow> unit result" where
  "validate_tcp_sender_prepare req =
     (if str_blank (tcp_sender_operation req) then Err (session_invalid ''operation ID is required'')
      else if socket_port (tcp_sender_target req) = 0
      then Err (session_invalid ''TCP sender destination port must be non-zero'')
      else if \<not> (10 \<le> tcp_sender_ttl req \<and> tcp_sender_ttl req \<le> 3600) then Err ttl_invalid
      else validate_tcp_run (tcp_sender_run req))"

definition validate_tcp_bidirectional_prepare :: "prepare_tcp_bidirectional_request \<Rightarrow> unit result" where
  "validate_tcp_bidirectional_prepare req =
     (if str_blank (tcp_both_operation req) then Err (session_invalid ''operation ID is required'')
      else if socket_port (tcp_both_bind req) \<noteq> 0 \<or> socket_port (tcp_both_target req) = 0
      then Err (session_invalid ''TCP bidirectional endpoints are invalid'')
      else if \<not> (10 \<le> tcp_both_ttl req \<and> tcp_both_ttl req \<le> 3600) then Err ttl_invalid
      else validate_tcp_run (tcp_both_run req))"

definition validate_udp_prepare :: "prepare_udp_request \<Rightarrow> unit result" where
  "validate_udp_prepare req =
     (if str_blank (udp_request_operation req) then Err (session_invalid ''operation ID is required'')
      else if socket_port (udp_request_bind req) \<noteq> 0
      then Err (session_invalid ''data-plane bind port must be zero for dynamic allocation'')
      else if socket_port (udp_request_source req) = 0
      then Err (session_invalid ''UDP source port must be allocated before prepare'')
      else if \<not> (10 \<le> udp_request_ttl req \<and> udp_request_ttl req \<le> 3600) then Err ttl_invalid
      else validate_receiver
        \<lparr>receiver_session_id = udp_request_session req, receiver_stream_id = udp_request_stream req,
         expected_source = udp_request_source req, maximum_datagram_bytes = udp_request_datagram req,
         idle_timeout_milliseconds = udp_request_idle req, receiver_tag = ''prepare-validation''\<rparr>)"

definition validate_udp_sender_prepare :: "prepare_udp_sender_request \<Rightarrow> unit result" where
  "validate_udp_sender_prepare req =
     (if str_blank (udp_sender_operation req) then Err (session_invalid ''operation ID is required'')
      else if socket_port (udp_sender_target req) = 0
      then Err (session_invalid ''UDP sender destination port must be non-zero'')
      else if \<not> (10 \<le> udp_sender_ttl req \<and> udp_sender_ttl req \<le> 3600) then Err ttl_invalid
      else validate_sender
        \<lparr>sender_session_id = udp_sender_session req, sender_stream_id = udp_sender_stream req,
         datagram_bytes = udp_sender_datagram req, measurement_milliseconds = udp_sender_measurement req,
         sender_target_rate = udp_sender_rate req, maximum_packets_per_burst = 32,
         sender_tag = ''prepare-validation''\<rparr>)"

definition validate_udp_bidirectional_prepare :: "prepare_udp_bidirectional_request \<Rightarrow> unit result" where
  "validate_udp_bidirectional_prepare req =
     (if str_blank (udp_both_operation req) then Err (session_invalid ''operation ID is required'')
      else if socket_port (udp_both_source req) = 0 \<or> socket_port (udp_both_target req) = 0
      then Err (session_invalid ''UDP bidirectional endpoints are invalid'')
      else if \<not> (10 \<le> udp_both_ttl req \<and> udp_both_ttl req \<le> 3600) then Err ttl_invalid
      else validate_sender
        \<lparr>sender_session_id = udp_both_session req, sender_stream_id = udp_both_stream req,
         datagram_bytes = udp_both_datagram req, measurement_milliseconds = udp_both_measurement req,
         sender_target_rate = udp_both_rate req, maximum_packets_per_burst = 32,
         sender_tag = ''prepare-validation''\<rparr>)"

definition validate_result_json :: "(bytes \<Rightarrow> string + 'n json) \<Rightarrow> bytes \<Rightarrow> unit result" where
  "validate_result_json from_slice js =
     (if js = [] \<or> length js > MAX_CONTROL_PAYLOAD_BYTES
      then Err (session_invalid ''test result JSON is empty or exceeds 1 MiB'')
      else
        and_then (map_err (\<lambda>e. new_error ProtocolInvalid (''test result JSON is invalid: '' @ e) False)
          (from_result (from_slice js))) (\<lambda>value.
        if (case Option.bind (Option.bind (as_object value) (\<lambda>fs. map_of fs ''schema_version'')) as_string of
              None \<Rightarrow> True | Some v \<Rightarrow> v = [])
        then Err (session_invalid ''test result JSON must contain a non-empty schema_version'')
        else Ok ()))"

definition valid_dpdk_bdf :: "string \<Rightarrow> bool" where
  "valid_dpdk_bdf value \<longleftrightarrow>
     length value = 12 \<and> value ! 4 = CHR '':'' \<and> value ! 7 = CHR '':'' \<and> value ! 10 = CHR ''.''
     \<and> list_all (\<lambda>(i, b). i \<in> {4, 7, 10} \<or> ascii_hexdigit b) (enumerate 0 value)"

definition valid_dpdk_mac :: "string \<Rightarrow> bool" where
  "valid_dpdk_mac value \<longleftrightarrow>
     (let parts = split_char (CHR '':'') value in
      length parts = 6
      \<and> list_all (\<lambda>part. length part = 2 \<and> list_all ascii_hexdigit part) parts
      \<and> (let first = hex_value (parts ! 0 ! 0) * 16 + hex_value (parts ! 0 ! 1)
         in first \<noteq> 0 \<and> even first))"

section \<open>Looking sessions up\<close>

definition session_exists :: "'h session_coordinator \<Rightarrow> bytes \<Rightarrow> bool" where
  "session_exists self session_id \<longleftrightarrow>
     tcp_sessions self session_id \<noteq> None \<or> udp_sessions self session_id \<noteq> None
     \<or> dpdk_sessions self session_id \<noteq> None"

definition session_state :: "'h session_coordinator \<Rightarrow> bytes \<Rightarrow> node_connection_state option" where
  "session_state self session_id =
     (case tcp_sessions self session_id of
        Some session \<Rightarrow> Some (tcp_state session)
      | None \<Rightarrow>
          (case udp_sessions self session_id of
             Some session \<Rightarrow> Some (udp_state session)
           | None \<Rightarrow> map_option dpdk_state (dpdk_sessions self session_id)))"

definition session_mut :: "'h session_coordinator \<Rightarrow> bytes \<Rightarrow> 'h session_view option" where
  "session_mut self session_id =
     (case tcp_sessions self session_id of
        Some session \<Rightarrow> Some (TcpMut session)
      | None \<Rightarrow>
          (case udp_sessions self session_id of
             Some session \<Rightarrow> Some (UdpMut session)
           | None \<Rightarrow> map_option DpdkMut (dpdk_sessions self session_id)))"

text \<open>Writing through the reference \<open>session_mut\<close> returned.\<close>

fun put_session :: "'h session_coordinator \<Rightarrow> bytes \<Rightarrow> 'h session_view \<Rightarrow> 'h session_coordinator" where
  "put_session self session_id (TcpMut session) =
     self\<lparr>tcp_sessions := (tcp_sessions self)(session_id \<mapsto> session)\<rparr>"
| "put_session self session_id (UdpMut session) =
     self\<lparr>udp_sessions := (udp_sessions self)(session_id \<mapsto> session)\<rparr>"
| "put_session self session_id (DpdkMut session) =
     self\<lparr>dpdk_sessions := (dpdk_sessions self)(session_id \<mapsto> session)\<rparr>"

definition record_operation ::
  "string \<Rightarrow> operation_record \<Rightarrow> 'h session_coordinator \<Rightarrow> 'h session_coordinator" where
  "record_operation operation_id rec self =
     self\<lparr>operations := (operations self)(operation_id \<mapsto> rec)\<rparr>"

definition authorization_for :: "'h session_coordinator \<Rightarrow> bytes \<Rightarrow> data_plane_authorization option" where
  "authorization_for self session_id =
     (case tcp_sessions self session_id of
        Some session \<Rightarrow> Some (tcp_authorization session)
      | None \<Rightarrow> map_option udp_authorization (udp_sessions self session_id))"

definition prepared_response :: "'h session_coordinator \<Rightarrow> bytes \<Rightarrow> prepare_tcp_response option" where
  "prepared_response self session_id = map_option tcp_response (tcp_sessions self session_id)"

definition prepared_udp_response :: "'h session_coordinator \<Rightarrow> bytes \<Rightarrow> prepare_udp_response option" where
  "prepared_udp_response self session_id = map_option udp_response (udp_sessions self session_id)"

section \<open>Preparing a session\<close>

text \<open>
  The life cycle a prepared session starts with, and the reservation of its one resource.  The
  iteration order of the resource manager's map is an argument, as in Resource_Manager.
\<close>

definition prepared_lifecycle :: "speed_test_lifecycle result" where
  "prepared_lifecycle =
     fst (try_with (negotiated new_lifecycle) (\<lambda>_ lifecycle.
          try_with (mark_ready lifecycle LocalPeer) (\<lambda>_ lifecycle. (Ok lifecycle, lifecycle))))"

definition reserve_active ::
  "((string \<times> reservation) list \<Rightarrow> (string \<times> reservation) list) \<Rightarrow> 'h session_coordinator
     \<Rightarrow> string \<Rightarrow> bytes \<Rightarrow> resource_key \<Rightarrow> resource_mode \<Rightarrow> reservation result \<times> 'h session_coordinator" where
  "reserve_active iter self rid session_id key mode =
     try_with (on_resources self (\<lambda>m. reserve iter m
       \<lparr>reservation_id = rid, request_session = hex_session_id session_id,
        claims = [\<lparr>claim_resource = key, claim_mode = mode, claim_units = 1\<rparr>]\<rparr>)) (\<lambda>_ self.
     on_resources self (\<lambda>m. activate m rid))"

definition prepare_tcp ::
  "((string \<times> reservation) list \<Rightarrow> (string \<times> reservation) list) \<Rightarrow> 'h session_os
     \<Rightarrow> 'h session_coordinator \<Rightarrow> prepare_tcp_request \<Rightarrow> u64
     \<Rightarrow> prepare_tcp_response result \<times> 'h session_coordinator" where
  "prepare_tcp iter os self req now =
     (case operations self (tcp_request_operation req) of
        Some rec \<Rightarrow>
          (case rec of
             OpPrepareTcp stored response \<Rightarrow>
               if stored = req then Ok response else Err operation_conflict
           | _ \<Rightarrow> Err operation_conflict, self)
      | None \<Rightarrow>
          let session_id = tcp_request_session req in
          try_with (validate_prepare req, self) (\<lambda>_ self.
          if session_exists self session_id then (Err session_id_exists, self) else
          try_with (ok_or (session_invalid ''authorization expiration overflow'')
            (checked_add now (tcp_request_ttl req)), self) (\<lambda>expires_at self.
          try_with (map_err session_io_error (from_result (bind_tcp os (tcp_request_bind req))), self)
            (\<lambda>listener self.
          try_with (map_err session_io_error (from_result (local_addr os listener)), self)
            (\<lambda>local_address self.
          try_with (random_tag os, self) (\<lambda>tag self.
          let rid = ''data-port-'' @ hex_session_id session_id in
          try_with (reserve_active iter self rid session_id
            (DataPort ''tcp'' (ip_display (socket_ip local_address)) (socket_port local_address)) Exclusive)
            (\<lambda>_ self.
          let response = \<lparr>tcp_response_session = session_id,
                tcp_response_port = socket_port local_address, tcp_response_tag = tag,
                tcp_response_expires = expires_at, tcp_response_state = TestReady\<rparr>;
              auth = \<lparr>auth_session = session_id, auth_source_node = tcp_request_source_node req,
                auth_source = tcp_request_source req, auth_source_port = None,
                auth_destination = socket_ip local_address, auth_protocol = ''tcp'',
                auth_destination_port = socket_port local_address, auth_tag = tag,
                auth_expires = expires_at\<rparr> in
          try_with (prepared_lifecycle, self) (\<lambda>lifecycle self.
          (Ok response,
           record_operation (tcp_request_operation req) (OpPrepareTcp req response)
             (put_session self session_id (TcpMut
               \<lparr>tcp_response = response, tcp_authorization = auth, tcp_config = tcp_request_config req,
                tcp_listener = Some listener, tcp_state = TestReady, tcp_reservation = rid,
                tcp_lifecycle = lifecycle, tcp_destination = None, tcp_sender_config = None\<rparr>)))))))))))"

definition prepare_tcp_sender ::
  "((string \<times> reservation) list \<Rightarrow> (string \<times> reservation) list) \<Rightarrow> 'h session_os
     \<Rightarrow> 'h session_coordinator \<Rightarrow> prepare_tcp_sender_request \<Rightarrow> u64
     \<Rightarrow> prepare_tcp_response result \<times> 'h session_coordinator" where
  "prepare_tcp_sender iter os self req now =
     (case operations self (tcp_sender_operation req) of
        Some rec \<Rightarrow>
          (case rec of
             OpPrepareTcpSender stored response \<Rightarrow>
               if stored = req then Ok response else Err operation_conflict
           | _ \<Rightarrow> Err operation_conflict, self)
      | None \<Rightarrow>
          let session_id = tcp_sender_session req; target = tcp_sender_target req in
          try_with (validate_tcp_sender_prepare req, self) (\<lambda>_ self.
          if session_exists self session_id then (Err session_id_exists, self) else
          try_with (ok_or (session_invalid ''authorization expiration overflow'')
            (checked_add now (tcp_sender_ttl req)), self) (\<lambda>expires_at self.
          try_with (random_tag os, self) (\<lambda>tag self.
          let rid = ''tcp-sender-'' @ hex_session_id session_id in
          try_with (reserve_active iter self rid session_id
            (ManagementInterface (''tcp-sender:'' @ socket_display target)) Shared) (\<lambda>_ self.
          let response = \<lparr>tcp_response_session = session_id, tcp_response_port = 0,
                tcp_response_tag = tag, tcp_response_expires = expires_at,
                tcp_response_state = TestReady\<rparr>;
              auth = \<lparr>auth_session = session_id, auth_source_node = tcp_sender_source_node req,
                auth_source = tcp_sender_source req, auth_source_port = None,
                auth_destination = socket_ip target, auth_protocol = ''tcp'',
                auth_destination_port = socket_port target, auth_tag = tag,
                auth_expires = expires_at\<rparr> in
          try_with (prepared_lifecycle, self) (\<lambda>lifecycle self.
          (Ok response,
           record_operation (tcp_sender_operation req) (OpPrepareTcpSender req response)
             (put_session self session_id (TcpMut
               \<lparr>tcp_response = response, tcp_authorization = auth, tcp_config = tcp_sender_run req,
                tcp_listener = None, tcp_state = TestReady, tcp_reservation = rid,
                tcp_lifecycle = lifecycle, tcp_destination = Some target, tcp_sender_config = None\<rparr>)))))))))"

definition prepare_tcp_bidirectional ::
  "((string \<times> reservation) list \<Rightarrow> (string \<times> reservation) list) \<Rightarrow> 'h session_os
     \<Rightarrow> 'h session_coordinator \<Rightarrow> prepare_tcp_bidirectional_request \<Rightarrow> u64
     \<Rightarrow> prepare_tcp_response result \<times> 'h session_coordinator" where
  "prepare_tcp_bidirectional iter os self req now =
     (case operations self (tcp_both_operation req) of
        Some rec \<Rightarrow>
          (case rec of
             OpPrepareTcpBidirectional stored response \<Rightarrow>
               if stored = req then Ok response else Err operation_conflict
           | _ \<Rightarrow> Err operation_conflict, self)
      | None \<Rightarrow>
          let session_id = tcp_both_session req in
          try_with (validate_tcp_bidirectional_prepare req, self) (\<lambda>_ self.
          if session_exists self session_id then (Err session_id_exists, self) else
          try_with (ok_or (session_invalid ''authorization expiration overflow'')
            (checked_add now (tcp_both_ttl req)), self) (\<lambda>expires_at self.
          try_with (map_err session_io_error (from_result (bind_tcp os (tcp_both_bind req))), self)
            (\<lambda>listener self.
          try_with (map_err session_io_error (from_result (local_addr os listener)), self)
            (\<lambda>local_address self.
          try_with (random_tag os, self) (\<lambda>tag self.
          let rid = ''tcp-bidirectional-'' @ hex_session_id session_id in
          try_with (reserve_active iter self rid session_id
            (DataPort ''tcp'' (ip_display (socket_ip local_address)) (socket_port local_address)) Exclusive)
            (\<lambda>_ self.
          let response = \<lparr>tcp_response_session = session_id,
                tcp_response_port = socket_port local_address, tcp_response_tag = tag,
                tcp_response_expires = expires_at, tcp_response_state = TestReady\<rparr>;
              auth = \<lparr>auth_session = session_id, auth_source_node = tcp_both_source_node req,
                auth_source = tcp_both_source req, auth_source_port = None,
                auth_destination = socket_ip local_address, auth_protocol = ''tcp'',
                auth_destination_port = socket_port local_address, auth_tag = tag,
                auth_expires = expires_at\<rparr> in
          try_with (prepared_lifecycle, self) (\<lambda>lifecycle self.
          (Ok response,
           record_operation (tcp_both_operation req) (OpPrepareTcpBidirectional req response)
             (put_session self session_id (TcpMut
               \<lparr>tcp_response = response, tcp_authorization = auth, tcp_config = tcp_both_run req,
                tcp_listener = Some listener, tcp_state = TestReady, tcp_reservation = rid,
                tcp_lifecycle = lifecycle, tcp_destination = Some (tcp_both_target req),
                tcp_sender_config = Some (tcp_both_run req)\<rparr>)))))))))))"

definition prepare_udp ::
  "((string \<times> reservation) list \<Rightarrow> (string \<times> reservation) list) \<Rightarrow> 'h session_os
     \<Rightarrow> 'h session_coordinator \<Rightarrow> prepare_udp_request \<Rightarrow> u64
     \<Rightarrow> prepare_udp_response result \<times> 'h session_coordinator" where
  "prepare_udp iter os self req now =
     (case operations self (udp_request_operation req) of
        Some rec \<Rightarrow>
          (case rec of
             OpPrepareUdp stored response \<Rightarrow>
               if stored = req then Ok response else Err operation_conflict
           | _ \<Rightarrow> Err operation_conflict, self)
      | None \<Rightarrow>
          let session_id = udp_request_session req in
          try_with (validate_udp_prepare req, self) (\<lambda>_ self.
          if session_exists self session_id then (Err session_id_exists, self) else
          try_with (ok_or (session_invalid ''authorization expiration overflow'')
            (checked_add now (udp_request_ttl req)), self) (\<lambda>expires_at self.
          try_with (map_err session_io_error (from_result (bind_udp os (udp_request_bind req))), self)
            (\<lambda>socket self.
          try_with (map_err session_io_error (from_result (local_addr os socket)), self)
            (\<lambda>local_address self.
          try_with (random_tag os, self) (\<lambda>tag self.
          let rid = ''data-port-'' @ hex_session_id session_id in
          try_with (reserve_active iter self rid session_id
            (DataPort ''udp'' (ip_display (socket_ip local_address)) (socket_port local_address)) Exclusive)
            (\<lambda>_ self.
          let response = \<lparr>udp_response_session = session_id,
                udp_response_port = socket_port local_address, udp_response_tag = tag,
                udp_response_expires = expires_at, udp_response_state = TestReady\<rparr>;
              auth = \<lparr>auth_session = session_id, auth_source_node = udp_request_source_node req,
                auth_source = socket_ip (udp_request_source req),
                auth_source_port = Some (socket_port (udp_request_source req)),
                auth_destination = socket_ip local_address, auth_protocol = ''udp'',
                auth_destination_port = socket_port local_address, auth_tag = tag,
                auth_expires = expires_at\<rparr> in
          try_with (prepared_lifecycle, self) (\<lambda>lifecycle self.
          (Ok response,
           record_operation (udp_request_operation req) (OpPrepareUdp req response)
             (put_session self session_id (UdpMut
               \<lparr>udp_response = response, udp_authorization = auth, udp_socket = Some socket,
                udp_stream_id = udp_request_stream req, udp_maximum_datagram = udp_request_datagram req,
                udp_idle_timeout = udp_request_idle req, udp_state = TestReady, udp_reservation = rid,
                udp_lifecycle = lifecycle, udp_destination = None, udp_sender_config_of = None\<rparr>)))))))))))"

definition prepare_udp_sender ::
  "((string \<times> reservation) list \<Rightarrow> (string \<times> reservation) list) \<Rightarrow> 'h session_os
     \<Rightarrow> 'h session_coordinator \<Rightarrow> prepare_udp_sender_request \<Rightarrow> u64
     \<Rightarrow> prepare_udp_response result \<times> 'h session_coordinator" where
  "prepare_udp_sender iter os self req now =
     (case operations self (udp_sender_operation req) of
        Some rec \<Rightarrow>
          (case rec of
             OpPrepareUdpSender stored response \<Rightarrow>
               if stored = req then Ok response else Err operation_conflict
           | _ \<Rightarrow> Err operation_conflict, self)
      | None \<Rightarrow>
          let session_id = udp_sender_session req; target = udp_sender_target req in
          try_with (validate_udp_sender_prepare req, self) (\<lambda>_ self.
          if session_exists self session_id then (Err session_id_exists, self) else
          try_with (ok_or (session_invalid ''authorization expiration overflow'')
            (checked_add now (udp_sender_ttl req)), self) (\<lambda>expires_at self.
          try_with (map_err session_io_error
              (from_result (bind_udp os (socket_new (udp_sender_source req) 0))), self)
            (\<lambda>socket self.
          try_with (map_err session_io_error (from_result (local_addr os socket)), self)
            (\<lambda>local_address self.
          try_with (random_tag os, self) (\<lambda>tag self.
          let rid = ''udp-sender-'' @ hex_session_id session_id in
          try_with (reserve_active iter self rid session_id
            (DataPort ''udp'' (ip_display (socket_ip local_address)) (socket_port local_address)) Exclusive)
            (\<lambda>_ self.
          let response = \<lparr>udp_response_session = session_id, udp_response_port = 0,
                udp_response_tag = tag, udp_response_expires = expires_at,
                udp_response_state = TestReady\<rparr>;
              auth = \<lparr>auth_session = session_id, auth_source_node = udp_sender_source_node req,
                auth_source = socket_ip local_address,
                auth_source_port = Some (socket_port local_address),
                auth_destination = socket_ip target, auth_protocol = ''udp'',
                auth_destination_port = socket_port target, auth_tag = tag,
                auth_expires = expires_at\<rparr>;
              config = \<lparr>sender_session_id = session_id, sender_stream_id = udp_sender_stream req,
                datagram_bytes = udp_sender_datagram req,
                measurement_milliseconds = udp_sender_measurement req,
                sender_target_rate = udp_sender_rate req, maximum_packets_per_burst = 32,
                sender_tag = tag\<rparr> in
          try_with (prepared_lifecycle, self) (\<lambda>lifecycle self.
          (Ok response,
           record_operation (udp_sender_operation req) (OpPrepareUdpSender req response)
             (put_session self session_id (UdpMut
               \<lparr>udp_response = response, udp_authorization = auth, udp_socket = Some socket,
                udp_stream_id = udp_sender_stream req, udp_maximum_datagram = udp_sender_datagram req,
                udp_idle_timeout = 2000, udp_state = TestReady, udp_reservation = rid,
                udp_lifecycle = lifecycle, udp_destination = Some target,
                udp_sender_config_of = Some config\<rparr>)))))))))))"

definition prepare_udp_bidirectional ::
  "((string \<times> reservation) list \<Rightarrow> (string \<times> reservation) list) \<Rightarrow> 'h session_os
     \<Rightarrow> 'h session_coordinator \<Rightarrow> prepare_udp_bidirectional_request \<Rightarrow> u64
     \<Rightarrow> prepare_udp_response result \<times> 'h session_coordinator" where
  "prepare_udp_bidirectional iter os self req now =
     (case operations self (udp_both_operation req) of
        Some rec \<Rightarrow>
          (case rec of
             OpPrepareUdpBidirectional stored response \<Rightarrow>
               if stored = req then Ok response else Err operation_conflict
           | _ \<Rightarrow> Err operation_conflict, self)
      | None \<Rightarrow>
          let session_id = udp_both_session req in
          try_with (validate_udp_bidirectional_prepare req, self) (\<lambda>_ self.
          if session_exists self session_id then (Err session_id_exists, self) else
          try_with (ok_or (session_invalid ''authorization expiration overflow'')
            (checked_add now (udp_both_ttl req)), self) (\<lambda>expires_at self.
          try_with (map_err session_io_error
              (from_result (bind_udp os (socket_new (udp_both_bind req) 0))), self)
            (\<lambda>socket self.
          try_with (map_err session_io_error (from_result (local_addr os socket)), self)
            (\<lambda>local_address self.
          try_with (random_tag os, self) (\<lambda>tag self.
          let rid = ''udp-bidirectional-'' @ hex_session_id session_id in
          try_with (reserve_active iter self rid session_id
            (DataPort ''udp'' (ip_display (socket_ip local_address)) (socket_port local_address)) Exclusive)
            (\<lambda>_ self.
          let response = \<lparr>udp_response_session = session_id,
                udp_response_port = socket_port local_address, udp_response_tag = tag,
                udp_response_expires = expires_at, udp_response_state = TestReady\<rparr>;
              auth = \<lparr>auth_session = session_id, auth_source_node = udp_both_source_node req,
                auth_source = socket_ip (udp_both_source req),
                auth_source_port = Some (socket_port (udp_both_source req)),
                auth_destination = socket_ip local_address, auth_protocol = ''udp'',
                auth_destination_port = socket_port local_address, auth_tag = tag,
                auth_expires = expires_at\<rparr>;
              config = \<lparr>sender_session_id = session_id, sender_stream_id = udp_both_stream req,
                datagram_bytes = udp_both_datagram req,
                measurement_milliseconds = udp_both_measurement req,
                sender_target_rate = udp_both_rate req, maximum_packets_per_burst = 32,
                sender_tag = tag\<rparr> in
          try_with (prepared_lifecycle, self) (\<lambda>lifecycle self.
          (Ok response,
           record_operation (udp_both_operation req) (OpPrepareUdpBidirectional req response)
             (put_session self session_id (UdpMut
               \<lparr>udp_response = response, udp_authorization = auth, udp_socket = Some socket,
                udp_stream_id = udp_both_stream req, udp_maximum_datagram = udp_both_datagram req,
                udp_idle_timeout = 2000, udp_state = TestReady, udp_reservation = rid,
                udp_lifecycle = lifecycle, udp_destination = Some (udp_both_target req),
                udp_sender_config_of = Some config\<rparr>)))))))))))"

definition prepare_dpdk_receiver ::
  "((string \<times> reservation) list \<Rightarrow> (string \<times> reservation) list) \<Rightarrow> 'h session_os
     \<Rightarrow> 'h session_coordinator \<Rightarrow> prepare_dpdk_receiver_request \<Rightarrow> u64
     \<Rightarrow> prepared_dpdk_receiver result \<times> 'h session_coordinator" where
  "prepare_dpdk_receiver iter os self req now =
     (case operations self (dpdk_request_operation req) of
        Some rec \<Rightarrow>
          (case rec of
             OpPrepareDpdkReceiver stored plan \<Rightarrow>
               if stored = req then Ok plan else Err operation_conflict
           | _ \<Rightarrow> Err operation_conflict, self)
      | None \<Rightarrow>
          let session_id = dpdk_request_session req in
          if \<not> valid_dpdk_bdf (dpdk_request_pci req)
          then (Err (session_invalid ''DPDK receiver requires a valid PCI BDF''), self)
          else if dpdk_request_duration req = 0 \<or> dpdk_request_duration req > 86400000
          then (Err (session_invalid ''DPDK receiver duration is outside the valid range''), self)
          else if \<not> valid_dpdk_mac (dpdk_request_mac req)
          then (Err (session_invalid ''DPDK receiver requires a valid remote unicast MAC''), self)
          else if session_exists self session_id then (Err session_id_exists, self) else
          try_with (ok_or (session_invalid ''authorization expiration overflow'')
            (checked_add now (dpdk_request_ttl req)), self) (\<lambda>expires_at self.
          let rid = ''dpdk-rx-'' @ hex_session_id session_id in
          try_with (reserve_active iter self rid session_id
            (ManagementInterface (''pci:'' @ dpdk_request_pci req)) Exclusive) (\<lambda>_ self.
          try_with (random_tag os, self) (\<lambda>tag self.
          let auth = \<lparr>auth_session = session_id, auth_source_node = dpdk_request_source_node req,
                auth_source = V4 0, auth_source_port = None, auth_destination = V4 0,
                auth_protocol = ''dpdk-raw'', auth_destination_port = 0, auth_tag = tag,
                auth_expires = expires_at\<rparr> in
          try_with (prepared_lifecycle, self) (\<lambda>lifecycle self.
          let plan = \<lparr>plan_pci_address = dpdk_request_pci req,
                plan_duration_milliseconds = dpdk_request_duration req,
                plan_remote_mac = dpdk_request_mac req\<rparr> in
          (Ok plan,
           record_operation (dpdk_request_operation req) (OpPrepareDpdkReceiver req plan)
             (put_session self session_id (DpdkMut
               \<lparr>dpdk_authorization = auth, dpdk_state = TestReady, dpdk_reservation = rid,
                dpdk_lifecycle = lifecycle, dpdk_plan = Some plan\<rparr>))))))))"

section \<open>Handing the endpoints to workers\<close>

text \<open>
  \<open>take\<close> empties the field at once: an error that follows leaves it empty.
\<close>

definition tcp_receiver_config :: "bytes \<Rightarrow> 'h tcp_session \<Rightarrow> authorized_tcp_receiver_config" where
  "tcp_receiver_config session_id session =
     \<lparr>expected_streams = tcp_streams (tcp_config session), authorized_receiver_session = session_id,
      authorized_receiver_tag = auth_tag (tcp_authorization session)\<rparr>"

definition udp_receiver_config_of ::
  "bytes \<Rightarrow> 'h udp_session \<Rightarrow> u16 \<Rightarrow> socket_addr udp_receiver_config" where
  "udp_receiver_config_of session_id session source_port =
     \<lparr>receiver_session_id = session_id, receiver_stream_id = udp_stream_id session,
      expected_source = socket_new (auth_source (udp_authorization session)) source_port,
      maximum_datagram_bytes = udp_maximum_datagram session,
      idle_timeout_milliseconds = udp_idle_timeout session,
      receiver_tag = auth_tag (udp_authorization session)\<rparr>"

definition take_tcp_listener ::
  "'h session_coordinator \<Rightarrow> bytes
     \<Rightarrow> ('h \<times> authorized_tcp_receiver_config) result \<times> 'h session_coordinator" where
  "take_tcp_listener self session_id =
     (case tcp_sessions self session_id of
        None \<Rightarrow> (Err session_missing, self)
      | Some session \<Rightarrow>
          if tcp_destination session \<noteq> None
          then (Err (session_invalid_state ''session is a TCP sender''), self)
          else if tcp_state session \<noteq> Running
          then (Err (session_invalid_state ''session is not running''), self)
          else
            (case tcp_listener session of
               None \<Rightarrow> (Err (session_invalid_state ''session listener was already consumed''), self)
             | Some listener \<Rightarrow>
                 let session = session\<lparr>tcp_listener := None\<rparr> in
                 (Ok (listener, tcp_receiver_config session_id session),
                  put_session self session_id (TcpMut session))))"

definition take_tcp_sender ::
  "'h session_coordinator \<Rightarrow> bytes \<Rightarrow> 'h prepared_socket_sender result \<times> 'h session_coordinator" where
  "take_tcp_sender self session_id =
     (case tcp_sessions self session_id of
        None \<Rightarrow> (Err session_missing, self)
      | Some session \<Rightarrow>
          if tcp_state session \<noteq> Running
          then (Err (session_invalid_state ''session is not running''), self)
          else if tcp_sender_config session \<noteq> None
          then (Err (session_invalid_state ''session is bidirectional''), self)
          else
            (case tcp_destination session of
               None \<Rightarrow> (Err (session_invalid_state ''session is not a TCP sender''), self)
             | Some target \<Rightarrow>
                 let session = session\<lparr>tcp_destination := None\<rparr> in
                 (Ok (SenderTcp
                    \<lparr>authorized_run = tcp_config session, authorized_sender_session = session_id,
                     authorized_sender_tag = auth_tag (tcp_authorization session)\<rparr> target),
                  put_session self session_id (TcpMut session))))"

definition take_tcp_bidirectional ::
  "'h session_coordinator \<Rightarrow> bytes \<Rightarrow> 'h prepared_socket_bidirectional result \<times> 'h session_coordinator" where
  "take_tcp_bidirectional self session_id =
     (case tcp_sessions self session_id of
        None \<Rightarrow> (Err session_missing, self)
      | Some session \<Rightarrow>
          if tcp_state session \<noteq> Running
          then (Err (session_invalid_state ''session is not running''), self)
          else
            (case tcp_listener session of
               None \<Rightarrow> (Err (session_invalid_state ''session listener was already consumed''), self)
             | Some listener \<Rightarrow>
                 let session = session\<lparr>tcp_listener := None\<rparr> in
                 (case tcp_destination session of
                    None \<Rightarrow> (Err (session_invalid_state ''session is not bidirectional''),
                             put_session self session_id (TcpMut session))
                  | Some target \<Rightarrow>
                      let session = session\<lparr>tcp_destination := None\<rparr> in
                      (case tcp_sender_config session of
                         None \<Rightarrow> (Err (session_invalid_state ''session sender configuration is missing''),
                                  put_session self session_id (TcpMut session))
                       | Some run \<Rightarrow>
                           let session = session\<lparr>tcp_sender_config := None\<rparr> in
                           (Ok (BidirectionalTcp listener (tcp_receiver_config session_id session)
                              \<lparr>authorized_run = run, authorized_sender_session = session_id,
                               authorized_sender_tag = auth_tag (tcp_authorization session)\<rparr> target),
                            put_session self session_id (TcpMut session))))))"

definition take_udp_socket ::
  "'h session_coordinator \<Rightarrow> bytes
     \<Rightarrow> ('h \<times> socket_addr udp_receiver_config) result \<times> 'h session_coordinator" where
  "take_udp_socket self session_id =
     (case udp_sessions self session_id of
        None \<Rightarrow> (Err session_missing, self)
      | Some session \<Rightarrow>
          if udp_destination session \<noteq> None
          then (Err (session_invalid_state ''session is a UDP sender''), self)
          else if udp_state session \<noteq> Running
          then (Err (session_invalid_state ''session is not running''), self)
          else
            (case udp_socket session of
               None \<Rightarrow> (Err (session_invalid_state ''session UDP socket was already consumed''), self)
             | Some socket \<Rightarrow>
                 let session = session\<lparr>udp_socket := None\<rparr> in
                 (case auth_source_port (udp_authorization session) of
                    None \<Rightarrow> (Err (session_invalid_state ''UDP authorization is missing its source port''),
                             put_session self session_id (UdpMut session))
                  | Some source_port \<Rightarrow>
                      (Ok (socket, udp_receiver_config_of session_id session source_port),
                       put_session self session_id (UdpMut session)))))"

definition take_udp_sender ::
  "'h session_coordinator \<Rightarrow> bytes \<Rightarrow> 'h prepared_socket_sender result \<times> 'h session_coordinator" where
  "take_udp_sender self session_id =
     (case udp_sessions self session_id of
        None \<Rightarrow> (Err session_missing, self)
      | Some session \<Rightarrow>
          if udp_state session \<noteq> Running
          then (Err (session_invalid_state ''session is not running''), self)
          else if udp_sender_config_of session = None
          then (Err (session_invalid_state ''session is not a UDP sender''), self)
          else
            (case udp_destination session of
               None \<Rightarrow> (Err (session_invalid_state ''session is not a UDP sender''), self)
             | Some target \<Rightarrow>
                 let session = session\<lparr>udp_destination := None\<rparr> in
                 (case udp_socket session of
                    None \<Rightarrow> (Err (session_invalid_state ''session sender socket was already consumed''),
                             put_session self session_id (UdpMut session))
                  | Some socket \<Rightarrow>
                      let session = session\<lparr>udp_socket := None\<rparr> in
                      (case udp_sender_config_of session of
                         None \<Rightarrow> (Err (session_invalid_state ''session sender configuration is missing''),
                                  put_session self session_id (UdpMut session))
                       | Some config \<Rightarrow>
                           (Ok (SenderUdp socket config target),
                            put_session self session_id
                              (UdpMut (session\<lparr>udp_sender_config_of := None\<rparr>)))))))"

definition take_udp_bidirectional ::
  "'h session_coordinator \<Rightarrow> bytes \<Rightarrow> 'h prepared_socket_bidirectional result \<times> 'h session_coordinator" where
  "take_udp_bidirectional self session_id =
     (case udp_sessions self session_id of
        None \<Rightarrow> (Err session_missing, self)
      | Some session \<Rightarrow>
          if udp_state session \<noteq> Running
          then (Err (session_invalid_state ''session is not running''), self)
          else
            (case udp_socket session of
               None \<Rightarrow> (Err (session_invalid_state ''session UDP socket was already consumed''), self)
             | Some socket \<Rightarrow>
                 let session = session\<lparr>udp_socket := None\<rparr> in
                 (case auth_source_port (udp_authorization session) of
                    None \<Rightarrow> (Err (session_invalid_state ''UDP authorization is missing its source port''),
                             put_session self session_id (UdpMut session))
                  | Some source_port \<Rightarrow>
                      let receiver = udp_receiver_config_of session_id session source_port in
                      (case udp_destination session of
                         None \<Rightarrow> (Err (session_invalid_state ''session is not bidirectional''),
                                  put_session self session_id (UdpMut session))
                       | Some target \<Rightarrow>
                           let session = session\<lparr>udp_destination := None\<rparr> in
                           (case udp_sender_config_of session of
                              None \<Rightarrow>
                                (Err (session_invalid_state ''session sender configuration is missing''),
                                 put_session self session_id (UdpMut session))
                            | Some sender \<Rightarrow>
                                (Ok (BidirectionalUdp socket receiver sender target),
                                 put_session self session_id
                                   (UdpMut (session\<lparr>udp_sender_config_of := None\<rparr>))))))))"

section \<open>Starting\<close>

definition nanoseconds_per_second :: u64 where
  "nanoseconds_per_second = 1000000000"

text \<open>The session is written back after every mutation of its life cycle.\<close>

definition on_lifecycle ::
  "bytes \<Rightarrow> 'h session_view \<Rightarrow> (speed_test_lifecycle \<Rightarrow> 'a result \<times> speed_test_lifecycle)
     \<Rightarrow> 'h session_coordinator \<Rightarrow> 'h session_view result \<times> 'h session_coordinator" where
  "on_lifecycle session_id session f self =
     (case f (lifecycle_of session) of (r, l) \<Rightarrow>
        let session = set_lifecycle l session in
        (and_then r (\<lambda>_. Ok session), put_session self session_id session))"

definition start ::
  "'h session_coordinator \<Rightarrow> bytes \<Rightarrow> string \<Rightarrow> u64 \<Rightarrow> u64
     \<Rightarrow> node_connection_state result \<times> 'h session_coordinator" where
  "start self session_id operation_id start_at now =
     (case operations self operation_id of
        Some rec \<Rightarrow> (matching_start rec session_id start_at, self)
      | None \<Rightarrow>
          (case session_mut self session_id of
             None \<Rightarrow> (Err session_missing, self)
           | Some session \<Rightarrow>
               if auth_expires (authorization session) < now div nanoseconds_per_second
               then (Err (authorization_expired ''data-plane authorization expired''), self)
               else if state_of session \<noteq> TestReady
               then (Err (session_invalid_state ''session is not ready''), self)
               else if start_at div nanoseconds_per_second > auth_expires (authorization session)
               then (Err (authorization_expired
                 ''scheduled start exceeds data-plane authorization lifetime''), self)
               else
                 try_with (on_lifecycle session_id session (\<lambda>l. mark_ready l RemotePeer) self)
                   (\<lambda>session self.
                 try_with (on_lifecycle session_id session (\<lambda>l. schedule_start l start_at now) self)
                   (\<lambda>session self.
                 let st = state_of session in
                 (Ok st, record_operation operation_id (OpStart session_id start_at st) self)))))"

definition begin_scheduled ::
  "'h session_coordinator \<Rightarrow> bytes \<Rightarrow> u64 \<Rightarrow> node_connection_state result \<times> 'h session_coordinator" where
  "begin_scheduled self session_id now =
     (case session_mut self session_id of
        None \<Rightarrow> (Err session_missing, self)
      | Some session \<Rightarrow>
          if state_of session \<noteq> TestReady
          then (Err (session_invalid_state ''session is not waiting for scheduled start''), self)
          else if now div nanoseconds_per_second > auth_expires (authorization session)
          then (Err (authorization_expired
            ''data-plane authorization expired before scheduled start''), self)
          else
            try_with (on_lifecycle session_id session (\<lambda>l. begin_warmup l now) self) (\<lambda>session self.
            let session = set_state Running session in
            (Ok (state_of session), put_session self session_id session)))"

definition has_tcp_destination :: "'h session_coordinator \<Rightarrow> bytes \<Rightarrow> bool" where
  "has_tcp_destination self session_id =
     (case tcp_sessions self session_id of None \<Rightarrow> False | Some session \<Rightarrow> tcp_destination session \<noteq> None)"

definition has_udp_destination :: "'h session_coordinator \<Rightarrow> bytes \<Rightarrow> bool" where
  "has_udp_destination self session_id =
     (case udp_sessions self session_id of None \<Rightarrow> False | Some session \<Rightarrow> udp_destination session \<noteq> None)"

definition begin_and_take_receiver ::
  "'h session_coordinator \<Rightarrow> bytes \<Rightarrow> u64 \<Rightarrow> 'h prepared_socket_receiver result \<times> 'h session_coordinator" where
  "begin_and_take_receiver self session_id now =
     (if has_tcp_destination self session_id \<or> has_udp_destination self session_id
      then (Err (session_invalid_state ''session is a TCP sender''), self)
      else
        try_with (begin_scheduled self session_id now) (\<lambda>_ self.
        if tcp_sessions self session_id \<noteq> None then
          try_with (take_tcp_listener self session_id) (\<lambda>(listener, config) self.
            (Ok (ReceiverTcp listener config), self))
        else
          try_with (take_udp_socket self session_id) (\<lambda>(socket, config) self.
            (Ok (ReceiverUdp socket config), self))))"

definition begin_and_take_sender ::
  "'h session_coordinator \<Rightarrow> bytes \<Rightarrow> u64 \<Rightarrow> 'h prepared_socket_sender result \<times> 'h session_coordinator" where
  "begin_and_take_sender self session_id now =
     (let tcp_sender = has_tcp_destination self session_id;
          udp_sender = has_udp_destination self session_id in
      if \<not> tcp_sender \<and> \<not> udp_sender
      then (Err (session_invalid_state ''session is not a socket sender''), self)
      else
        try_with (begin_scheduled self session_id now) (\<lambda>_ self.
        if tcp_sender then take_tcp_sender self session_id else take_udp_sender self session_id))"

definition begin_and_take_bidirectional ::
  "'h session_coordinator \<Rightarrow> bytes \<Rightarrow> u64
     \<Rightarrow> 'h prepared_socket_bidirectional result \<times> 'h session_coordinator" where
  "begin_and_take_bidirectional self session_id now =
     (let tcp = (case tcp_sessions self session_id of None \<Rightarrow> False
                 | Some session \<Rightarrow> tcp_destination session \<noteq> None \<and> tcp_sender_config session \<noteq> None);
          udp = (case udp_sessions self session_id of None \<Rightarrow> False
                 | Some session \<Rightarrow> udp_destination session \<noteq> None \<and> udp_sender_config_of session \<noteq> None) in
      if \<not> tcp \<and> \<not> udp
      then (Err (session_invalid_state ''session is not bidirectional''), self)
      else
        try_with (begin_scheduled self session_id now) (\<lambda>_ self.
        if tcp then take_tcp_bidirectional self session_id else take_udp_bidirectional self session_id))"

definition begin_and_take_dpdk_receiver ::
  "'h session_coordinator \<Rightarrow> bytes \<Rightarrow> u64 \<Rightarrow> prepared_dpdk_receiver result \<times> 'h session_coordinator" where
  "begin_and_take_dpdk_receiver self session_id now =
     (if dpdk_sessions self session_id = None
      then (Err (session_invalid_state ''session is not a DPDK receiver''), self)
      else
        try_with (begin_scheduled self session_id now) (\<lambda>_ self.
        case dpdk_sessions self session_id of
          None \<Rightarrow> (Err (session_invalid_state ''session is not a DPDK receiver''), self)
        | Some session \<Rightarrow>
            (case dpdk_plan session of
               None \<Rightarrow> (Err (session_invalid_state ''DPDK receiver worker was already taken''), self)
             | Some plan \<Rightarrow>
                 (Ok plan, put_session self session_id (DpdkMut (session\<lparr>dpdk_plan := None\<rparr>))))))"

section \<open>Ending\<close>

definition release_reservation ::
  "'h session_coordinator \<Rightarrow> string \<Rightarrow> reservation result \<times> 'h session_coordinator" where
  "release_reservation self rid =
     try_with (on_resources self (\<lambda>m. begin_release m rid)) (\<lambda>_ self.
     on_resources self (\<lambda>m. finish_release m rid))"

definition stop_session ::
  "'h session_coordinator \<Rightarrow> bytes \<Rightarrow> string \<Rightarrow> node_connection_state result \<times> 'h session_coordinator" where
  "stop_session self session_id operation_id =
     (case operations self operation_id of
        Some rec \<Rightarrow> (matching_stop rec session_id, self)
      | None \<Rightarrow>
          if session_state self session_id = Some Canceled
          then (Ok Canceled, record_operation operation_id (OpStop session_id Canceled) self)
          else
            (case session_mut self session_id of
               None \<Rightarrow> (Err session_missing, self)
             | Some session \<Rightarrow>
                 if state_of session \<notin> {TestReady, Running, Finalizing}
                 then (Err (session_invalid_state ''session cannot be canceled from current state''), self)
                 else
                   let self = put_session self session_id (close_endpoint (set_state Canceled session)) in
                   try_with (release_reservation self (reservation_of session)) (\<lambda>_ self.
                   (Ok Canceled, record_operation operation_id (OpStop session_id Canceled) self))))"

text \<open>
  The common part of \<open>complete\<close> and \<open>fail\<close> after their state check: keep the result as pending (or
  refuse a different one), release, close, and publish the result.
\<close>

definition publish_result ::
  "'h session_coordinator \<Rightarrow> bytes \<Rightarrow> test_result \<Rightarrow> string \<Rightarrow> node_connection_state
     \<Rightarrow> test_result result \<times> 'h session_coordinator" where
  "publish_result self session_id res rid st =
     try_with
       (case pending_results self session_id of
          Some pending \<Rightarrow> (if pending \<noteq> res then Err operation_conflict else Ok (), self)
        | None \<Rightarrow> (Ok (), self\<lparr>pending_results := (pending_results self)(session_id \<mapsto> res)\<rparr>)) (\<lambda>_ self.
     try_with (release_reservation self rid) (\<lambda>_ self.
     case session_mut self session_id of
       None \<Rightarrow> (Err session_missing, self)
     | Some session \<Rightarrow>
         let self = put_session self session_id (set_state st (close_endpoint session));
             self = self\<lparr>pending_results := (pending_results self)(session_id := None)\<rparr> in
         (Ok res, self\<lparr>results := (results self)(session_id \<mapsto> res)\<rparr>)))"

definition complete ::
  "(bytes \<Rightarrow> string + 'n json) \<Rightarrow> (bytes \<Rightarrow> bytes) \<Rightarrow> 'h session_coordinator \<Rightarrow> bytes \<Rightarrow> bytes
     \<Rightarrow> test_result result \<times> 'h session_coordinator" where
  "complete from_slice sha256 self session_id js =
     try_with (validate_result_json from_slice js, self) (\<lambda>_ self.
     case results self session_id of
       Some existing \<Rightarrow>
         (if result_json existing = js then Ok existing else Err operation_conflict, self)
     | None \<Rightarrow>
         let res = \<lparr>result_session = session_id, result_json = js, result_checksum = sha256 js\<rparr> in
         (case session_mut self session_id of
            None \<Rightarrow> (Err session_missing, self)
          | Some session \<Rightarrow>
              if state_of session \<notin> {Running, Finalizing}
              then (Err (session_invalid_state ''only a running session can complete''), self)
              else
                let session = (if state_of session = Running then set_state Finalizing session else session);
                    self = put_session self session_id session in
                publish_result self session_id res (reservation_of session) Completed))"

definition fail_session ::
  "(bytes \<Rightarrow> string + 'n json) \<Rightarrow> (bytes \<Rightarrow> bytes) \<Rightarrow> 'h session_coordinator \<Rightarrow> bytes \<Rightarrow> bytes
     \<Rightarrow> test_result result \<times> 'h session_coordinator" where
  "fail_session from_slice sha256 self session_id js =
     try_with (validate_result_json from_slice js, self) (\<lambda>_ self.
     case results self session_id of
       Some existing \<Rightarrow>
         (if result_json existing = js then Ok existing else Err operation_conflict, self)
     | None \<Rightarrow>
         let res = \<lparr>result_session = session_id, result_json = js, result_checksum = sha256 js\<rparr> in
         (case session_mut self session_id of
            None \<Rightarrow> (Err session_missing, self)
          | Some session \<Rightarrow>
              if state_of session \<notin> {TestReady, Running, Finalizing}
              then (Err (session_invalid_state ''session cannot transition to failed''), self)
              else
                let session = set_state Finalizing session;
                    self = put_session self session_id session in
                publish_result self session_id res (reservation_of session) Failed))"

definition test_result_of :: "'h session_coordinator \<Rightarrow> bytes \<Rightarrow> test_result result" where
  "test_result_of self session_id =
     (case results self session_id of
        Some res \<Rightarrow> Ok res
      | None \<Rightarrow>
          if session_exists self session_id
          then Err (new_error InvalidState ''test result is not ready'' True)
          else Err session_missing)"

end
