(* ===== verification/Node_Wire.thy ===== *)
theory Node_Wire
  imports Node_Session
begin

text \<open>
  The messages of the control plane (src/crates/node-protocol/src/wire.rs) and the planning of a speed
  session from a request and the capabilities of the remote node (src/crates/node/src/planner.rs).
\<close>

section \<open>Messages (wire.rs)\<close>

definition PROTOCOL_MAJOR :: u32 where
  "PROTOCOL_MAJOR = 1"

definition PROTOCOL_MINOR :: u32 where
  "PROTOCOL_MINOR = 1"

record hello_request =
  hello_node_id :: bytes
  hello_node_name :: string
  hello_min_minor :: u32
  hello_max_minor :: u32

record hello_response =
  hello_selected_minor :: u32
  hello_response_node :: bytes
  hello_response_name :: string

record pair_request =
  pair_node_id :: bytes
  pair_public_key :: bytes

record pair_response =
  pair_trusted :: bool
  pair_fingerprint :: string

record capability_message =
  message_capability :: u32
  message_min_version :: u32
  message_max_version :: u32
  message_available :: bool

record prepare_test =
  wire_session_id :: bytes
  wire_operation_id :: string
  wire_test_type :: string
  wire_backend :: string
  wire_direction :: string
  wire_duration_ms :: u64
  wire_warmup_ms :: u64
  wire_cooldown_ms :: u64
  wire_streams :: u32
  wire_frame_size :: u32
  wire_payload_size :: u32
  wire_target_rate :: u64
  wire_mtu :: u32
  wire_source_port :: u32
  wire_receive_port :: u32
  wire_pci :: string
  wire_remote_pci :: string
  wire_remote_mac :: string

record prepare_test_response =
  response_ready :: bool
  response_data_port :: u32
  response_tag :: string
  response_source_port :: u32

record start_test =
  start_session_id :: bytes
  start_operation_id :: string
  start_time :: u64

record stop_test =
  stop_session_id :: bytes
  stop_operation_id :: string

record test_status =
  status_session_id :: bytes
  status_state :: string

record protocol_error =
  protocol_code :: string
  protocol_message :: string
  protocol_retryable :: bool

datatype control_message =
    HelloRequest hello_request
  | HelloResponse hello_response
  | PairRequest pair_request
  | PairResponse pair_response
  | CapabilityRequest
  | CapabilityResponse "capability_message list"
  | PrepareTest prepare_test
  | PrepareTestResponse prepare_test_response
  | StartTest start_test
  | StopTest stop_test
  | TestStatus test_status
  | TestResult test_result
  | TestResultRequest bytes
  | Ping u64
  | Pong u64
  | ErrorMessage protocol_error

record envelope =
  protocol_major :: u32
  protocol_minor :: u32
  request_id :: bytes
  message_of :: "control_message option"

section \<open>Capabilities and plans (planner.rs)\<close>

definition CAPABILITY_TCP_SPEED :: u32 where
  "CAPABILITY_TCP_SPEED = 0x0001"

definition CAPABILITY_UDP_SPEED :: u32 where
  "CAPABILITY_UDP_SPEED = 0x0002"

definition CAPABILITY_BIDIRECTIONAL :: u32 where
  "CAPABILITY_BIDIRECTIONAL = 0x0003"

definition CAPABILITY_LATENCY :: u32 where
  "CAPABILITY_LATENCY = 0x0004"

definition CAPABILITY_DPDK :: u32 where
  "CAPABILITY_DPDK = 0x0005"

definition CAPABILITY_AF_XDP :: u32 where
  "CAPABILITY_AF_XDP = 0x0006"

definition CAPABILITY_RIO :: u32 where
  "CAPABILITY_RIO = 0x0007"

definition CAPABILITY_JUMBO_FRAME :: u32 where
  "CAPABILITY_JUMBO_FRAME = 0x000B"

definition CAPABILITY_RAW_PACKET_GENERATOR :: u32 where
  "CAPABILITY_RAW_PACKET_GENERATOR = 0x000C"

definition CAPABILITY_LATENCY_UNDER_LOAD :: u32 where
  "CAPABILITY_LATENCY_UNDER_LOAD = 0x000D"

definition REQUIRED_CAPABILITY_VERSION :: u32 where
  "REQUIRED_CAPABILITY_VERSION = 1"

lemmas capability_ids = CAPABILITY_TCP_SPEED_def CAPABILITY_UDP_SPEED_def CAPABILITY_BIDIRECTIONAL_def
  CAPABILITY_LATENCY_def CAPABILITY_DPDK_def CAPABILITY_AF_XDP_def CAPABILITY_RIO_def
  CAPABILITY_JUMBO_FRAME_def CAPABILITY_RAW_PACKET_GENERATOR_def CAPABILITY_LATENCY_UNDER_LOAD_def

record speed_session_plan =
  plan_capabilities :: "u32 list"
  plan_prepare :: prepare_test

record local_data_plane_ports =
  port_send :: u16
  port_receive :: u16

definition wire_invalid :: "string \<Rightarrow> nettool_error" where
  "wire_invalid m = new_error InvalidArgument m False"

definition wire_protocol :: "string \<Rightarrow> nettool_error" where
  "wire_protocol m = new_error ProtocolInvalid m False"

text \<open>The format \<open>{:04X}\<close>.\<close>

fun upper_hex :: "nat \<Rightarrow> string" where
  "upper_hex n = (if n < 16 then [hex_upper n] else upper_hex (n div 16) @ [hex_upper (n mod 16)])"

declare upper_hex.simps [simp del]

definition format_04X :: "u32 \<Rightarrow> string" where
  "format_04X v = (let ds = upper_hex (unat v) in replicate (4 - length ds) (CHR ''0'') @ ds)"

text \<open>The \<open>BTreeSet\<close> of required capabilities is a sorted list without duplicates.\<close>

definition required_capabilities :: "speed_run_request \<Rightarrow> u32 list" where
  "required_capabilities req =
     (let required = insort_insert (case speed_protocol_of req of
            SpeedTcp \<Rightarrow> CAPABILITY_TCP_SPEED
          | SpeedUdp \<Rightarrow> CAPABILITY_UDP_SPEED
          | SpeedRaw \<Rightarrow> CAPABILITY_RAW_PACKET_GENERATOR) [];
          required = (if speed_direction_of req = Bidirectional
            then insort_insert CAPABILITY_BIDIRECTIONAL required else required);
          required = (if speed_backend req = ''dpdk'' then insort_insert CAPABILITY_DPDK required
            else if speed_backend req = ''af_xdp'' then insort_insert CAPABILITY_AF_XDP required
            else if speed_backend req = ''rio'' then insort_insert CAPABILITY_RIO required
            else required);
          required = (if (case frame_size req of None \<Rightarrow> False | Some bytes \<Rightarrow> bytes > 1518)
            then insort_insert CAPABILITY_JUMBO_FRAME required else required) in
      if latency_under_load req
      then insort_insert CAPABILITY_LATENCY_UNDER_LOAD (insort_insert CAPABILITY_LATENCY required)
      else required)"

fun check_remote :: "u32 list \<Rightarrow> capability_message list \<Rightarrow> unit result" where
  "check_remote known [] = Ok ()"
| "check_remote known (capability # rest) =
     (if message_capability capability \<in> set known
      then Err (wire_protocol ''remote capability response contains duplicate IDs'')
      else if message_min_version capability = 0
        \<or> message_min_version capability > message_max_version capability
        \<or> message_max_version capability = 0
      then Err (wire_protocol ''remote capability response contains an invalid version range'')
      else check_remote (message_capability capability # known) rest)"

definition offers :: "capability_message list \<Rightarrow> u32 \<Rightarrow> bool" where
  "offers remote required \<longleftrightarrow>
     list_ex (\<lambda>capability. message_capability capability = required \<and> message_available capability
       \<and> message_min_version capability \<le> REQUIRED_CAPABILITY_VERSION
       \<and> message_max_version capability \<ge> REQUIRED_CAPABILITY_VERSION) remote"

fun check_required :: "capability_message list \<Rightarrow> u32 list \<Rightarrow> unit result" where
  "check_required remote [] = Ok ()"
| "check_required remote (required # rest) =
     (if \<not> offers remote required
      then Err ((new_error ProtocolIncompatible
        ''remote Node does not provide a required speed capability'' False)
          \<lparr>details := [(''capability_id'', ''0x'' @ format_04X required)]\<rparr>)
      else check_required remote rest)"

definition validate_capabilities :: "u32 list \<Rightarrow> capability_message list \<Rightarrow> unit result" where
  "validate_capabilities required remote =
     and_then (check_remote [] remote) (\<lambda>_. check_required remote required)"

fun protocol_name :: "speed_protocol \<Rightarrow> string" where
  "protocol_name SpeedTcp = ''tcp''"
| "protocol_name SpeedUdp = ''udp''"
| "protocol_name SpeedRaw = ''raw''"

fun direction_name :: "speed_direction \<Rightarrow> string" where
  "direction_name Upload = ''upload''"
| "direction_name Download = ''download''"
| "direction_name Bidirectional = ''bidirectional''"

definition unwrap_or_default :: "string option \<Rightarrow> string" where
  "unwrap_or_default v = (case v of None \<Rightarrow> [] | Some s \<Rightarrow> s)"

definition plan_speed_session ::
  "speed_run_request \<Rightarrow> string \<Rightarrow> bytes \<Rightarrow> local_data_plane_ports \<Rightarrow> capability_message list
     \<Rightarrow> speed_session_plan result" where
  "plan_speed_session req operation_id session_id ports remote =
     and_then (validate_speed_request req) (\<lambda>_.
     if str_blank operation_id \<or> session_id = replicate 16 0
     then Err (wire_invalid ''speed operation and session IDs must be non-empty'')
     else
     let sends = (speed_direction_of req \<in> {Upload, Bidirectional});
         receives = (speed_direction_of req \<in> {Download, Bidirectional}) in
     if speed_protocol_of req = SpeedUdp \<and> sends \<and> port_send ports = 0
     then Err (wire_invalid ''UDP source data port must be dynamically allocated before prepare'')
     else if speed_protocol_of req \<noteq> SpeedRaw \<and> receives \<and> port_receive ports = 0
     then Err (wire_invalid ''local receive data port must be dynamically allocated before prepare'')
     else if speed_protocol_of req = SpeedRaw \<and> ports \<noteq> \<lparr>port_send = 0, port_receive = 0\<rparr>
     then Err (wire_invalid ''raw Ethernet does not use socket data ports'')
     else
     let required = required_capabilities req in
     and_then (validate_capabilities required remote) (\<lambda>_.
     Ok \<lparr>plan_capabilities = required,
         plan_prepare =
           \<lparr>wire_session_id = session_id, wire_operation_id = operation_id,
            wire_test_type = protocol_name (speed_protocol_of req), wire_backend = speed_backend req,
            wire_direction = direction_name (speed_direction_of req),
            wire_duration_ms = duration_ms req, wire_warmup_ms = warmup_ms req,
            wire_cooldown_ms = cooldown_ms req,
            wire_streams = (case speed_streams req of None \<Rightarrow> 0 | Some n \<Rightarrow> ucast n),
            wire_frame_size = (case frame_size req of None \<Rightarrow> 0 | Some n \<Rightarrow> ucast n),
            wire_payload_size = 0,
            wire_target_rate = (case target_rate_bps req of None \<Rightarrow> 0 | Some n \<Rightarrow> n),
            wire_mtu = 0, wire_source_port = ucast (port_send ports),
            wire_receive_port = ucast (port_receive ports),
            wire_pci = unwrap_or_default (accelerated_pci_address req),
            wire_remote_pci = unwrap_or_default (remote_accelerated_pci_address req),
            wire_remote_mac = unwrap_or_default (remote_mac_address req)\<rparr>\<rparr>))"

section \<open>What a plan requires\<close>

lemma check_remote_Ok:
  "check_remote known remote = Ok () \<longleftrightarrow>
     distinct (map message_capability remote) \<and> set (map message_capability remote) \<inter> set known = {}
     \<and> (\<forall>c \<in> set remote. 1 \<le> message_min_version c \<and> message_min_version c \<le> message_max_version c)"
proof (induction remote arbitrary: known)
  case (Cons c rest)
  have range: "\<not> (a = 0 \<or> b < a \<or> b = 0) \<longleftrightarrow> 1 \<le> a \<and> a \<le> b" for a b :: u32
    using unat_gt_0 [of a] unat_gt_0 [of b] by (auto simp: word_le_nat_alt word_less_nat_alt)
  show ?case
    using Cons.IH [of "message_capability c # known"] range [of "message_min_version c" "message_max_version c"] by auto
qed simp

lemma check_required_Ok: "check_required remote required = Ok () \<longleftrightarrow> (\<forall>r \<in> set required. offers remote r)"
  by (induction required) auto

lemma required_capabilities_set:
  "set (required_capabilities req) =
     {case speed_protocol_of req of SpeedTcp \<Rightarrow> CAPABILITY_TCP_SPEED | SpeedUdp \<Rightarrow> CAPABILITY_UDP_SPEED
        | SpeedRaw \<Rightarrow> CAPABILITY_RAW_PACKET_GENERATOR}
     \<union> (if speed_direction_of req = Bidirectional then {CAPABILITY_BIDIRECTIONAL} else {})
     \<union> (if speed_backend req = ''dpdk'' then {CAPABILITY_DPDK} else if speed_backend req = ''af_xdp''
        then {CAPABILITY_AF_XDP} else if speed_backend req = ''rio'' then {CAPABILITY_RIO} else {})
     \<union> (case frame_size req of Some bytes \<Rightarrow> if bytes > 1518 then {CAPABILITY_JUMBO_FRAME} else {} | None \<Rightarrow> {})
     \<union> (if latency_under_load req then {CAPABILITY_LATENCY, CAPABILITY_LATENCY_UNDER_LOAD} else {})"
  by (auto simp: required_capabilities_def Let_def set_insort_insert split: option.splits speed_protocol.splits)

lemma sorted_required_capabilities:
  "sorted (required_capabilities req)" "distinct (required_capabilities req)"
  by (simp_all add: required_capabilities_def Let_def sorted_insort_insert distinct_insort_insert)

end
