(* ===== verification/Node_Service.thy ===== *)
theory Node_Service
  imports Node_Wire
begin

text \<open>
  Both ends of the control plane: the dispatcher of an authenticated connection
  (src/crates/node/src/server.rs), the client (client.rs) and the orchestration of a remote speed
  session (orchestrator.rs).

  The dispatcher's coordinator is shared between connections and is an explicit part of the state; a
  call holds its lock while it works.  The client's stream is a function that takes the peer's state
  and the request envelope and returns the answer and the next peer state; the frame codec in between
  is Node_Protocol's.  TLS, certificate parsing and timeouts are not modelled.
\<close>

section \<open>The dispatcher (server.rs)\<close>

definition DEFAULT_TCP_PAYLOAD_BYTES :: nat where
  "DEFAULT_TCP_PAYLOAD_BYTES = 64 * 1024"

definition DEFAULT_UDP_DATAGRAM_BYTES :: nat where
  "DEFAULT_UDP_DATAGRAM_BYTES = 1200"

definition DEFAULT_UDP_IDLE_TIMEOUT_MILLISECONDS :: u64 where
  "DEFAULT_UDP_IDLE_TIMEOUT_MILLISECONDS = 2000"

record local_node_identity =
  identity_node_id :: bytes
  identity_name :: string

record node_control_service =
  service_local :: local_node_identity
  expected_peer_node_id :: bytes
  peer_address :: ip_addr
  bind_address :: ip_addr
  selected_minor :: "u32 option"
  dpdk_available :: bool

definition new_service ::
  "local_node_identity \<Rightarrow> bytes \<Rightarrow> ip_addr \<Rightarrow> ip_addr \<Rightarrow> bool \<Rightarrow> node_control_service" where
  "new_service local expected peer bind dpdk =
     \<lparr>service_local = local, expected_peer_node_id = expected, peer_address = peer,
      bind_address = bind, selected_minor = None, dpdk_available = dpdk\<rparr>"

definition validate_envelope :: "envelope \<Rightarrow> unit result" where
  "validate_envelope req =
     (if protocol_major req \<noteq> PROTOCOL_MAJOR \<or> protocol_minor req > PROTOCOL_MINOR
      then Err (new_error ProtocolIncompatible ''control request protocol version is incompatible'' False)
      else if length (request_id req) \<noteq> 16 \<or> list_all (\<lambda>b. b = 0) (request_id req)
      then Err (wire_protocol ''control request ID must be non-zero 128-bit bytes'')
      else Ok ())"

definition parse_session_id :: "bytes \<Rightarrow> bytes result" where
  "parse_session_id value =
     (if length value \<noteq> 16 then Err (wire_protocol ''session ID must be 128-bit bytes'')
      else if value = replicate 16 0 then Err (wire_protocol ''session ID must not be zero'')
      else Ok value)"

definition authorization_ttl :: "prepare_test \<Rightarrow> u64 result" where
  "authorization_ttl prepare =
     and_then (ok_or (wire_invalid ''test duration overflow'')
       (Option.bind (checked_add (wire_warmup_ms prepare) (wire_duration_ms prepare))
         (\<lambda>v. checked_add v (wire_cooldown_ms prepare)))) (\<lambda>total_ms.
     and_then (ok_or (wire_invalid ''test duration overflow'') (checked_add total_ms 999)) (\<lambda>t.
     Ok (max 10 (min 3600 (sat_add (t div 1000) 10)))))"

definition runtime_capabilities :: "bool \<Rightarrow> capability_message list" where
  "runtime_capabilities dpdk =
     map (\<lambda>(i, available). \<lparr>message_capability = i, message_min_version = 1, message_max_version = 1,
            message_available = available\<rparr>)
       [(CAPABILITY_TCP_SPEED, True), (CAPABILITY_UDP_SPEED, True), (CAPABILITY_DPDK, dpdk),
        (CAPABILITY_RAW_PACKET_GENERATOR, dpdk)]"

fun state_name :: "node_connection_state \<Rightarrow> string" where
  "state_name TestReady = ''TEST_READY''"
| "state_name Running = ''RUNNING''"
| "state_name Finalizing = ''FINALIZING''"
| "state_name Completed = ''COMPLETED''"
| "state_name Canceled = ''CANCELED''"
| "state_name _ = ''FAILED''"

definition protocol_error_of :: "nettool_error \<Rightarrow> protocol_error" where
  "protocol_error_of e =
     \<lparr>protocol_code = as_str (code e), protocol_message = message e, protocol_retryable = retryable e\<rparr>"

definition handle_hello ::
  "node_control_service \<Rightarrow> hello_request \<Rightarrow> control_message result \<times> node_control_service" where
  "handle_hello self hello =
     (if selected_minor self \<noteq> None
      then (Err (wire_protocol ''Hello cannot be repeated on an active connection''), self)
      else if hello_node_id hello \<noteq> expected_peer_node_id self
      then (Err (new_error NodeTlsFailed ''Hello Node ID does not match the authenticated peer'' False), self)
      else if str_blank (hello_node_name hello) \<or> hello_min_minor hello > hello_max_minor hello
        \<or> hello_min_minor hello > PROTOCOL_MINOR
      then (Err (new_error ProtocolIncompatible ''Hello version range or Node name is invalid'' False), self)
      else
        let selected = min (hello_max_minor hello) PROTOCOL_MINOR in
        (Ok (HelloResponse \<lparr>hello_selected_minor = selected,
               hello_response_node = identity_node_id (service_local self),
               hello_response_name = identity_name (service_local self)\<rparr>),
         self\<lparr>selected_minor := Some selected\<rparr>))"

text \<open>The prepared session as the response tells it.\<close>

definition prepare_response :: "u32 \<Rightarrow> string \<Rightarrow> u32 \<Rightarrow> control_message" where
  "prepare_response port tag source =
     PrepareTestResponse \<lparr>response_ready = True, response_data_port = port, response_tag = tag,
       response_source_port = source\<rparr>"

definition handle_tcp_prepare ::
  "((string \<times> reservation) list \<Rightarrow> (string \<times> reservation) list) \<Rightarrow> 'h session_os
     \<Rightarrow> node_control_service \<Rightarrow> 'h session_coordinator \<Rightarrow> prepare_test \<Rightarrow> bytes \<Rightarrow> u64 \<Rightarrow> u64
     \<Rightarrow> prepare_tcp_response result \<times> 'h session_coordinator" where
  "handle_tcp_prepare iter os self coordinator prepare session_id now ttl =
     try_with (ok_or (wire_invalid ''TCP stream count is too large'')
       (try_from_nat (unat (max (wire_streams prepare) 1)) :: u16 option), coordinator)
       (\<lambda>streams coordinator.
     let config = \<lparr>tcp_streams = streams,
           payload_bytes = max (unat (wire_payload_size prepare)) DEFAULT_TCP_PAYLOAD_BYTES,
           tcp_warmup_milliseconds = wire_warmup_ms prepare,
           tcp_measurement_milliseconds = wire_duration_ms prepare\<rparr> in
     if wire_direction prepare = ''upload'' then
       prepare_tcp iter os coordinator
         \<lparr>tcp_request_session = session_id, tcp_request_operation = wire_operation_id prepare,
          tcp_request_source_node = expected_peer_node_id self, tcp_request_source = peer_address self,
          tcp_request_bind = socket_new (bind_address self) 0, tcp_request_config = config,
          tcp_request_ttl = ttl\<rparr> now
     else
     try_with (ok_or (wire_invalid ''TCP receiver port is outside the valid range'')
       (try_from_nat (unat (wire_receive_port prepare)) :: u16 option), coordinator)
       (\<lambda>receive_port coordinator.
     if receive_port = 0
     then (Err (wire_invalid ''TCP download requires a pre-bound receiver port''), coordinator)
     else if wire_direction prepare = ''bidirectional'' then
       prepare_tcp_bidirectional iter os coordinator
         \<lparr>tcp_both_session = session_id, tcp_both_operation = wire_operation_id prepare,
          tcp_both_source_node = expected_peer_node_id self, tcp_both_source = peer_address self,
          tcp_both_bind = socket_new (bind_address self) 0,
          tcp_both_target = socket_new (peer_address self) receive_port, tcp_both_run = config,
          tcp_both_ttl = ttl\<rparr> now
     else
       prepare_tcp_sender iter os coordinator
         \<lparr>tcp_sender_session = session_id, tcp_sender_operation = wire_operation_id prepare,
          tcp_sender_source_node = identity_node_id (service_local self),
          tcp_sender_source = bind_address self,
          tcp_sender_target = socket_new (peer_address self) receive_port, tcp_sender_run = config,
          tcp_sender_ttl = ttl\<rparr> now))"

definition handle_udp_prepare ::
  "((string \<times> reservation) list \<Rightarrow> (string \<times> reservation) list) \<Rightarrow> 'h session_os
     \<Rightarrow> node_control_service \<Rightarrow> 'h session_coordinator \<Rightarrow> prepare_test \<Rightarrow> bytes \<Rightarrow> u64 \<Rightarrow> u64
     \<Rightarrow> control_message result \<times> 'h session_coordinator" where
  "handle_udp_prepare iter os self coordinator prepare session_id now ttl =
     (let datagram = max (unat (wire_payload_size prepare)) DEFAULT_UDP_DATAGRAM_BYTES;
          rate = (if wire_target_rate prepare \<noteq> 0 then Some (wire_target_rate prepare) else None) in
      if wire_direction prepare = ''bidirectional'' then
        try_with (ok_or (wire_invalid ''UDP source port is outside the valid range'')
          (try_from_nat (unat (wire_source_port prepare)) :: u16 option), coordinator)
          (\<lambda>source_port coordinator.
        try_with (ok_or (wire_invalid ''UDP receiver port is outside the valid range'')
          (try_from_nat (unat (wire_receive_port prepare)) :: u16 option), coordinator)
          (\<lambda>receive_port coordinator.
        if source_port = 0 \<or> receive_port = 0
        then (Err (wire_invalid ''UDP bidirectional requires pre-bound source and receiver ports''), coordinator)
        else
        try_with (prepare_udp_bidirectional iter os coordinator
          \<lparr>udp_both_session = session_id, udp_both_operation = wire_operation_id prepare,
           udp_both_source_node = expected_peer_node_id self,
           udp_both_source = socket_new (peer_address self) source_port,
           udp_both_bind = bind_address self,
           udp_both_target = socket_new (peer_address self) receive_port, udp_both_stream = 0,
           udp_both_datagram = datagram, udp_both_measurement = wire_duration_ms prepare,
           udp_both_rate = rate, udp_both_ttl = ttl\<rparr> now) (\<lambda>response coordinator.
        let source = (case authorization_for coordinator session_id of
              None \<Rightarrow> 0 | Some a \<Rightarrow> auth_destination_port a) in
        (Ok (prepare_response (ucast (udp_response_port response)) (udp_response_tag response) (ucast source)),
         coordinator))))
      else if wire_direction prepare \<noteq> ''upload'' then
        try_with (ok_or (wire_invalid ''UDP receiver port is outside the valid range'')
          (try_from_nat (unat (wire_receive_port prepare)) :: u16 option), coordinator)
          (\<lambda>receive_port coordinator.
        if receive_port = 0
        then (Err (wire_invalid ''UDP download requires a pre-bound receiver port''), coordinator)
        else
        try_with (prepare_udp_sender iter os coordinator
          \<lparr>udp_sender_session = session_id, udp_sender_operation = wire_operation_id prepare,
           udp_sender_source_node = identity_node_id (service_local self),
           udp_sender_source = bind_address self,
           udp_sender_target = socket_new (peer_address self) receive_port, udp_sender_stream = 0,
           udp_sender_datagram = datagram, udp_sender_measurement = wire_duration_ms prepare,
           udp_sender_rate = rate, udp_sender_ttl = ttl\<rparr> now) (\<lambda>response coordinator.
        let source = (case Option.bind (authorization_for coordinator session_id) auth_source_port of
              None \<Rightarrow> 0 | Some p \<Rightarrow> p) in
        (Ok (prepare_response 0 (udp_response_tag response) (ucast source)), coordinator)))
      else
        try_with (ok_or (wire_invalid ''UDP source port is outside the valid range'')
          (try_from_nat (unat (wire_source_port prepare)) :: u16 option), coordinator)
          (\<lambda>source_port coordinator.
        try_with (prepare_udp iter os coordinator
          \<lparr>udp_request_session = session_id, udp_request_operation = wire_operation_id prepare,
           udp_request_source_node = expected_peer_node_id self,
           udp_request_source = socket_new (peer_address self) source_port,
           udp_request_bind = socket_new (bind_address self) 0, udp_request_stream = 0,
           udp_request_datagram = datagram,
           udp_request_idle = DEFAULT_UDP_IDLE_TIMEOUT_MILLISECONDS, udp_request_ttl = ttl\<rparr> now)
          (\<lambda>response coordinator.
        (Ok (prepare_response (ucast (udp_response_port response)) (udp_response_tag response) 0),
         coordinator))))"

definition handle_prepare ::
  "((string \<times> reservation) list \<Rightarrow> (string \<times> reservation) list) \<Rightarrow> 'h session_os
     \<Rightarrow> node_control_service \<Rightarrow> 'h session_coordinator \<Rightarrow> prepare_test \<Rightarrow> u64
     \<Rightarrow> control_message result \<times> 'h session_coordinator" where
  "handle_prepare iter os self coordinator prepare now_ns =
     try_with (parse_session_id (wire_session_id prepare), coordinator) (\<lambda>session_id coordinator.
     let backend = wire_backend prepare in
     if wire_direction prepare \<notin> {''upload'', ''download'', ''bidirectional''}
     then (Err (new_error Unsupported ''unsupported speed direction'' False), coordinator)
     else if backend = ''dpdk'' \<and> \<not> dpdk_available self
     then (Err (new_error BackendNotBuilt ''Node DPDK runtime is not built'' False), coordinator)
     else if backend \<in> {''dpdk'', ''af_xdp'', ''rio''} \<and> \<not> valid_pci_bdf (wire_pci prepare)
     then (Err (wire_invalid ''accelerated prepare requires a valid PCI BDF''), coordinator)
     else if backend = ''dpdk'' \<and> \<not> valid_pci_bdf (wire_remote_pci prepare)
     then (Err (wire_invalid ''DPDK prepare requires a valid remote PCI BDF''), coordinator)
     else if backend = ''dpdk'' \<and> wire_test_type prepare = ''raw'' \<and> \<not> valid_unicast_mac (wire_remote_mac prepare)
     then (Err (wire_invalid ''DPDK raw prepare requires a valid remote unicast MAC''), coordinator)
     else
     let now = now_ns div nanoseconds_per_second in
     try_with (authorization_ttl prepare, coordinator) (\<lambda>ttl coordinator.
     if backend = ''dpdk'' \<and> wire_test_type prepare = ''raw'' then
       if wire_direction prepare \<noteq> ''upload''
       then (Err (new_error Unsupported ''DPDK raw receiver is currently supported for upload only'' False),
             coordinator)
       else
       try_with (prepare_dpdk_receiver iter os coordinator
         \<lparr>dpdk_request_session = session_id, dpdk_request_operation = wire_operation_id prepare,
          dpdk_request_source_node = expected_peer_node_id self,
          dpdk_request_pci = wire_remote_pci prepare, dpdk_request_duration = wire_duration_ms prepare,
          dpdk_request_mac = wire_remote_mac prepare, dpdk_request_ttl = ttl\<rparr> now) (\<lambda>_ coordinator.
       let tag = unwrap_or_default (map_option auth_tag (authorization_for coordinator session_id)) in
       (Ok (prepare_response 0 tag 0), coordinator))
     else if wire_test_type prepare = ''tcp'' \<and> backend \<in> {''socket'', ''native''} then
       try_with (handle_tcp_prepare iter os self coordinator prepare session_id now ttl)
         (\<lambda>response coordinator.
       (Ok (prepare_response (ucast (tcp_response_port response)) (tcp_response_tag response) 0), coordinator))
     else if wire_test_type prepare = ''udp'' \<and> backend \<in> {''socket'', ''native''} then
       handle_udp_prepare iter os self coordinator prepare session_id now ttl
     else
       (Err (new_error Unsupported ''test type/backend is not available in the socket Node runtime'' False),
        coordinator)))"

text \<open>The status a start or a stop is answered with.\<close>

definition status_message :: "bytes \<Rightarrow> node_connection_state \<Rightarrow> control_message" where
  "status_message session_id st = TestStatus \<lparr>status_session_id = session_id, status_state = state_name st\<rparr>"

definition dispatch_command ::
  "((string \<times> reservation) list \<Rightarrow> (string \<times> reservation) list) \<Rightarrow> 'h session_os
     \<Rightarrow> node_control_service \<Rightarrow> 'h session_coordinator \<Rightarrow> control_message \<Rightarrow> u64
     \<Rightarrow> control_message result \<times> 'h session_coordinator" where
  "dispatch_command iter os self coordinator msg now =
     (case msg of
        CapabilityRequest \<Rightarrow>
          (Ok (CapabilityResponse (runtime_capabilities (dpdk_available self))), coordinator)
      | PrepareTest prepare \<Rightarrow> handle_prepare iter os self coordinator prepare now
      | StartTest req \<Rightarrow>
          try_with (parse_session_id (start_session_id req), coordinator) (\<lambda>session_id coordinator.
          try_with (start coordinator session_id (start_operation_id req) (start_time req) now)
            (\<lambda>st coordinator. (Ok (status_message session_id st), coordinator)))
      | StopTest req \<Rightarrow>
          try_with (parse_session_id (stop_session_id req), coordinator) (\<lambda>session_id coordinator.
          try_with (stop_session coordinator session_id (stop_operation_id req))
            (\<lambda>st coordinator. (Ok (status_message session_id st), coordinator)))
      | TestResultRequest query \<Rightarrow>
          try_with (parse_session_id query, coordinator) (\<lambda>session_id coordinator.
          (and_then (test_result_of coordinator session_id) (\<lambda>res. Ok (TestResult res)), coordinator))
      | Ping nonce \<Rightarrow> (Ok (Pong nonce), coordinator)
      | _ \<Rightarrow> (Err (wire_protocol ''message type is not valid as a server request''), coordinator))"

definition dispatch_message ::
  "((string \<times> reservation) list \<Rightarrow> (string \<times> reservation) list) \<Rightarrow> 'h session_os
     \<Rightarrow> node_control_service \<times> 'h session_coordinator \<Rightarrow> envelope \<Rightarrow> u64
     \<Rightarrow> control_message result \<times> node_control_service \<times> 'h session_coordinator" where
  "dispatch_message iter os s req now =
     (case s of (self, coordinator) \<Rightarrow>
        try_with (validate_envelope req, s) (\<lambda>_ s.
        try_with (ok_or (wire_protocol ''control request has no message'') (message_of req), s) (\<lambda>msg s.
        case msg of
          HelloRequest hello \<Rightarrow> (case handle_hello self hello of (r, self) \<Rightarrow> (r, self, coordinator))
        | _ \<Rightarrow>
            (case selected_minor self of
               None \<Rightarrow> (Err (wire_protocol ''Hello must complete before control commands''), s)
             | Some minor \<Rightarrow>
                 if protocol_minor req > minor
                 then (Err (new_error ProtocolIncompatible
                        ''control request exceeds the negotiated protocol minor'' False), s)
                 else (case dispatch_command iter os self coordinator msg now of
                         (r, coordinator) \<Rightarrow> (r, self, coordinator))))))"

definition dispatch ::
  "((string \<times> reservation) list \<Rightarrow> (string \<times> reservation) list) \<Rightarrow> 'h session_os
     \<Rightarrow> node_control_service \<times> 'h session_coordinator \<Rightarrow> envelope \<Rightarrow> u64
     \<Rightarrow> envelope result \<times> node_control_service \<times> 'h session_coordinator" where
  "dispatch iter os s req now =
     (case dispatch_message iter os s req now of (r, self, coordinator) \<Rightarrow>
        let reply = (\<lambda>msg. Ok \<lparr>protocol_major = PROTOCOL_MAJOR,
              protocol_minor = (case selected_minor self of None \<Rightarrow> PROTOCOL_MINOR | Some m \<Rightarrow> m),
              request_id = request_id req, message_of = Some msg\<rparr>) in
        (case r of
           Ok msg \<Rightarrow> reply msg
         | Err e \<Rightarrow> reply (ErrorMessage (protocol_error_of e))
         | Panic \<Rightarrow> Panic, self, coordinator))"

section \<open>The client (client.rs)\<close>

definition RESULT_QUERY_MINIMUM_MINOR :: u32 where
  "RESULT_QUERY_MINIMUM_MINOR = 1"

record node_control_client =
  client_remote_node :: bytes
  negotiated_minor :: u32

definition remote_error :: "protocol_error \<Rightarrow> nettool_error" where
  "remote_error e =
     (new_error NodeTransportFailed (''remote Node rejected request: '' @ protocol_message e)
        (protocol_retryable e)) \<lparr>details := [(''remote_code'', protocol_code e)]\<rparr>"

text \<open>One exchange: the random request ID and the peer are arguments.\<close>

definition exchange ::
  "bytes result \<Rightarrow> ('p \<Rightarrow> envelope \<Rightarrow> envelope result \<times> 'p) \<Rightarrow> node_control_client \<Rightarrow> 'p
     \<Rightarrow> control_message \<Rightarrow> control_message result \<times> 'p" where
  "exchange random_id peer client p msg =
     try_with (random_id, p) (\<lambda>rid p.
     try_with (peer p \<lparr>protocol_major = PROTOCOL_MAJOR, protocol_minor = negotiated_minor client,
                      request_id = rid, message_of = Some msg\<rparr>) (\<lambda>response p.
     if protocol_major response \<noteq> PROTOCOL_MAJOR \<or> protocol_minor response > negotiated_minor client
     then (Err (new_error ProtocolIncompatible ''peer response protocol version is incompatible'' False), p)
     else if request_id response \<noteq> rid
     then (Err (wire_protocol ''peer response request ID mismatch''), p)
     else
       (case message_of response of
          Some (ErrorMessage e) \<Rightarrow> Err (remote_error e)
        | Some m \<Rightarrow> Ok m
        | None \<Rightarrow> Err (wire_protocol ''peer response does not contain a control message''), p)))"

definition negotiate ::
  "bytes result \<Rightarrow> ('p \<Rightarrow> envelope \<Rightarrow> envelope result \<times> 'p) \<Rightarrow> 'p \<Rightarrow> local_node_identity \<Rightarrow> bytes
     \<Rightarrow> node_control_client result \<times> 'p" where
  "negotiate random_id peer p local expected =
     (if str_blank (identity_name local)
      then (Err (wire_invalid ''local Node name must not be empty''), p)
      else
      let client = \<lparr>client_remote_node = expected, negotiated_minor = PROTOCOL_MINOR\<rparr> in
      try_with (exchange random_id peer client p (HelloRequest
        \<lparr>hello_node_id = identity_node_id local, hello_node_name = identity_name local,
         hello_min_minor = 0, hello_max_minor = PROTOCOL_MINOR\<rparr>)) (\<lambda>response p.
      case response of
        HelloResponse hello \<Rightarrow>
          if hello_response_node hello \<noteq> expected
          then (Err (new_error NodeTlsFailed ''Hello Node ID does not match the paired identity'' False), p)
          else if hello_selected_minor hello > PROTOCOL_MINOR
          then (Err (new_error ProtocolIncompatible ''peer selected an unsupported protocol minor'' False), p)
          else (Ok (client\<lparr>negotiated_minor := hello_selected_minor hello\<rparr>), p)
      | _ \<Rightarrow> (Err (wire_protocol ''Hello request received an unexpected response type''), p)))"

definition capabilities ::
  "bytes result \<Rightarrow> ('p \<Rightarrow> envelope \<Rightarrow> envelope result \<times> 'p) \<Rightarrow> node_control_client \<Rightarrow> 'p
     \<Rightarrow> capability_message list result \<times> 'p" where
  "capabilities random_id peer client p =
     try_with (exchange random_id peer client p CapabilityRequest) (\<lambda>response p.
     (case response of
        CapabilityResponse cs \<Rightarrow> Ok cs
      | _ \<Rightarrow> Err (wire_protocol ''capability request received an unexpected response type''), p))"

definition client_prepare_test ::
  "bytes result \<Rightarrow> ('p \<Rightarrow> envelope \<Rightarrow> envelope result \<times> 'p) \<Rightarrow> node_control_client \<Rightarrow> 'p \<Rightarrow> prepare_test
     \<Rightarrow> prepare_test_response result \<times> 'p" where
  "client_prepare_test random_id peer client p req =
     try_with (exchange random_id peer client p (PrepareTest req)) (\<lambda>response p.
     (case response of
        PrepareTestResponse r \<Rightarrow> Ok r
      | _ \<Rightarrow> Err (wire_protocol ''prepare test received an unexpected response type''), p))"

definition client_start_test ::
  "bytes result \<Rightarrow> ('p \<Rightarrow> envelope \<Rightarrow> envelope result \<times> 'p) \<Rightarrow> node_control_client \<Rightarrow> 'p \<Rightarrow> start_test
     \<Rightarrow> test_status result \<times> 'p" where
  "client_start_test random_id peer client p req =
     try_with (exchange random_id peer client p (StartTest req)) (\<lambda>response p.
     (case response of
        TestStatus r \<Rightarrow> Ok r
      | _ \<Rightarrow> Err (wire_protocol ''start test received an unexpected response type''), p))"

definition client_stop_test ::
  "bytes result \<Rightarrow> ('p \<Rightarrow> envelope \<Rightarrow> envelope result \<times> 'p) \<Rightarrow> node_control_client \<Rightarrow> 'p \<Rightarrow> stop_test
     \<Rightarrow> test_status result \<times> 'p" where
  "client_stop_test random_id peer client p req =
     try_with (exchange random_id peer client p (StopTest req)) (\<lambda>response p.
     (case response of
        TestStatus r \<Rightarrow> Ok r
      | _ \<Rightarrow> Err (wire_protocol ''stop test received an unexpected response type''), p))"

definition validate_test_result :: "(bytes \<Rightarrow> bytes) \<Rightarrow> test_result \<Rightarrow> bytes \<Rightarrow> unit result" where
  "validate_test_result sha256 response expected =
     (if result_session response \<noteq> expected
      then Err (wire_protocol ''test result session ID mismatch'')
      else if result_checksum response \<noteq> sha256 (result_json response)
      then Err (wire_protocol ''test result checksum mismatch'')
      else Ok ())"

definition client_test_result ::
  "(bytes \<Rightarrow> bytes) \<Rightarrow> bytes result \<Rightarrow> ('p \<Rightarrow> envelope \<Rightarrow> envelope result \<times> 'p) \<Rightarrow> node_control_client
     \<Rightarrow> 'p \<Rightarrow> bytes \<Rightarrow> test_result result \<times> 'p" where
  "client_test_result sha256 random_id peer client p session_id =
     (if session_id = replicate 16 0
      then (Err (wire_invalid ''result session ID must not be zero''), p)
      else if negotiated_minor client < RESULT_QUERY_MINIMUM_MINOR
      then (Err (new_error ProtocolIncompatible
             ''peer does not support retryable test result queries'' False), p)
      else
      try_with (exchange random_id peer client p (TestResultRequest session_id)) (\<lambda>response p.
      case response of
        TestResult res \<Rightarrow> (and_then (validate_test_result sha256 res session_id) (\<lambda>_. Ok res), p)
      | _ \<Rightarrow> (Err (wire_protocol ''result request received an unexpected response type''), p)))"

definition ping ::
  "bytes result \<Rightarrow> ('p \<Rightarrow> envelope \<Rightarrow> envelope result \<times> 'p) \<Rightarrow> node_control_client \<Rightarrow> 'p \<Rightarrow> u64
     \<Rightarrow> unit result \<times> 'p" where
  "ping random_id peer client p nonce =
     try_with (exchange random_id peer client p (Ping nonce)) (\<lambda>response p.
     (case response of
        Pong n \<Rightarrow> if n = nonce then Ok () else Err (wire_protocol ''heartbeat nonce mismatch'')
      | _ \<Rightarrow> Err (wire_protocol ''heartbeat received an unexpected response type''), p))"

section \<open>Remote sessions (orchestrator.rs)\<close>

record prepared_remote_session =
  remote_session_id :: bytes
  remote_plan :: speed_session_plan
  remote_data_port :: u16
  remote_source_port :: u16
  remote_tag :: string

definition validate_status :: "test_status \<Rightarrow> bytes \<Rightarrow> string \<Rightarrow> unit result" where
  "validate_status status expected expected_state =
     (if status_session_id status \<noteq> expected then Err (wire_protocol ''test status session ID mismatch'')
      else if status_state status \<noteq> expected_state
      then Err (new_error InvalidState
        (''remote Node returned state '' @ status_state status @ '' instead of '' @ expected_state) False)
      else Ok ())"

definition validate_status_any :: "test_status \<Rightarrow> bytes \<Rightarrow> string list \<Rightarrow> unit result" where
  "validate_status_any status expected expected_states =
     (if status_session_id status \<noteq> expected then Err (wire_protocol ''test status session ID mismatch'')
      else if status_state status \<notin> set expected_states
      then Err (new_error InvalidState (''remote Node returned unexpected state '' @ status_state status) False)
      else Ok ())"

definition validate_operation_id :: "string \<Rightarrow> unit result" where
  "validate_operation_id operation_id =
     (if str_blank operation_id then Err (wire_invalid ''Node operation ID must not be empty'') else Ok ())"

definition remote_start ::
  "bytes result \<Rightarrow> ('p \<Rightarrow> envelope \<Rightarrow> envelope result \<times> 'p) \<Rightarrow> prepared_remote_session
     \<Rightarrow> node_control_client \<Rightarrow> 'p \<Rightarrow> string \<Rightarrow> u64 \<Rightarrow> unit result \<times> 'p" where
  "remote_start random_id peer self client p operation_id start_at =
     try_with (validate_operation_id operation_id, p) (\<lambda>_ p.
     if start_at = 0 then (Err (wire_invalid ''scheduled start timestamp must be non-zero''), p)
     else
     try_with (client_start_test random_id peer client p
       \<lparr>start_session_id = remote_session_id self, start_operation_id = operation_id,
        start_time = start_at\<rparr>) (\<lambda>status p.
     (validate_status_any status (remote_session_id self) [''TEST_READY'', ''RUNNING''], p)))"

definition remote_stop ::
  "bytes result \<Rightarrow> ('p \<Rightarrow> envelope \<Rightarrow> envelope result \<times> 'p) \<Rightarrow> prepared_remote_session
     \<Rightarrow> node_control_client \<Rightarrow> 'p \<Rightarrow> string \<Rightarrow> unit result \<times> 'p" where
  "remote_stop random_id peer self client p operation_id =
     try_with (validate_operation_id operation_id, p) (\<lambda>_ p.
     try_with (client_stop_test random_id peer client p
       \<lparr>stop_session_id = remote_session_id self, stop_operation_id = operation_id\<rparr>) (\<lambda>status p.
     (validate_status status (remote_session_id self) ''CANCELED'', p)))"

definition remote_result ::
  "(bytes \<Rightarrow> bytes) \<Rightarrow> bytes result \<Rightarrow> ('p \<Rightarrow> envelope \<Rightarrow> envelope result \<times> 'p)
     \<Rightarrow> prepared_remote_session \<Rightarrow> node_control_client \<Rightarrow> 'p \<Rightarrow> test_result result \<times> 'p" where
  "remote_result sha256 random_id peer self client p =
     client_test_result sha256 random_id peer client p (remote_session_id self)"

definition prepare_remote_speed_session ::
  "bytes result \<Rightarrow> bytes result \<Rightarrow> ('p \<Rightarrow> envelope \<Rightarrow> envelope result \<times> 'p) \<Rightarrow> node_control_client
     \<Rightarrow> 'p \<Rightarrow> speed_run_request \<Rightarrow> string \<Rightarrow> bytes \<Rightarrow> local_data_plane_ports
     \<Rightarrow> prepared_remote_session result \<times> 'p" where
  "prepare_remote_speed_session id1 id2 peer client p req operation_id session_id ports =
     try_with (capabilities id1 peer client p) (\<lambda>remote p.
     try_with (plan_speed_session req operation_id session_id ports remote, p) (\<lambda>plan p.
     try_with (client_prepare_test id2 peer client p (plan_prepare plan)) (\<lambda>response p.
     if \<not> response_ready response
     then (Err (new_error InvalidState ''remote Node did not enter TEST_READY after prepare'' True), p)
     else if str_blank (response_tag response)
     then (Err (wire_protocol ''prepare response does not contain an authorization tag''), p)
     else
     try_with (ok_or (wire_protocol ''prepare response data port is outside the valid range'')
       (try_from_nat (unat (response_data_port response)) :: u16 option), p) (\<lambda>data_port p.
     try_with (ok_or (wire_protocol ''prepare response source port is outside the valid range'')
       (try_from_nat (unat (response_source_port response)) :: u16 option), p) (\<lambda>source_port p.
     let remote_receives = (speed_direction_of req \<in> {Upload, Bidirectional});
         remote_sends = (speed_direction_of req \<in> {Download, Bidirectional}) in
     if speed_protocol_of req \<noteq> SpeedRaw \<and> remote_receives \<and> data_port = 0
     then (Err (wire_protocol ''socket prepare response does not contain a dynamic data port''), p)
     else if speed_protocol_of req = SpeedUdp \<and> remote_sends \<and> source_port = 0
     then (Err (wire_protocol ''UDP prepare response does not contain the remote sender source port''), p)
     else (Ok \<lparr>remote_session_id = session_id, remote_plan = plan, remote_data_port = data_port,
               remote_source_port = source_port, remote_tag = response_tag response\<rparr>, p))))))"

text \<open>
  \<open>random_session_id\<close> draws until the value is not zero; the draws are a function of their number, and
  running out of fuel is the value None.
\<close>

fun random_session_id :: "nat \<Rightarrow> (nat \<Rightarrow> string + bytes) \<Rightarrow> nat \<Rightarrow> bytes result option" where
  "random_session_id 0 draws i = None"
| "random_session_id (Suc fuel) draws i =
     (case draws i of
        Inl e \<Rightarrow> Some (Err (new_error RandomFailed (''cannot generate Node session ID: '' @ e) False))
      | Inr value \<Rightarrow> if value \<noteq> replicate 16 0 then Some (Ok value) else random_session_id fuel draws (Suc i))"

end
