(* ===== verification/Session_Safety.thy ===== *)
theory Session_Safety
  imports Node_Session
begin

text \<open>
  The theorems of the session coordinator.  \<open>session_effect\<close> is the specification: the six ways a
  coordinator may change.  Every call is shown to be a run of such changes, and the invariant and the
  ordering of a session's states are proved of the specification once.
\<close>

section \<open>Lookups and updates\<close>

fun same_kind :: "'h session_view \<Rightarrow> 'h session_view \<Rightarrow> bool" where
  "same_kind (TcpMut a) (TcpMut b) = True"
| "same_kind (UdpMut a) (UdpMut b) = True"
| "same_kind (DpdkMut a) (DpdkMut b) = True"
| "same_kind _ _ = False"

fun endpoint_closed :: "'h session_view \<Rightarrow> bool" where
  "endpoint_closed (TcpMut session) = (tcp_listener session = None)"
| "endpoint_closed (UdpMut session) = (udp_socket session = None)"
| "endpoint_closed (DpdkMut session) = (dpdk_plan session = None)"

lemma view_simps [simp]:
  "authorization (set_state st x) = authorization x" "authorization (set_lifecycle l x) = authorization x"
  "authorization (close_endpoint x) = authorization x"
  "reservation_of (set_state st x) = reservation_of x" "reservation_of (set_lifecycle l x) = reservation_of x"
  "reservation_of (close_endpoint x) = reservation_of x"
  "state_of (set_state st x) = st" "state_of (set_lifecycle l x) = state_of x"
  "state_of (close_endpoint x) = state_of x"
  "lifecycle_of (set_state st x) = lifecycle_of x" "lifecycle_of (set_lifecycle l x) = l"
  "lifecycle_of (close_endpoint x) = lifecycle_of x"
  "set_state st (set_state st' x) = set_state st x"
  "set_lifecycle l (set_lifecycle l' x) = set_lifecycle l x"
  "set_lifecycle (lifecycle_of x) x = x"
  "close_endpoint (set_state st x) = set_state st (close_endpoint x)"
  "endpoint_closed (close_endpoint x)" "endpoint_closed (set_state st x) = endpoint_closed x"
  "same_kind x x" "same_kind x (set_state st y) = same_kind x y"
  "same_kind x (set_lifecycle l y) = same_kind x y" "same_kind x (close_endpoint y) = same_kind x y"
  by (cases x; cases y; simp)+

lemma put_simps [simp]:
  "operations (put_session s sid x) = operations s" "results (put_session s sid x) = results s"
  "pending_results (put_session s sid x) = pending_results s" "resources (put_session s sid x) = resources s"
  "put_session (s\<lparr>operations := ops\<rparr>) sid x = (put_session s sid x)\<lparr>operations := ops\<rparr>"
  "put_session (s\<lparr>results := res\<rparr>) sid x = (put_session s sid x)\<lparr>results := res\<rparr>"
  "put_session (s\<lparr>pending_results := res\<rparr>) sid x = (put_session s sid x)\<lparr>pending_results := res\<rparr>"
  "put_session (s\<lparr>resources := m\<rparr>) sid x = (put_session s sid x)\<lparr>resources := m\<rparr>"
  by (cases x; simp)+

lemma put_put: "same_kind x y \<Longrightarrow> put_session (put_session s sid x) sid y = put_session s sid y"
  by (cases x; cases y) simp_all

lemma session_mut_simps [simp]:
  "session_mut (s\<lparr>operations := ops\<rparr>) = session_mut s" "session_mut (s\<lparr>results := res\<rparr>) = session_mut s"
  "session_mut (s\<lparr>pending_results := res\<rparr>) = session_mut s" "session_mut (s\<lparr>resources := m\<rparr>) = session_mut s"
  by (auto simp: session_mut_def fun_eq_iff split: option.splits)

lemma session_mut_put:
  assumes "session_mut s sid = Some x" "same_kind x y"
  shows "session_mut (put_session s sid y) = (session_mut s)(sid \<mapsto> y)"
  using assms by (cases x; cases y) (auto simp: session_mut_def fun_eq_iff split: option.splits)

lemma session_mut_new:
  assumes "session_mut s sid = None"
  shows "session_mut (put_session s sid y) = (session_mut s)(sid \<mapsto> y)"
  using assms by (cases y) (auto simp: session_mut_def fun_eq_iff split: option.splits)

lemma put_same: "session_mut s sid = Some x \<Longrightarrow> put_session s sid x = s"
  by (cases x) (auto simp: session_mut_def fun_upd_idem split: option.splits)

lemma session_exists_mut: "session_exists s sid \<longleftrightarrow> session_mut s sid \<noteq> None"
  by (auto simp: session_exists_def session_mut_def split: option.splits)

lemma session_state_mut: "session_state s sid = map_option state_of (session_mut s sid)"
  by (auto simp: session_state_def session_mut_def option.map_comp comp_def split: option.splits)

text \<open>A session is of one kind only.\<close>

definition kinds_disjoint :: "'h session_coordinator \<Rightarrow> bool" where
  "kinds_disjoint s \<longleftrightarrow>
     dom (tcp_sessions s) \<inter> dom (udp_sessions s) = {} \<and> dom (tcp_sessions s) \<inter> dom (dpdk_sessions s) = {}
     \<and> dom (udp_sessions s) \<inter> dom (dpdk_sessions s) = {}"

lemma session_lookup:
  assumes "kinds_disjoint s"
  shows "tcp_sessions s sid = Some a \<Longrightarrow> session_mut s sid = Some (TcpMut a)"
    and "udp_sessions s sid = Some b \<Longrightarrow> session_mut s sid = Some (UdpMut b)"
    and "dpdk_sessions s sid = Some c \<Longrightarrow> session_mut s sid = Some (DpdkMut c)"
  using assms by (auto simp: kinds_disjoint_def session_mut_def split: option.splits)

lemma kinds_disjoint_put:
  "kinds_disjoint s \<Longrightarrow> session_mut s sid = Some x \<Longrightarrow> same_kind x y \<Longrightarrow> kinds_disjoint (put_session s sid y)"
  by (cases x; cases y) (auto simp: kinds_disjoint_def session_mut_def split: option.splits)

lemma kinds_disjoint_new:
  "kinds_disjoint s \<Longrightarrow> session_mut s sid = None \<Longrightarrow> kinds_disjoint (put_session s sid y)"
  by (cases y) (auto simp: kinds_disjoint_def session_mut_def split: option.splits)

lemma kinds_disjoint_simps [simp]:
  "kinds_disjoint (s\<lparr>operations := ops\<rparr>) = kinds_disjoint s" "kinds_disjoint (s\<lparr>results := res\<rparr>) = kinds_disjoint s"
  "kinds_disjoint (s\<lparr>pending_results := res\<rparr>) = kinds_disjoint s"
  "kinds_disjoint (s\<lparr>resources := m\<rparr>) = kinds_disjoint s"
  by (simp_all add: kinds_disjoint_def)

section \<open>Reservation names\<close>

lemma hex_char_inject: "a < 16 \<Longrightarrow> b < 16 \<Longrightarrow> hex_char a = hex_char b \<Longrightarrow> a = b"
proof -
  have "distinct (map hex_char [0..<16])" by code_simp
  then show "a < 16 \<Longrightarrow> b < 16 \<Longrightarrow> hex_char a = hex_char b \<Longrightarrow> a = b"
    by (auto simp: distinct_map dest: inj_onD)
qed

lemma unat_u8_div: "unat (b :: u8) div 16 < 16"
  using unsigned_less [of b, where ?'a = nat] by simp

lemma hex_bytes_inject: "hex_bytes xs = hex_bytes ys \<Longrightarrow> xs = ys"
proof (induction xs arbitrary: ys)
  case Nil
  then show ?case by (cases ys) (simp_all add: hex_bytes_def)
next
  case (Cons x xs)
  from Cons.prems obtain y zs where ys: "ys = y # zs" by (cases ys) (simp_all add: hex_bytes_def)
  have "unat x div 16 = unat y div 16" "unat x mod 16 = unat y mod 16"
    using Cons.prems hex_char_inject [of "unat x div 16" "unat y div 16"]
      hex_char_inject [of "unat x mod 16" "unat y mod 16"]
    by (simp_all add: ys hex_bytes_def unat_u8_div)
  then have "unat x = unat y" by (metis div_mult_mod_eq)
  moreover have "xs = zs" using Cons.prems by (intro Cons.IH) (simp add: ys hex_bytes_def)
  ultimately show ?case by (simp add: ys word_unat_eq_iff)
qed

lemma length_hex_bytes [simp]: "length (hex_bytes bs) = 2 * length bs"
  by (induction bs) (simp_all add: hex_bytes_def)

lemma reservation_name_inject:
  assumes "p @ hex_session_id a = q @ hex_session_id b" "length a = length b"
  shows "a = b"
  using assms append_eq_append_conv [of p q "hex_session_id a" "hex_session_id b"]
  by (auto simp: hex_session_id_def dest: hex_bytes_inject)

section \<open>The resource manager seen from a session\<close>

definition session_request :: "string \<Rightarrow> bytes \<Rightarrow> resource_key \<Rightarrow> resource_mode \<Rightarrow> reservation_request" where
  "session_request rid sid key mode =
     \<lparr>reservation_id = rid, request_session = hex_session_id sid,
      claims = [\<lparr>claim_resource = key, claim_mode = mode, claim_units = 1\<rparr>]\<rparr>"

lemma try_with_eq_Ok:
  "try_with m f = (Ok y, t) \<longleftrightarrow> (\<exists>x s. m = (Ok x, s) \<and> f x s = (Ok y, t))"
  by (cases "(m, f)" rule: try_with.cases) auto

lemma with_reservation_lookup:
  assumes "with_reservation m rid f = (Ok r, m')"
  shows "\<exists>old. map_of (reservations m) rid = Some old \<and> f old = Ok r
    \<and> map_of (reservations m') = (map_of (reservations m))(rid \<mapsto> r)"
  using assms by (auto simp: with_reservation_def update_conv' split: option.splits outcome.splits)

lemma with_reservation_elsewhere:
  "k \<noteq> rid \<Longrightarrow> map_of (reservations (snd (with_reservation m rid f))) k = map_of (reservations m) k"
  by (auto simp: with_reservation_def update_conv' split: option.splits outcome.splits)

lemma reserve_lookup:
  assumes "reserve iter m req = (Ok r, m')"
  shows "request r = req" "map_of (reservations m') = (map_of (reservations m))(reservation_id req \<mapsto> r)"
  using assms by (auto simp: reserve_def Let_def update_conv' fun_upd_idem
      split: option.splits outcome.splits if_splits)

lemma reserve_elsewhere:
  "k \<noteq> reservation_id req \<Longrightarrow> map_of (reservations (snd (reserve iter m req))) k = map_of (reservations m) k"
  by (auto simp: reserve_def Let_def update_conv' split: option.splits outcome.splits)

lemma activate_lookup:
  assumes "activate m rid = (Ok r, m')"
  shows "\<exists>old. map_of (reservations m) rid = Some old \<and> request r = request old
    \<and> reservation_state r = Active \<and> map_of (reservations m') = (map_of (reservations m))(rid \<mapsto> r)"
proof -
  obtain old where old: "map_of (reservations m) rid = Some old"
    "(case reservation_state old of Pending \<Rightarrow> Ok (old\<lparr>reservation_state := Active\<rparr>) | Active \<Rightarrow> Ok old
      | _ \<Rightarrow> Err (resource_invalid_state ''reservation cannot be activated from current state'')) = Ok r"
    "map_of (reservations m') = (map_of (reservations m))(rid \<mapsto> r)"
    using with_reservation_lookup [OF assms [unfolded activate_def]] by blast
  then show ?thesis by (cases "reservation_state old") auto
qed

lemma activate_elsewhere:
  "k \<noteq> rid \<Longrightarrow> map_of (reservations (snd (activate m rid))) k = map_of (reservations m) k"
  by (simp add: activate_def with_reservation_elsewhere)

lemma reserve_active_Ok:
  assumes "reserve_active iter s rid sid key mode = (Ok r, t)"
  shows "\<exists>m. t = s\<lparr>resources := m\<rparr> \<and> request r = session_request rid sid key mode
    \<and> reservation_state r = Active
    \<and> map_of (reservations m) = (map_of (reservations (resources s)))(rid \<mapsto> r)"
proof -
  obtain r1 m1 m2 where 1: "reserve iter (resources s) (session_request rid sid key mode) = (Ok r1, m1)"
    and 2: "activate m1 rid = (Ok r, m2)" and t: "t = s\<lparr>resources := m2\<rparr>"
    using assms by (auto simp: reserve_active_def try_with_eq_Ok on_resources_def session_request_def
        split: prod.splits)
  have rid: "reservation_id (session_request rid sid key mode) = rid" by (simp add: session_request_def)
  show ?thesis using reserve_lookup [OF 1] activate_lookup [OF 2] t by (auto simp: rid)
qed

lemma reserve_active_any:
  assumes iter: "iteration_order iter" and inv: "manager_inv (resources s)"
  shows "\<exists>m. snd (reserve_active iter s rid sid key mode) = s\<lparr>resources := m\<rparr> \<and> manager_inv m
    \<and> (\<forall>k. k \<noteq> rid \<longrightarrow> map_of (reservations m) k = map_of (reservations (resources s)) k)"
proof -
  define req where "req = session_request rid sid key mode"
  obtain r1 m1 where 1: "reserve iter (resources s) req = (r1, m1)" by fastforce
  obtain r2 m2 where 2: "activate m1 rid = (r2, m2)" by fastforce
  have rid: "reservation_id req = rid" by (simp add: req_def session_request_def)
  have m1: "manager_inv m1 \<and> (\<forall>k. k \<noteq> rid \<longrightarrow> map_of (reservations m1) k = map_of (reservations (resources s)) k)"
    using manager_inv_reserve [OF iter inv, of req] reserve_elsewhere [of _ req iter "resources s"] 1 rid by auto
  have m2: "manager_inv m2 \<and> (\<forall>k. k \<noteq> rid \<longrightarrow> map_of (reservations m2) k = map_of (reservations m1) k)"
    using manager_inv_life_cycle(1) [of m1 rid] activate_elsewhere [of _ rid m1] m1 2 by auto
  have eq: "reserve_active iter s rid sid key mode =
      try_with (r1, s\<lparr>resources := m1\<rparr>) (\<lambda>_ _. (r2, s\<lparr>resources := m2\<rparr>))"
    using 1 2 by (cases r1) (simp_all add: reserve_active_def on_resources_def req_def session_request_def)
  show ?thesis using m1 m2 unfolding eq by (cases r1) auto
qed

lemma release_active:
  assumes "map_of (reservations (resources s)) rid = Some r" "reservation_state r = Active"
  shows "\<exists>m. release_reservation s rid = (Ok (r\<lparr>reservation_state := Released\<rparr>), s\<lparr>resources := m\<rparr>)
    \<and> map_of (reservations m) = (map_of (reservations (resources s)))(rid \<mapsto> r\<lparr>reservation_state := Released\<rparr>)
    \<and> (manager_inv (resources s) \<longrightarrow> manager_inv m)"
proof -
  obtain m1 where 1: "begin_release (resources s) rid = (Ok (r\<lparr>reservation_state := Releasing\<rparr>), m1)"
    "map_of (reservations m1) = (map_of (reservations (resources s)))(rid \<mapsto> r\<lparr>reservation_state := Releasing\<rparr>)"
    using assms by (simp add: begin_release_def with_reservation_def update_conv')
  obtain m2 where 2: "finish_release m1 rid = (Ok (r\<lparr>reservation_state := Released\<rparr>), m2)"
    "map_of (reservations m2) = (map_of (reservations m1))(rid \<mapsto> r\<lparr>reservation_state := Released\<rparr>)"
    using 1(2) by (simp add: finish_release_def with_reservation_def update_conv')
  have "manager_inv (resources s) \<Longrightarrow> manager_inv m2"
    using manager_inv_life_cycle(2) [of "resources s" rid] manager_inv_life_cycle(3) [of m1 rid] 1(1) 2(1) by simp
  then show ?thesis using 1 2 by (intro exI [of _ m2]) (simp add: release_reservation_def on_resources_def)
qed

section \<open>The specification\<close>

text \<open>Changes within a state: an endpoint is taken, or the schedule of a ready session advances.\<close>

definition adjusts :: "'h session_view \<Rightarrow> 'h session_view \<Rightarrow> bool" where
  "adjusts x y \<longleftrightarrow>
     same_kind x y \<and> authorization y = authorization x \<and> reservation_of y = reservation_of x
     \<and> state_of y = state_of x
     \<and> (state_of x = Running \<and> lifecycle_of y = lifecycle_of x
        \<or> state_of x = TestReady
          \<and> (\<exists>start_at now. lifecycle_of y = snd (mark_ready (lifecycle_of x) RemotePeer)
               \<or> lifecycle_of y = snd (schedule_start (lifecycle_of x) start_at now)))"

inductive session_effect :: "'h session_coordinator \<Rightarrow> 'h session_coordinator \<Rightarrow> bool" where
  Record: "operations s \<subseteq>\<^sub>m ops \<Longrightarrow> session_effect s (s\<lparr>operations := ops\<rparr>)"
| Adjust: "session_mut s sid = Some x \<Longrightarrow> adjusts x y \<Longrightarrow> session_effect s (put_session s sid y)"
| Begin: "session_mut s sid = Some x \<Longrightarrow> state_of x = TestReady \<Longrightarrow>
    now div nanoseconds_per_second \<le> auth_expires (authorization x) \<Longrightarrow>
    begin_warmup (lifecycle_of x) now = (Ok (), l) \<Longrightarrow>
    session_effect s (put_session s sid (set_state Running (set_lifecycle l x)))"
| Finish: "session_mut s sid = Some x \<Longrightarrow> state_of x \<in> {TestReady, Running} \<Longrightarrow>
    release_reservation s (reservation_of x) = (Ok r, t) \<Longrightarrow>
    st = Canceled \<and> res = results s
      \<or> st \<in> {Completed, Failed} \<and> results s sid = None \<and> result_session v = sid \<and> res = (results s)(sid \<mapsto> v) \<Longrightarrow>
    session_effect s ((put_session t sid (set_state st (close_endpoint x)))\<lparr>results := res\<rparr>)"
| Open: "session_mut s sid = None \<Longrightarrow> length sid = 16 \<Longrightarrow> iteration_order iter \<Longrightarrow>
    reserve_active iter s rid sid key mode = (Ok r, t) \<Longrightarrow>
    rid = p @ hex_session_id sid \<Longrightarrow> state_of y = TestReady \<Longrightarrow> reservation_of y = rid \<Longrightarrow>
    auth_session (authorization y) = sid \<Longrightarrow> prepared_lifecycle = Ok (lifecycle_of y) \<Longrightarrow>
    session_effect s (put_session t sid y)"
| Claim: "session_mut s sid = None \<Longrightarrow> length sid = 16 \<Longrightarrow> iteration_order iter \<Longrightarrow>
    rid = p @ hex_session_id sid \<Longrightarrow>
    session_effect s (snd (reserve_active iter s rid sid key mode))"

abbreviation session_run :: "'h session_coordinator \<Rightarrow> 'h session_coordinator \<Rightarrow> bool" where
  "session_run \<equiv> session_effect\<^sup>*\<^sup>*"

definition session_ok :: "resource_manager \<Rightarrow> bytes \<Rightarrow> 'h session_view \<Rightarrow> bool" where
  "session_ok m sid x \<longleftrightarrow>
     length sid = 16 \<and> auth_session (authorization x) = sid
     \<and> (\<exists>p. reservation_of x = p @ hex_session_id sid)
     \<and> (\<exists>r. map_of (reservations m) (reservation_of x) = Some r
          \<and> request_session (request r) = hex_session_id sid
          \<and> (state_of x \<in> {TestReady, Running} \<and> reservation_state r = Active
             \<or> state_of x \<in> {Completed, Failed, Canceled} \<and> reservation_state r = Released \<and> endpoint_closed x))
     \<and> lifecycle_inv (lifecycle_of x)
     \<and> (state_of x = TestReady \<longrightarrow> test_phase (lifecycle_of x) \<in> {Prepare, PhaseReady})
     \<and> (state_of x = Running \<longrightarrow> test_phase (lifecycle_of x) = Warmup)"

definition coordinator_inv :: "'h session_coordinator \<Rightarrow> bool" where
  "coordinator_inv s \<longleftrightarrow>
     manager_inv (resources s) \<and> kinds_disjoint s \<and> pending_results s = Map.empty
     \<and> (\<forall>sid x. session_mut s sid = Some x \<longrightarrow> session_ok (resources s) sid x)
     \<and> (\<forall>sid. results s sid \<noteq> None \<longleftrightarrow>
          (\<exists>x. session_mut s sid = Some x \<and> state_of x \<in> {Completed, Failed}))
     \<and> (\<forall>sid v. results s sid = Some v \<longrightarrow> result_session v = sid)"

lemma inv_session_ok: "coordinator_inv s \<Longrightarrow> session_mut s sid = Some x \<Longrightarrow> session_ok (resources s) sid x"
  by (simp add: coordinator_inv_def)

lemma coordinator_inv_new: "coordinator_inv new_coordinator"
proof -
  have "manager_inv new_manager" by (rule manager.inv_init) (simp add: manager_init_def)
  then show ?thesis
    by (simp add: coordinator_inv_def new_coordinator_def kinds_disjoint_def session_mut_def)
qed

text \<open>A session whose reservation is untouched stays as it was.\<close>

lemma session_ok_elsewhere:
  assumes ok: "session_ok m k x" and "length sid = 16" "k \<noteq> sid" "rid = p @ hex_session_id sid"
    and same: "\<And>i. i \<noteq> rid \<Longrightarrow> map_of (reservations m') i = map_of (reservations m) i"
  shows "session_ok m' k x"
proof -
  obtain q where q: "reservation_of x = q @ hex_session_id k" "length k = 16"
    using ok by (auto simp: session_ok_def)
  have "reservation_of x \<noteq> rid"
    using reservation_name_inject [of q k p sid] q assms(2-4) by auto
  then show ?thesis using ok same by (auto simp: session_ok_def)
qed

lemma lifecycle_inv_ops:
  assumes "lifecycle_inv l"
  shows "lifecycle_inv (snd (mark_ready l peer))" "lifecycle_inv (snd (schedule_start l start_at now))"
    "lifecycle_inv (snd (begin_warmup l now))"
  using lifecycle_inv_step [OF assms, of "ReadyEvent peer"] lifecycle_inv_step [OF assms, of "ScheduleEvent start_at now"]
    lifecycle_inv_step [OF assms, of "WarmupEvent now"] by simp_all

lemma mark_ready_phase:
  "test_phase l \<in> {Prepare, PhaseReady} \<Longrightarrow> test_phase (snd (mark_ready l peer)) \<in> {Prepare, PhaseReady}"
  by (auto simp: mark_ready_def Let_def split: barrier_peer.splits)

lemma schedule_start_phase [simp]: "test_phase (snd (schedule_start l start_at now)) = test_phase l"
  by (auto simp: schedule_start_def split: option.splits)

lemma session_ok_adjusts: "session_ok m sid x \<Longrightarrow> adjusts x y \<Longrightarrow> session_ok m sid y"
  using mark_ready_phase [of "lifecycle_of x" RemotePeer]
  by (auto simp: session_ok_def adjusts_def lifecycle_inv_ops)

lemma session_ok_begin:
  "session_ok m sid x \<Longrightarrow> state_of x = TestReady \<Longrightarrow> begin_warmup (lifecycle_of x) now = (Ok (), l)
     \<Longrightarrow> session_ok m sid (set_state Running (set_lifecycle l x))"
  using lifecycle_inv_ops(3) [of "lifecycle_of x" now]
  by (auto simp: session_ok_def begin_warmup_def split: option.splits if_splits)

lemma prepared_lifecycle_ok:
  "prepared_lifecycle = Ok l \<Longrightarrow> lifecycle_inv l \<and> test_phase l = Prepare"
  by (auto simp: prepared_lifecycle_def lifecycle_ops new_lifecycle_def lifecycle_inv_def phase_between_def Let_def)

text \<open>The invariant survives every change the specification allows.\<close>

lemma coordinator_inv_put:
  assumes inv: "coordinator_inv s" and x: "session_mut s sid = Some x" "same_kind x y"
    and st: "state_of x \<in> {TestReady, Running}" "state_of y \<in> {TestReady, Running}"
    and ok: "session_ok (resources s) sid y"
  shows "coordinator_inv (put_session s sid y)"
  using inv ok x st kinds_disjoint_put [OF _ x]
  by (auto simp: coordinator_inv_def session_mut_put [OF x])

lemma live_no_result:
  assumes inv: "coordinator_inv s" and x: "session_mut s sid = Some x" "state_of x \<notin> {Completed, Failed}"
  shows "results s sid = None"
proof (rule ccontr)
  assume "results s sid \<noteq> None"
  then obtain z where "session_mut s sid = Some z" "state_of z \<in> {Completed, Failed}"
    using inv unfolding coordinator_inv_def by blast
  then show False using x by simp
qed

lemma coordinator_inv_finish:
  assumes inv: "coordinator_inv s" and x: "session_mut s sid = Some x" "state_of x \<in> {TestReady, Running}"
    and rel: "release_reservation s (reservation_of x) = (Ok r, t)"
    and st: "st = Canceled \<and> res = results s
      \<or> st \<in> {Completed, Failed} \<and> results s sid = None \<and> result_session v = sid \<and> res = (results s)(sid \<mapsto> v)"
  shows "coordinator_inv ((put_session t sid (set_state st (close_endpoint x)))\<lparr>results := res\<rparr>)"
proof -
  let ?y = "set_state st (close_endpoint x)"
  have ok: "session_ok (resources s) sid x" using inv x by (simp add: coordinator_inv_def)
  then obtain p r0 where p: "reservation_of x = p @ hex_session_id sid" "length sid = 16"
    and r0: "map_of (reservations (resources s)) (reservation_of x) = Some r0" "reservation_state r0 = Active"
      "request_session (request r0) = hex_session_id sid"
    using x(2) by (auto simp: session_ok_def)
  obtain m where m: "t = s\<lparr>resources := m\<rparr>" "manager_inv m"
    "map_of (reservations m) =
       (map_of (reservations (resources s)))(reservation_of x \<mapsto> r0\<lparr>reservation_state := Released\<rparr>)"
    using release_active [OF r0(1,2)] rel inv by (auto simp: coordinator_inv_def)
  have y: "session_ok m sid ?y" using ok st r0(3) by (auto simp: session_ok_def m(3))
  have other: "session_ok m k z" if "session_mut s k = Some z" "k \<noteq> sid" for k z
    by (rule session_ok_elsewhere [of "resources s" k z sid "reservation_of x" p])
      (use inv that p m(3) in \<open>auto simp: coordinator_inv_def\<close>)
  have kinds: "kinds_disjoint (put_session s sid ?y)"
    using inv x(1) by (intro kinds_disjoint_put [of s sid x]) (auto simp: coordinator_inv_def)
  have mut: "session_mut (put_session s sid ?y) = (session_mut s)(sid \<mapsto> ?y)"
    by (rule session_mut_put [OF x(1)]) simp
  have "results s sid = None" by (rule live_no_result [OF inv x(1)]) (use x(2) in auto)
  then show ?thesis
    using inv y other kinds st x m(2) by (auto simp: coordinator_inv_def m(1) mut split: if_splits)
qed

lemma coordinator_inv_claim:
  assumes inv: "coordinator_inv s" and new: "session_mut s sid = None" "length sid = 16"
    and iter: "iteration_order iter" and rid: "rid = p @ hex_session_id sid"
  shows "coordinator_inv (snd (reserve_active iter s rid sid key mode))"
proof -
  have "manager_inv (resources s)" using inv by (simp add: coordinator_inv_def)
  from reserve_active_any [OF iter this, of rid sid key mode]
  obtain m where m: "snd (reserve_active iter s rid sid key mode) = s\<lparr>resources := m\<rparr>" "manager_inv m"
    "\<And>k. k \<noteq> rid \<Longrightarrow> map_of (reservations m) k = map_of (reservations (resources s)) k"
    by blast
  have "session_ok m k z" if "session_mut s k = Some z" for k z
    by (rule session_ok_elsewhere [of "resources s" k z sid rid p])
      (use inv that new m(3) rid in \<open>auto simp: coordinator_inv_def\<close>)
  then show ?thesis using inv m(2) by (auto simp: coordinator_inv_def m(1))
qed

lemma coordinator_inv_open:
  assumes inv: "coordinator_inv s" and new: "session_mut s sid = None" "length sid = 16"
    and iter: "iteration_order iter" and res: "reserve_active iter s rid sid key mode = (Ok r, t)"
    and rid: "rid = p @ hex_session_id sid" and y: "state_of y = TestReady" "reservation_of y = rid"
      "auth_session (authorization y) = sid" "prepared_lifecycle = Ok (lifecycle_of y)"
  shows "coordinator_inv (put_session t sid y)"
proof -
  have t: "coordinator_inv t" using coordinator_inv_claim [OF inv new iter rid, of key mode] res by simp
  obtain m where m: "t = s\<lparr>resources := m\<rparr>" "request r = session_request rid sid key mode"
    "reservation_state r = Active" "map_of (reservations m) = (map_of (reservations (resources s)))(rid \<mapsto> r)"
    using reserve_active_Ok [OF res] by blast
  have "session_ok (resources t) sid y"
    using y new(2) rid m prepared_lifecycle_ok [OF y(4)] by (auto simp: session_ok_def session_request_def)
  moreover have "session_mut t sid = None" by (simp add: m(1) new(1))
  ultimately show ?thesis
    using t y(1) kinds_disjoint_new [of t sid y] by (auto simp: coordinator_inv_def session_mut_new)
qed

lemma coordinator_inv_effect: "session_effect s t \<Longrightarrow> coordinator_inv s \<Longrightarrow> coordinator_inv t"
proof (induction rule: session_effect.induct)
  case (Record s ops)
  then show ?case by (simp add: coordinator_inv_def)
next
  case (Adjust s sid x y)
  then show ?case
    using session_ok_adjusts [of "resources s" sid x y]
    by (intro coordinator_inv_put [of s sid x y]) (auto simp: coordinator_inv_def adjusts_def)
next
  case (Begin s sid x now l)
  then show ?case
    using session_ok_begin [of "resources s" sid x now l]
    by (intro coordinator_inv_put [of s sid x]) (auto simp: coordinator_inv_def)
next
  case (Finish s sid x r t st res v)
  then show ?case by (intro coordinator_inv_finish)
next
  case (Open s sid iter rid key mode r t p y)
  then show ?case by (intro coordinator_inv_open)
next
  case (Claim s sid iter rid p key mode)
  then show ?case by (intro coordinator_inv_claim)
qed

lemma coordinator_inv_run: "session_run s t \<Longrightarrow> coordinator_inv s \<Longrightarrow> coordinator_inv t"
  by (induction rule: rtranclp_induct) (auto intro: coordinator_inv_effect)

section \<open>Every call is a run of the specification\<close>

lemma snd_try_with: "snd (try_with m f) = (case fst m of Ok x \<Rightarrow> snd (f x (snd m)) | _ \<Rightarrow> snd m)"
  by (cases "(m, f)" rule: try_with.cases) auto

lemma snd_reserve_active: "\<exists>m. snd (reserve_active iter s rid sid key mode) = s\<lparr>resources := m\<rparr>"
proof -
  have "s\<lparr>resources := m\<rparr>\<lparr>resources := m'\<rparr> = s\<lparr>resources := m'\<rparr>" for m m' by simp
  then show ?thesis
    by (auto simp: reserve_active_def snd_try_with on_resources_def split: prod.splits outcome.splits)
qed

lemma run_stay: "session_run s (snd (r, s))"
  by simp

lemma run_if:
  "(c \<Longrightarrow> session_run s (snd a)) \<Longrightarrow> (\<not> c \<Longrightarrow> session_run s (snd b)) \<Longrightarrow> session_run s (snd (if c then a else b))"
  by simp

lemma run_pure:
  assumes "session_run s t" "\<And>x. r = Ok x \<Longrightarrow> session_run s (snd (f x t))"
  shows "session_run s (snd (try_with (r, t) f))"
  using assms by (cases r) simp_all

lemma run_claim:
  assumes "session_mut s sid = None" "length sid = 16" "iteration_order iter" "rid = p @ hex_session_id sid"
    and "\<And>r t. reserve_active iter s rid sid key mode = (Ok r, t) \<Longrightarrow> session_run s t \<Longrightarrow> session_run s (snd (f r t))"
  shows "session_run s (snd (try_with (reserve_active iter s rid sid key mode) f))"
proof -
  have run: "session_run s (snd (reserve_active iter s rid sid key mode))"
    using session_effect.Claim [OF assms(1-4)] by blast
  obtain r t where rt: "reserve_active iter s rid sid key mode = (r, t)" by fastforce
  then show ?thesis using assms(5) run by (cases r) auto
qed

lemma run_record:
  assumes "session_run s t" "operations t oid = None"
  shows "session_run s (record_operation oid rec t)"
proof -
  have "operations t \<subseteq>\<^sub>m (operations t)(oid \<mapsto> rec)" using assms(2) by (auto simp: map_le_def)
  then have "session_effect t (record_operation oid rec t)"
    unfolding record_operation_def by (rule session_effect.Record)
  then show ?thesis using assms(1) by simp
qed

lemma run_open:
  assumes "session_mut s sid = None" "length sid = 16" "iteration_order iter"
    and res: "reserve_active iter s rid sid key mode = (Ok r, t)"
    and "rid = p @ hex_session_id sid" "state_of y = TestReady" "reservation_of y = rid"
      "auth_session (authorization y) = sid" "prepared_lifecycle = Ok (lifecycle_of y)"
    and oid: "operations s oid = None"
  shows "session_run s (snd (v, record_operation oid rec (put_session t sid y)))"
proof -
  have "session_effect s (put_session t sid y)" by (rule session_effect.Open [OF assms(1-9)])
  moreover have "operations (put_session t sid y) oid = None"
    using snd_reserve_active [of iter s rid sid key mode] res oid by auto
  ultimately have "session_run s (record_operation oid rec (put_session t sid y))"
    by (blast intro: run_record)
  then show ?thesis by simp
qed

lemmas run_intros = run_stay run_if run_pure run_claim run_open

lemma prepare_tcp_run:
  assumes "iteration_order iter" "length (tcp_request_session req) = 16"
  shows "session_run s (snd (prepare_tcp iter os s req now))"
proof (cases "operations s (tcp_request_operation req)")
  case (Some rec)
  then show ?thesis by (simp add: prepare_tcp_def)
next
  case None
  show ?thesis
    unfolding prepare_tcp_def None option.case Let_def
    by (rule run_intros assms rtranclp.rtrancl_refl None refl | assumption | simp add: session_exists_mut)+
qed

lemma prepare_tcp_sender_run:
  assumes "iteration_order iter" "length (tcp_sender_session req) = 16"
  shows "session_run s (snd (prepare_tcp_sender iter os s req now))"
proof (cases "operations s (tcp_sender_operation req)")
  case (Some rec)
  then show ?thesis by (simp add: prepare_tcp_sender_def)
next
  case None
  show ?thesis
    unfolding prepare_tcp_sender_def None option.case Let_def
    by (rule run_intros assms rtranclp.rtrancl_refl None refl | assumption | simp add: session_exists_mut)+
qed

lemma prepare_tcp_bidirectional_run:
  assumes "iteration_order iter" "length (tcp_both_session req) = 16"
  shows "session_run s (snd (prepare_tcp_bidirectional iter os s req now))"
proof (cases "operations s (tcp_both_operation req)")
  case (Some rec)
  then show ?thesis by (simp add: prepare_tcp_bidirectional_def)
next
  case None
  show ?thesis
    unfolding prepare_tcp_bidirectional_def None option.case Let_def
    by (rule run_intros assms rtranclp.rtrancl_refl None refl | assumption | simp add: session_exists_mut)+
qed

lemma prepare_udp_run:
  assumes "iteration_order iter" "length (udp_request_session req) = 16"
  shows "session_run s (snd (prepare_udp iter os s req now))"
proof (cases "operations s (udp_request_operation req)")
  case (Some rec)
  then show ?thesis by (simp add: prepare_udp_def)
next
  case None
  show ?thesis
    unfolding prepare_udp_def None option.case Let_def
    by (rule run_intros assms rtranclp.rtrancl_refl None refl | assumption | simp add: session_exists_mut)+
qed

lemma prepare_udp_sender_run:
  assumes "iteration_order iter" "length (udp_sender_session req) = 16"
  shows "session_run s (snd (prepare_udp_sender iter os s req now))"
proof (cases "operations s (udp_sender_operation req)")
  case (Some rec)
  then show ?thesis by (simp add: prepare_udp_sender_def)
next
  case None
  show ?thesis
    unfolding prepare_udp_sender_def None option.case Let_def
    by (rule run_intros assms rtranclp.rtrancl_refl None refl | assumption | simp add: session_exists_mut)+
qed

lemma prepare_udp_bidirectional_run:
  assumes "iteration_order iter" "length (udp_both_session req) = 16"
  shows "session_run s (snd (prepare_udp_bidirectional iter os s req now))"
proof (cases "operations s (udp_both_operation req)")
  case (Some rec)
  then show ?thesis by (simp add: prepare_udp_bidirectional_def)
next
  case None
  show ?thesis
    unfolding prepare_udp_bidirectional_def None option.case Let_def
    by (rule run_intros assms rtranclp.rtrancl_refl None refl | assumption | simp add: session_exists_mut)+
qed

lemma prepare_dpdk_receiver_run:
  assumes "iteration_order iter" "length (dpdk_request_session req) = 16"
  shows "session_run s (snd (prepare_dpdk_receiver iter os s req now))"
proof (cases "operations s (dpdk_request_operation req)")
  case (Some rec)
  then show ?thesis by (simp add: prepare_dpdk_receiver_def)
next
  case None
  show ?thesis
    unfolding prepare_dpdk_receiver_def None option.case Let_def
    by (rule run_intros assms rtranclp.rtrancl_refl None refl | assumption | simp add: session_exists_mut)+
qed

lemma run_then:
  assumes "session_run s (snd m)" "\<And>x t. m = (Ok x, t) \<Longrightarrow> session_run s t \<Longrightarrow> session_run s (snd (f x t))"
  shows "session_run s (snd (try_with m f))"
  using assms by (cases "(m, f)" rule: try_with.cases) auto

lemma run_adjust:
  "session_mut s sid = Some x \<Longrightarrow> adjusts x y \<Longrightarrow> session_run s (put_session s sid y)"
  by (blast intro: session_effect.Adjust)

lemma take_tcp_run:
  assumes "kinds_disjoint s"
  shows "session_run s (snd (take_tcp_listener s sid))" "session_run s (snd (take_tcp_sender s sid))"
    "session_run s (snd (take_tcp_bidirectional s sid))"
  unfolding take_tcp_listener_def take_tcp_sender_def take_tcp_bidirectional_def
  by (auto simp: Let_def adjusts_def simp del: put_session.simps split: option.splits
      intro!: run_adjust [OF session_lookup(1) [OF assms]])

lemma take_udp_run:
  assumes "kinds_disjoint s"
  shows "session_run s (snd (take_udp_socket s sid))" "session_run s (snd (take_udp_sender s sid))"
    "session_run s (snd (take_udp_bidirectional s sid))"
  unfolding take_udp_socket_def take_udp_sender_def take_udp_bidirectional_def
  by (auto simp: Let_def adjusts_def simp del: put_session.simps split: option.splits
      intro!: run_adjust [OF session_lookup(2) [OF assms]])

lemma begin_warmup_cases:
  obtains l' where "begin_warmup l now = (Ok (), l')" | e where "begin_warmup l now = (Err e, l)"
proof -
  have "(\<exists>l'. begin_warmup l now = (Ok (), l')) \<or> (\<exists>e. begin_warmup l now = (Err e, l))"
    by (auto simp: begin_warmup_def split: option.splits)
  then show thesis using that by blast
qed

text \<open>What a successful start did, and that a refused one changed nothing.\<close>

lemma begin_scheduled_Ok:
  assumes "begin_scheduled s sid now = (Ok st, t)"
  shows "\<exists>x l. session_mut s sid = Some x \<and> state_of x = TestReady
    \<and> now div nanoseconds_per_second \<le> auth_expires (authorization x)
    \<and> begin_warmup (lifecycle_of x) now = (Ok (), l)
    \<and> t = put_session s sid (set_state Running (set_lifecycle l x))"
proof -
  obtain x where x: "session_mut s sid = Some x" "state_of x = TestReady"
    "now div nanoseconds_per_second \<le> auth_expires (authorization x)"
    using assms by (auto simp: begin_scheduled_def split: option.splits if_splits)
  show ?thesis
  proof (cases rule: begin_warmup_cases [of "lifecycle_of x" now])
    case (1 l)
    then show ?thesis
      using x assms put_put [of "set_lifecycle l x" "set_state Running (set_lifecycle l x)" s sid]
      by (auto simp: begin_scheduled_def on_lifecycle_def Let_def not_less [symmetric])
  next
    case (2 e)
    then show ?thesis using x assms by (auto simp: begin_scheduled_def on_lifecycle_def Let_def split: if_splits)
  qed
qed

lemma begin_scheduled_refused:
  assumes "fst (begin_scheduled s sid now) \<noteq> Ok Running"
  shows "snd (begin_scheduled s sid now) = s"
proof (cases "session_mut s sid")
  case (Some x)
  show ?thesis
  proof (cases rule: begin_warmup_cases [of "lifecycle_of x" now])
    case (1 l)
    then show ?thesis using Some assms by (auto simp: begin_scheduled_def on_lifecycle_def Let_def split: if_splits)
  next
    case (2 e)
    then show ?thesis using Some put_same [OF Some] by (auto simp: begin_scheduled_def on_lifecycle_def Let_def)
  qed
qed (simp add: begin_scheduled_def)

lemma begin_scheduled_run: "session_run s (snd (begin_scheduled s sid now))"
proof (cases "fst (begin_scheduled s sid now) = Ok Running")
  case True
  then obtain t where t: "begin_scheduled s sid now = (Ok Running, t)" by (metis prod.collapse)
  from begin_scheduled_Ok [OF t] show ?thesis
    using session_effect.Begin [of s sid _ now] by (auto simp: t)
next
  case False
  then show ?thesis by (simp add: begin_scheduled_refused)
qed

lemma inv_disjoint: "coordinator_inv s \<Longrightarrow> session_run s t \<Longrightarrow> kinds_disjoint t"
  using coordinator_inv_run [of s t] by (simp add: coordinator_inv_def)

lemma run_trans: "session_run s t \<Longrightarrow> session_run t u \<Longrightarrow> session_run s u"
  by (rule rtranclp_trans)

lemma begin_and_take_run:
  assumes inv: "coordinator_inv s"
  shows "session_run s (snd (begin_and_take_receiver s sid now))"
    "session_run s (snd (begin_and_take_sender s sid now))"
    "session_run s (snd (begin_and_take_bidirectional s sid now))"
    "session_run s (snd (begin_and_take_dpdk_receiver s sid now))"
proof -
  note takes = run_trans [OF _ take_tcp_run(1)] run_trans [OF _ take_tcp_run(2)] run_trans [OF _ take_tcp_run(3)]
    run_trans [OF _ take_udp_run(1)] run_trans [OF _ take_udp_run(2)] run_trans [OF _ take_udp_run(3)]
  show "session_run s (snd (begin_and_take_receiver s sid now))"
    unfolding begin_and_take_receiver_def case_prod_beta
    by (rule run_stay run_if run_then begin_scheduled_run takes inv_disjoint inv | assumption | simp)+
  show "session_run s (snd (begin_and_take_sender s sid now))"
    unfolding begin_and_take_sender_def Let_def
    by (rule run_stay run_if run_then begin_scheduled_run takes inv_disjoint inv | assumption)+
  show "session_run s (snd (begin_and_take_bidirectional s sid now))"
    unfolding begin_and_take_bidirectional_def Let_def
    by (rule run_stay run_if run_then begin_scheduled_run takes inv_disjoint inv | assumption)+
  show "session_run s (snd (begin_and_take_dpdk_receiver s sid now))"
    unfolding begin_and_take_dpdk_receiver_def
  proof (rule run_if run_then run_stay begin_scheduled_run)+
    fix st t assume t: "begin_scheduled s sid now = (Ok st, t)" "session_run s t"
    have Running: "dpdk_state session = Running" if "dpdk_sessions t sid = Some session" for session
    proof -
      obtain x l where x: "session_mut s sid = Some x" "t = put_session s sid (set_state Running (set_lifecycle l x))"
        using begin_scheduled_Ok [OF t(1)] by blast
      have "session_mut t sid = Some (set_state Running (set_lifecycle l x))"
        by (simp add: x(2) session_mut_put [OF x(1)])
      moreover have "session_mut t sid = Some (DpdkMut session)"
        by (rule session_lookup(3) [OF inv_disjoint [OF inv t(2)] that])
      ultimately show ?thesis by (metis option.inject state_of.simps(3) view_simps(7))
    qed
    show "session_run s (snd (case dpdk_sessions t sid of
          None \<Rightarrow> (Err (session_invalid_state ''session is not a DPDK receiver''), t)
        | Some session \<Rightarrow>
            (case dpdk_plan session of
               None \<Rightarrow> (Err (session_invalid_state ''DPDK receiver worker was already taken''), t)
             | Some plan \<Rightarrow> (Ok plan, put_session t sid (DpdkMut (session\<lparr>dpdk_plan := None\<rparr>))))))"
      using t(2) Running
      by (auto simp: adjusts_def simp del: put_session.simps split: option.splits
          intro!: run_trans [OF t(2) run_adjust [OF session_lookup(3) [OF inv_disjoint [OF inv t(2)]]]])
  qed
qed

lemma on_lifecycle_run:
  assumes "session_mut s sid = Some x" "state_of x = TestReady"
    and "\<And>l. snd (f l) = snd (mark_ready l RemotePeer) \<or> (\<exists>start_at now. snd (f l) = snd (schedule_start l start_at now))"
  shows "session_run s (snd (on_lifecycle sid x f s))"
    and "fst (on_lifecycle sid x f s) = Ok y \<Longrightarrow> session_mut (snd (on_lifecycle sid x f s)) sid = Some y \<and> state_of y = TestReady"
    and "operations (snd (on_lifecycle sid x f s)) = operations s"
proof -
  obtain r l where fl: "f (lifecycle_of x) = (r, l)" by fastforce
  have eq: "on_lifecycle sid x f s = (and_then r (\<lambda>_. Ok (set_lifecycle l x)), put_session s sid (set_lifecycle l x))"
    by (simp add: on_lifecycle_def fl Let_def)
  have "adjusts x (set_lifecycle l x)"
    using assms(2) assms(3) [of "lifecycle_of x"] by (auto simp: adjusts_def fl)
  then show "session_run s (snd (on_lifecycle sid x f s))" unfolding eq by (simp add: run_adjust [OF assms(1)])
  show "fst (on_lifecycle sid x f s) = Ok y \<Longrightarrow> session_mut (snd (on_lifecycle sid x f s)) sid = Some y \<and> state_of y = TestReady"
    unfolding eq using assms(1,2) by (cases r) (auto simp: session_mut_put)
  show "operations (snd (on_lifecycle sid x f s)) = operations s" by (simp add: eq)
qed

lemma start_run: "session_run s (snd (start s sid oid start_at now))"
proof (cases "operations s oid")
  case (Some rec)
  then show ?thesis by (simp add: start_def)
next
  case None
  show ?thesis
  proof (cases "session_mut s sid")
    case (Some x)
    show ?thesis unfolding start_def None Some option.case
    proof (rule run_if run_stay run_then)+
      assume ready: "\<not> state_of x \<noteq> TestReady"
      let ?m = "on_lifecycle sid x (\<lambda>l. mark_ready l RemotePeer) s"
      show "session_run s (snd ?m)" by (rule on_lifecycle_run(1) [OF Some]) (use ready in auto)
      fix y t assume t: "?m = (Ok y, t)" "session_run s t"
      have y: "session_mut t sid = Some y" "state_of y = TestReady" "operations t = operations s"
        using on_lifecycle_run(2) [OF Some, of "\<lambda>l. mark_ready l RemotePeer" y]
          on_lifecycle_run(3) [OF Some, of "\<lambda>l. mark_ready l RemotePeer"] ready t(1) by auto
      let ?n = "on_lifecycle sid y (\<lambda>l. schedule_start l start_at now) t"
      have f: "snd (schedule_start l start_at now) = snd (mark_ready l RemotePeer)
          \<or> (\<exists>a b. snd (schedule_start l start_at now) = snd (schedule_start l a b))" for l by blast
      show "session_run s (snd (try_with ?n (\<lambda>session self.
          let st = state_of session in (Ok st, record_operation oid (OpStart sid start_at st) self))))"
      proof (rule run_then)
        show "session_run s (snd ?n)" by (rule run_trans [OF t(2) on_lifecycle_run(1) [OF y(1,2) f]])
        fix z u assume u: "?n = (Ok z, u)" "session_run s u"
        have "operations u oid = None"
          using on_lifecycle_run(3) [OF y(1,2) f] u(1) y(3) None by simp
        then show "session_run s (snd (let st = state_of z in
            (Ok st, record_operation oid (OpStart sid start_at st) u)))"
          unfolding Let_def snd_conv by (rule run_record [OF u(2)])
      qed
    qed
  qed (simp add: start_def None)
qed

text \<open>Releasing touches nothing but the resources.\<close>

lemma release_put:
  "release_reservation (put_session s sid y) rid =
     (case release_reservation s rid of (r, t) \<Rightarrow> (r, put_session t sid y))"
  "release_reservation (s\<lparr>pending_results := res\<rparr>) rid =
     (case release_reservation s rid of (r, t) \<Rightarrow> (r, t\<lparr>pending_results := res\<rparr>))"
proof -
  obtain r1 m1 where 1: "begin_release (resources s) rid = (r1, m1)" by fastforce
  show "release_reservation (put_session s sid y) rid =
     (case release_reservation s rid of (r, t) \<Rightarrow> (r, put_session t sid y))"
    using 1 by (cases r1) (simp_all add: release_reservation_def on_resources_def split: prod.splits)
  show "release_reservation (s\<lparr>pending_results := res\<rparr>) rid =
     (case release_reservation s rid of (r, t) \<Rightarrow> (r, t\<lparr>pending_results := res\<rparr>))"
    using 1 by (cases r1) (simp_all add: release_reservation_def on_resources_def split: prod.splits)
qed

lemma live_release:
  assumes inv: "coordinator_inv s" and x: "session_mut s sid = Some x" "state_of x \<in> {TestReady, Running}"
  obtains r m where "release_reservation s (reservation_of x) = (Ok r, s\<lparr>resources := m\<rparr>)"
proof -
  obtain r0 where r0: "map_of (reservations (resources s)) (reservation_of x) = Some r0" "reservation_state r0 = Active"
    using inv_session_ok [OF inv x(1)] x(2) by (auto simp: session_ok_def)
  show thesis using that release_active [OF r0] by blast
qed

lemma stop_session_run:
  assumes inv: "coordinator_inv s"
  shows "session_run s (snd (stop_session s sid oid))"
proof (cases "operations s oid")
  case (Some rec)
  then show ?thesis by (simp add: stop_session_def)
next
  case None
  show ?thesis
  proof (cases "\<exists>x. session_mut s sid = Some x \<and> state_of x \<in> {TestReady, Running}")
    case True
    then obtain x where x: "session_mut s sid = Some x" "state_of x \<in> {TestReady, Running}" by blast
    obtain r m where rel: "release_reservation s (reservation_of x) = (Ok r, s\<lparr>resources := m\<rparr>)"
      by (rule live_release [OF inv x])
    let ?t = "put_session (s\<lparr>resources := m\<rparr>) sid (set_state Canceled (close_endpoint x))"
    have eq: "stop_session s sid oid = (Ok Canceled, record_operation oid (OpStop sid Canceled) ?t)"
      using x rel by (auto simp: stop_session_def None session_state_mut release_put Let_def)
    have effect: "session_effect s (?t\<lparr>results := results s\<rparr>)" by (rule session_effect.Finish [OF x rel]) simp
    have t: "?t\<lparr>results := results s\<rparr> = ?t" by (cases x) simp_all
    have "session_run s ?t" using effect unfolding t by (rule r_into_rtranclp)
    then have "session_run s (record_operation oid (OpStop sid Canceled) ?t)"
      by (rule run_record) (simp add: None)
    then show ?thesis by (simp only: eq snd_conv)
  next
    case False
    have fin: "state_of x \<noteq> Finalizing" if "session_mut s sid = Some x" for x
      using inv_session_ok [OF inv that] by (auto simp: session_ok_def)
    have "session_run s (record_operation oid (OpStop sid Canceled) s)"
      by (rule run_record) (simp_all add: None)
    then show ?thesis
      using False fin by (auto simp: stop_session_def None session_state_mut split: option.splits)
  qed
qed

lemma publish_result_run:
  assumes inv: "coordinator_inv s" and x: "session_mut s sid = Some x" "state_of x \<in> {TestReady, Running}"
    and res: "result_session res = sid" "results s sid = None" "st \<in> {Completed, Failed}"
  shows "session_run s (snd (publish_result (put_session s sid (set_state Finalizing x)) sid res (reservation_of x) st))"
    and "fst (publish_result (put_session s sid (set_state Finalizing x)) sid res (reservation_of x) st) = Ok res"
proof -
  obtain r m where rel: "release_reservation s (reservation_of x) = (Ok r, s\<lparr>resources := m\<rparr>)"
    by (rule live_release [OF inv x])
  have pending: "pending_results s = Map.empty" using inv by (simp add: coordinator_inv_def)
  let ?f = "set_state Finalizing x" and ?y = "set_state st (close_endpoint x)"
  have mut: "session_mut (put_session s sid ?f) sid = Some ?f" using session_mut_put [OF x(1), of ?f] by simp
  have put: "put_session (put_session s sid ?f) sid ?y = put_session s sid ?y" by (rule put_put) (cases x; simp)
  let ?t = "(put_session (s\<lparr>resources := m\<rparr>) sid ?y)\<lparr>results := (results s)(sid \<mapsto> res)\<rparr>"
  have "session_effect s ?t"
    by (rule session_effect.Finish [OF x rel, where v = res]) (use res in simp)
  moreover have eq: "publish_result (put_session s sid ?f) sid res (reservation_of x) st = (Ok res, ?t)"
    using pending rel by (simp add: publish_result_def release_put mut put Let_def)
  ultimately show "session_run s (snd (publish_result (put_session s sid ?f) sid res (reservation_of x) st))"
    "fst (publish_result (put_session s sid ?f) sid res (reservation_of x) st) = Ok res" by simp_all
qed

lemma complete_run:
  assumes inv: "coordinator_inv s"
  shows "session_run s (snd (complete from_slice sha256 s sid js))"
proof (cases "\<exists>x. session_mut s sid = Some x \<and> state_of x = Running")
  case True
  then obtain x where x: "session_mut s sid = Some x" "state_of x = Running" by blast
  then have "results s sid = None" by (intro live_no_result [OF inv]) auto
  then show ?thesis
    using x publish_result_run(1) [OF inv x(1)] unfolding complete_def
    by (intro run_pure) (auto simp: Let_def)
next
  case False
  have fin: "state_of x \<noteq> Finalizing" if "session_mut s sid = Some x" for x
    using inv_session_ok [OF inv that] by (auto simp: session_ok_def)
  show ?thesis unfolding complete_def
    by (intro run_pure) (use False fin in \<open>auto simp: Let_def split: option.splits\<close>)
qed

lemma fail_session_run:
  assumes inv: "coordinator_inv s"
  shows "session_run s (snd (fail_session from_slice sha256 s sid js))"
proof (cases "\<exists>x. session_mut s sid = Some x \<and> state_of x \<in> {TestReady, Running}")
  case True
  then obtain x where x: "session_mut s sid = Some x" "state_of x \<in> {TestReady, Running}" by blast
  then have "results s sid = None" by (intro live_no_result [OF inv]) auto
  then show ?thesis
    using x publish_result_run(1) [OF inv x] unfolding fail_session_def
    by (intro run_pure) (auto simp: Let_def)
next
  case False
  have fin: "state_of x \<noteq> Finalizing" if "session_mut s sid = Some x" for x
    using inv_session_ok [OF inv that] by (auto simp: session_ok_def)
  show ?thesis unfolding fail_session_def
    by (intro run_pure) (use False fin in \<open>auto simp: Let_def split: option.splits\<close>)
qed

section \<open>What a run preserves\<close>

lemma release_frame: "\<exists>m. snd (release_reservation s rid) = s\<lparr>resources := m\<rparr>"
proof -
  have "s\<lparr>resources := m\<rparr>\<lparr>resources := m'\<rparr> = s\<lparr>resources := m'\<rparr>" for m m' by simp
  then show ?thesis
    by (auto simp: release_reservation_def snd_try_with on_resources_def split: prod.splits outcome.splits)
qed

text \<open>Records and results are only added, and a session keeps its authorization and never goes back.\<close>

fun state_rank :: "node_connection_state \<Rightarrow> nat" where
  "state_rank TestReady = 0"
| "state_rank Running = 1"
| "state_rank st = 2"

definition extends :: "'h session_coordinator \<Rightarrow> 'h session_coordinator \<Rightarrow> bool" where
  "extends s t \<longleftrightarrow>
     operations s \<subseteq>\<^sub>m operations t \<and> results s \<subseteq>\<^sub>m results t
     \<and> (\<forall>sid x. session_mut s sid = Some x \<longrightarrow>
          (\<exists>y. session_mut t sid = Some y \<and> authorization y = authorization x
             \<and> state_rank (state_of x) \<le> state_rank (state_of y)
             \<and> (state_rank (state_of x) = 2 \<longrightarrow> state_of y = state_of x)))"

lemma extends_refl: "extends s s"
  by (simp add: extends_def)

lemma extends_trans: "extends s t \<Longrightarrow> extends t u \<Longrightarrow> extends s u"
  unfolding extends_def by (fastforce intro: map_le_trans)

lemma extends_put:
  assumes x: "session_mut s sid = Some x" "same_kind x y" "authorization y = authorization x"
    and rank: "state_rank (state_of x) < 2" "state_rank (state_of x) \<le> state_rank (state_of y)"
    and res: "results s \<subseteq>\<^sub>m res"
  shows "extends s ((put_session (s\<lparr>resources := m\<rparr>) sid y)\<lparr>results := res\<rparr>)"
  using assms by (auto simp: extends_def session_mut_put [OF x(1,2)])

lemma effect_extends: "session_effect s t \<Longrightarrow> extends s t"
proof (induction rule: session_effect.induct)
  case (Record s ops)
  then show ?case by (simp add: extends_def)
next
  case (Adjust s sid x y)
  then show ?case
    using extends_put [of s sid x y "results s" "resources s"] by (cases y) (auto simp: adjusts_def)
next
  case (Begin s sid x now l)
  then show ?case
    using extends_put [of s sid x "set_state Running (set_lifecycle l x)" "results s" "resources s"]
    by (cases x) auto
next
  case (Finish s sid x r t st res v)
  obtain m where t: "t = s\<lparr>resources := m\<rparr>" using release_frame [of s "reservation_of x"] Finish(3) by auto
  show ?case unfolding t
    by (rule extends_put [OF Finish(1)]) (use Finish in \<open>auto simp: map_le_def\<close>)
next
  case (Open s sid iter rid key mode r t p y)
  obtain m where t: "t = s\<lparr>resources := m\<rparr>"
    using snd_reserve_active [of iter s rid sid key mode] Open(4) by auto
  show ?case using Open(1) by (auto simp: t extends_def session_mut_new)
next
  case (Claim s sid iter rid p key mode)
  show ?case using snd_reserve_active [of iter s rid sid key mode] by (auto simp: extends_def)
qed

lemma run_extends: "session_run s t \<Longrightarrow> extends s t"
  by (induction rule: rtranclp_induct) (auto intro: extends_refl extends_trans effect_extends)

end
