(* ===== verification/Session_Calls.thy ===== *)
theory Session_Calls
  imports Session_Safety "HOL-Library.Code_Target_Numeral"
begin

text \<open>
  The coordinator as a state machine: \<open>perform\<close> is one call of its interface with the environment it
  sees (the iteration order of the resource map, the operating system, the clock), and the properties
  are about every sequence of calls.
\<close>

section \<open>Calls\<close>

datatype session_call =
    PrepareTcpCall prepare_tcp_request
  | PrepareTcpSenderCall prepare_tcp_sender_request
  | PrepareTcpBidirectionalCall prepare_tcp_bidirectional_request
  | PrepareUdpCall prepare_udp_request
  | PrepareUdpSenderCall prepare_udp_sender_request
  | PrepareUdpBidirectionalCall prepare_udp_bidirectional_request
  | PrepareDpdkCall prepare_dpdk_receiver_request
  | StartCall bytes string u64
  | StopCall bytes string
  | BeginCall bytes
  | BeginReceiverCall bytes
  | BeginSenderCall bytes
  | BeginBidirectionalCall bytes
  | BeginDpdkCall bytes
  | TakeListenerCall bytes
  | TakeTcpSenderCall bytes
  | TakeTcpBidirectionalCall bytes
  | TakeSocketCall bytes
  | TakeUdpSenderCall bytes
  | TakeUdpBidirectionalCall bytes
  | CompleteCall bytes bytes
  | FailCall bytes bytes

datatype 'h session_reply =
    TcpReply prepare_tcp_response
  | UdpReply prepare_udp_response
  | PlanReply prepared_dpdk_receiver
  | StateReply node_connection_state
  | ReceiverReply "'h prepared_socket_receiver"
  | SenderReply "'h prepared_socket_sender"
  | BidirectionalReply "'h prepared_socket_bidirectional"
  | ListenerReply "'h \<times> authorized_tcp_receiver_config"
  | SocketReply "'h \<times> socket_addr udp_receiver_config"
  | ResultReply test_result

record 'h session_env =
  env_iter :: "(string \<times> reservation) list \<Rightarrow> (string \<times> reservation) list"
  env_os :: "'h session_os"
  env_now :: u64

definition reply_as ::
  "('a \<Rightarrow> 'h session_reply) \<Rightarrow> 'a result \<times> 'h session_coordinator
     \<Rightarrow> 'h session_reply result \<times> 'h session_coordinator" where
  "reply_as c m = (and_then (fst m) (\<lambda>x. Ok (c x)), snd m)"

fun perform ::
  "(bytes \<Rightarrow> string + 'n json) \<Rightarrow> (bytes \<Rightarrow> bytes) \<Rightarrow> 'h session_env \<Rightarrow> session_call
     \<Rightarrow> 'h session_coordinator \<Rightarrow> 'h session_reply result \<times> 'h session_coordinator" where
  "perform js sha e (PrepareTcpCall req) s = reply_as TcpReply (prepare_tcp (env_iter e) (env_os e) s req (env_now e))"
| "perform js sha e (PrepareTcpSenderCall req) s =
     reply_as TcpReply (prepare_tcp_sender (env_iter e) (env_os e) s req (env_now e))"
| "perform js sha e (PrepareTcpBidirectionalCall req) s =
     reply_as TcpReply (prepare_tcp_bidirectional (env_iter e) (env_os e) s req (env_now e))"
| "perform js sha e (PrepareUdpCall req) s = reply_as UdpReply (prepare_udp (env_iter e) (env_os e) s req (env_now e))"
| "perform js sha e (PrepareUdpSenderCall req) s =
     reply_as UdpReply (prepare_udp_sender (env_iter e) (env_os e) s req (env_now e))"
| "perform js sha e (PrepareUdpBidirectionalCall req) s =
     reply_as UdpReply (prepare_udp_bidirectional (env_iter e) (env_os e) s req (env_now e))"
| "perform js sha e (PrepareDpdkCall req) s =
     reply_as PlanReply (prepare_dpdk_receiver (env_iter e) (env_os e) s req (env_now e))"
| "perform js sha e (StartCall sid oid start_at) s = reply_as StateReply (start s sid oid start_at (env_now e))"
| "perform js sha e (StopCall sid oid) s = reply_as StateReply (stop_session s sid oid)"
| "perform js sha e (BeginCall sid) s = reply_as StateReply (begin_scheduled s sid (env_now e))"
| "perform js sha e (BeginReceiverCall sid) s = reply_as ReceiverReply (begin_and_take_receiver s sid (env_now e))"
| "perform js sha e (BeginSenderCall sid) s = reply_as SenderReply (begin_and_take_sender s sid (env_now e))"
| "perform js sha e (BeginBidirectionalCall sid) s =
     reply_as BidirectionalReply (begin_and_take_bidirectional s sid (env_now e))"
| "perform js sha e (BeginDpdkCall sid) s = reply_as PlanReply (begin_and_take_dpdk_receiver s sid (env_now e))"
| "perform js sha e (TakeListenerCall sid) s = reply_as ListenerReply (take_tcp_listener s sid)"
| "perform js sha e (TakeTcpSenderCall sid) s = reply_as SenderReply (take_tcp_sender s sid)"
| "perform js sha e (TakeTcpBidirectionalCall sid) s = reply_as BidirectionalReply (take_tcp_bidirectional s sid)"
| "perform js sha e (TakeSocketCall sid) s = reply_as SocketReply (take_udp_socket s sid)"
| "perform js sha e (TakeUdpSenderCall sid) s = reply_as SenderReply (take_udp_sender s sid)"
| "perform js sha e (TakeUdpBidirectionalCall sid) s = reply_as BidirectionalReply (take_udp_bidirectional s sid)"
| "perform js sha e (CompleteCall sid json) s = reply_as ResultReply (complete js sha s sid json)"
| "perform js sha e (FailCall sid json) s = reply_as ResultReply (fail_session js sha s sid json)"

text \<open>A session identifier is an array of 16 bytes.\<close>

fun call_typed :: "session_call \<Rightarrow> bool" where
  "call_typed (PrepareTcpCall req) = (length (tcp_request_session req) = 16)"
| "call_typed (PrepareTcpSenderCall req) = (length (tcp_sender_session req) = 16)"
| "call_typed (PrepareTcpBidirectionalCall req) = (length (tcp_both_session req) = 16)"
| "call_typed (PrepareUdpCall req) = (length (udp_request_session req) = 16)"
| "call_typed (PrepareUdpSenderCall req) = (length (udp_sender_session req) = 16)"
| "call_typed (PrepareUdpBidirectionalCall req) = (length (udp_both_session req) = 16)"
| "call_typed (PrepareDpdkCall req) = (length (dpdk_request_session req) = 16)"
| "call_typed _ = True"

definition coordinator_init :: "'h session_coordinator \<Rightarrow> bool" where
  "coordinator_init s \<longleftrightarrow> s = new_coordinator"

definition coordinator_step ::
  "(bytes \<Rightarrow> string + 'n json) \<Rightarrow> (bytes \<Rightarrow> bytes) \<Rightarrow> 'h session_coordinator
     \<Rightarrow> 'h session_env \<times> session_call \<Rightarrow> 'h session_coordinator \<Rightarrow> bool" where
  "coordinator_step js sha s l t \<longleftrightarrow>
     (case l of (e, c) \<Rightarrow> iteration_order (env_iter e) \<and> call_typed c \<and> t = snd (perform js sha e c s))"

definition later ::
  "(bytes \<Rightarrow> string + 'n json) \<Rightarrow> (bytes \<Rightarrow> bytes) \<Rightarrow> 'h session_coordinator \<Rightarrow> 'h session_coordinator \<Rightarrow> bool" where
  "later js sha = (\<lambda>s t. \<exists>l. coordinator_step js sha s l t)\<^sup>*\<^sup>*"

lemma snd_reply_as [simp]: "snd (reply_as c m) = snd m"
  by (simp add: reply_as_def)

lemma reply_as_Ok: "reply_as c m = (Ok v, t) \<longleftrightarrow> (\<exists>x. m = (Ok x, t) \<and> v = c x)"
  by (cases m; cases "fst m") (auto simp: reply_as_def)

lemma step_run:
  assumes inv: "coordinator_inv s" and step: "coordinator_step js sha s l t"
  shows "session_run s t"
proof -
  obtain e c where l: "l = (e, c)" by fastforce
  have iter: "iteration_order (env_iter e)" and c: "call_typed c" and t: "t = snd (perform js sha e c s)"
    using step by (auto simp: coordinator_step_def l)
  have disjoint: "kinds_disjoint s" using inv by (simp add: coordinator_inv_def)
  note runs = prepare_tcp_run prepare_tcp_sender_run prepare_tcp_bidirectional_run prepare_udp_run
    prepare_udp_sender_run prepare_udp_bidirectional_run prepare_dpdk_receiver_run
  show ?thesis unfolding t using c
    by (cases c) (simp_all add: runs [OF iter] start_run stop_session_run [OF inv] begin_scheduled_run
        begin_and_take_run [OF inv] take_tcp_run [OF disjoint] take_udp_run [OF disjoint]
        complete_run [OF inv] fail_session_run [OF inv])
qed

interpretation coordinator: invariant_system coordinator_init "coordinator_step js sha" coordinator_inv
proof
  show "coordinator_inv s" if "coordinator_init s" for s :: "'h session_coordinator"
    using that coordinator_inv_new by (simp add: coordinator_init_def)
  show "coordinator_inv t" if "coordinator_inv s" "coordinator_step js sha s l t" for s l and t :: "'h session_coordinator"
    using coordinator_inv_run [OF step_run [OF that] that(1)] .
qed

lemma later_run: "later js sha s t \<Longrightarrow> coordinator_inv s \<Longrightarrow> session_run s t \<and> coordinator_inv t"
  unfolding later_def
  by (induction rule: rtranclp_induct) (blast intro: run_trans step_run coordinator_inv_run)+

lemma later_extends: "later js sha s t \<Longrightarrow> coordinator_inv s \<Longrightarrow> extends s t"
  using later_run run_extends by blast

lemma extends_lookup:
  assumes "extends s t"
  shows "operations s oid = Some rec \<Longrightarrow> operations t oid = Some rec"
    and "results s sid = Some res \<Longrightarrow> results t sid = Some res"
  using assms by (metis domI extends_def map_le_def)+

section \<open>One worker per session\<close>










section \<open>Sessions and their resources\<close>

text \<open>Two reservations that hold an exclusively claimed resource cannot both exist.\<close>

lemma exclusive_apart:
  assumes inv: "manager_inv m" and keys: "a \<noteq> b"
    and ra: "map_of (reservations m) a = Some ra" "reservation_state ra \<noteq> Released" "c \<in> set (claims (request ra))"
    and rb: "map_of (reservations m) b = Some rb" "reservation_state rb \<noteq> Released" "d \<in> set (claims (request rb))"
    and ex: "claim_mode c = Exclusive"
  shows "claim_resource d \<noteq> claim_resource c"
proof
  assume eq: "claim_resource d = claim_resource c"
  let ?P = "\<lambda>h. claim_resource h = claim_resource c"
  obtain xs ys where l: "reservations m = xs @ (a, ra) # ys" using update_present [OF ra(1)] by blast
  have held: "held m = concat (map (\<lambda>(_, r). held_by r) xs) @ claims (request ra) @ concat (map (\<lambda>(_, r). held_by r) ys)"
    using ra(2) by (simp add: held_def l held_by_def holds_resources_def)
  have "c \<in> set (held m)" using ra(3) held by simp
  then have one: "filter ?P (held m) = [c]" using inv ex by (auto simp: manager_inv_def held_ok_def)
  have inner: "1 \<le> length (filter ?P (claims (request ra)))"
    using ra(3) by (metis (mono_tags, lifting) One_nat_def Suc_leI filter_empty_conv length_greater_0_conv)
  have d: "d \<in> set (held_by rb)" using rb(2,3) by (simp add: held_by_def holds_resources_def)
  have outer: "1 \<le> length (filter ?P (concat (map (\<lambda>(_, r). held_by r) zs)))"
    if "(b, rb) \<in> set zs" for zs :: "(string \<times> reservation) list"
  proof -
    have "d \<in> set (concat (map (\<lambda>(_, r). held_by r) zs))" using d by (auto intro!: bexI [OF _ that])
    then have "d \<in> set (filter ?P (concat (map (\<lambda>(_, r). held_by r) zs)))" using eq by simp
    then show ?thesis by (metis One_nat_def Suc_leI length_pos_if_in_set)
  qed
  have "(b, rb) \<in> set xs \<or> (b, rb) \<in> set ys" using map_of_SomeD [OF rb(1)] keys by (auto simp: l)
  then have "2 \<le> length (filter ?P (held m))"
    using outer [of xs] outer [of ys] inner by (auto simp: held)
  then show False by (simp add: one)
qed

text \<open>
  C7.  Sessions and resources: in every reachable state a session that is ready or running holds an
  active reservation in its own name, and one that was completed, failed or canceled has released it
  and closed its endpoint.  No session is ever left in the finalizing state and no result is left
  pending; a result exists exactly for the completed and the failed sessions.  A resource one live
  session claims exclusively, such as its data port, is not claimed by any other live session.
\<close>

theorem session_owns_resources:
  assumes "reachable coordinator_init (coordinator_step js sha) s" "session_mut s sid = Some x"
  shows "(\<exists>r. get_reservation (resources s) (reservation_of x) = Some r
      \<and> request_session (request r) = hex_session_id sid
      \<and> (state_of x \<in> {TestReady, Running} \<and> reservation_state r = Active
         \<and> (\<forall>sid' x' r'. session_mut s sid' = Some x' \<and> sid' \<noteq> sid \<and> state_of x' \<in> {TestReady, Running}
              \<and> get_reservation (resources s) (reservation_of x') = Some r' \<longrightarrow>
              (\<forall>c \<in> set (claims (request r)). \<forall>d \<in> set (claims (request r')).
                 claim_mode c = Exclusive \<longrightarrow> claim_resource d \<noteq> claim_resource c))
        \<or> state_of x \<in> {Completed, Failed, Canceled} \<and> reservation_state r = Released \<and> endpoint_closed x))
    \<and> pending_results s = Map.empty
    \<and> (results s sid \<noteq> None \<longleftrightarrow> state_of x \<in> {Completed, Failed})"
proof -
  have inv: "coordinator_inv s" by (rule coordinator.reachable_inv [OF assms(1)])
  have ok: "session_ok (resources s) sid x" by (rule inv_session_ok [OF inv assms(2)])
  obtain r where r: "map_of (reservations (resources s)) (reservation_of x) = Some r"
    "request_session (request r) = hex_session_id sid"
    "state_of x \<in> {TestReady, Running} \<and> reservation_state r = Active
     \<or> state_of x \<in> {Completed, Failed, Canceled} \<and> reservation_state r = Released \<and> endpoint_closed x"
    using ok unfolding session_ok_def by blast
  have apart: "claim_resource d \<noteq> claim_resource c"
    if live: "reservation_state r = Active" and other: "session_mut s sid' = Some x'" "sid' \<noteq> sid"
      "state_of x' \<in> {TestReady, Running}" "map_of (reservations (resources s)) (reservation_of x') = Some r'"
      and cd: "c \<in> set (claims (request r))" "d \<in> set (claims (request r'))" "claim_mode c = Exclusive"
    for sid' x' r' c d
  proof -
    have ok': "session_ok (resources s) sid' x'" by (rule inv_session_ok [OF inv other(1)])
    obtain p q where "reservation_of x = p @ hex_session_id sid" "reservation_of x' = q @ hex_session_id sid'"
      "length sid = 16" "length sid' = 16" using ok ok' unfolding session_ok_def by blast
    then have "reservation_of x \<noteq> reservation_of x'"
      using reservation_name_inject [of p sid q sid'] other(2) by auto
    moreover have "reservation_state r' = Active" using ok' other(3,4) by (auto simp: session_ok_def)
    ultimately show ?thesis
      using inv r(1) live other(4) cd by (intro exclusive_apart) (auto simp: coordinator_inv_def)
  qed
  have res: "results s sid \<noteq> None \<longleftrightarrow> state_of x \<in> {Completed, Failed}" "pending_results s = Map.empty"
    using inv assms(2) by (auto simp: coordinator_inv_def)
  show ?thesis
    unfolding get_reservation_def using r res apart by auto
qed

section \<open>Repeating an operation\<close>

fun operation_of :: "session_call \<Rightarrow> string option" where
  "operation_of (PrepareTcpCall req) = Some (tcp_request_operation req)"
| "operation_of (PrepareTcpSenderCall req) = Some (tcp_sender_operation req)"
| "operation_of (PrepareTcpBidirectionalCall req) = Some (tcp_both_operation req)"
| "operation_of (PrepareUdpCall req) = Some (udp_request_operation req)"
| "operation_of (PrepareUdpSenderCall req) = Some (udp_sender_operation req)"
| "operation_of (PrepareUdpBidirectionalCall req) = Some (udp_both_operation req)"
| "operation_of (PrepareDpdkCall req) = Some (dpdk_request_operation req)"
| "operation_of (StartCall sid oid start_at) = Some oid"
| "operation_of (StopCall sid oid) = Some oid"
| "operation_of _ = None"

text \<open>The answer the log holds for a call, if the recorded operation is that call.\<close>

definition logged :: "session_call \<Rightarrow> operation_record \<Rightarrow> 'h session_reply option" where
  "logged c rec =
     (case c of
        PrepareTcpCall req \<Rightarrow> (case rec of OpPrepareTcp stored v \<Rightarrow> if stored = req then Some (TcpReply v) else None | _ \<Rightarrow> None)
      | PrepareTcpSenderCall req \<Rightarrow> (case rec of OpPrepareTcpSender stored v \<Rightarrow> if stored = req then Some (TcpReply v) else None | _ \<Rightarrow> None)
      | PrepareTcpBidirectionalCall req \<Rightarrow> (case rec of OpPrepareTcpBidirectional stored v \<Rightarrow> if stored = req then Some (TcpReply v) else None | _ \<Rightarrow> None)
      | PrepareUdpCall req \<Rightarrow> (case rec of OpPrepareUdp stored v \<Rightarrow> if stored = req then Some (UdpReply v) else None | _ \<Rightarrow> None)
      | PrepareUdpSenderCall req \<Rightarrow> (case rec of OpPrepareUdpSender stored v \<Rightarrow> if stored = req then Some (UdpReply v) else None | _ \<Rightarrow> None)
      | PrepareUdpBidirectionalCall req \<Rightarrow> (case rec of OpPrepareUdpBidirectional stored v \<Rightarrow> if stored = req then Some (UdpReply v) else None | _ \<Rightarrow> None)
      | PrepareDpdkCall req \<Rightarrow> (case rec of OpPrepareDpdkReceiver stored v \<Rightarrow> if stored = req then Some (PlanReply v) else None | _ \<Rightarrow> None)
      | StartCall sid oid start_at \<Rightarrow>
          (case rec of OpStart stored stored_start v \<Rightarrow>
             if stored = sid \<and> stored_start = start_at then Some (StateReply v) else None | _ \<Rightarrow> None)
      | StopCall sid oid \<Rightarrow>
          (case rec of OpStop stored v \<Rightarrow> if stored = sid then Some (StateReply v) else None | _ \<Rightarrow> None)
      | _ \<Rightarrow> None)"

lemma prepare_tcp_logged:
  "operations s (tcp_request_operation req) = Some rec \<Longrightarrow> prepare_tcp iter os s req now =
     (case rec of OpPrepareTcp stored v \<Rightarrow> if stored = req then Ok v else Err operation_conflict
      | _ \<Rightarrow> Err operation_conflict, s)"
  unfolding prepare_tcp_def by (erule ssubst, rule option.case(2))

lemma prepare_tcp_sender_logged:
  "operations s (tcp_sender_operation req) = Some rec \<Longrightarrow> prepare_tcp_sender iter os s req now =
     (case rec of OpPrepareTcpSender stored v \<Rightarrow> if stored = req then Ok v else Err operation_conflict
      | _ \<Rightarrow> Err operation_conflict, s)"
  unfolding prepare_tcp_sender_def by (erule ssubst, rule option.case(2))

lemma prepare_tcp_bidirectional_logged:
  "operations s (tcp_both_operation req) = Some rec \<Longrightarrow> prepare_tcp_bidirectional iter os s req now =
     (case rec of OpPrepareTcpBidirectional stored v \<Rightarrow> if stored = req then Ok v else Err operation_conflict
      | _ \<Rightarrow> Err operation_conflict, s)"
  unfolding prepare_tcp_bidirectional_def by (erule ssubst, rule option.case(2))

lemma prepare_udp_logged:
  "operations s (udp_request_operation req) = Some rec \<Longrightarrow> prepare_udp iter os s req now =
     (case rec of OpPrepareUdp stored v \<Rightarrow> if stored = req then Ok v else Err operation_conflict
      | _ \<Rightarrow> Err operation_conflict, s)"
  unfolding prepare_udp_def by (erule ssubst, rule option.case(2))

lemma prepare_udp_sender_logged:
  "operations s (udp_sender_operation req) = Some rec \<Longrightarrow> prepare_udp_sender iter os s req now =
     (case rec of OpPrepareUdpSender stored v \<Rightarrow> if stored = req then Ok v else Err operation_conflict
      | _ \<Rightarrow> Err operation_conflict, s)"
  unfolding prepare_udp_sender_def by (erule ssubst, rule option.case(2))

lemma prepare_udp_bidirectional_logged:
  "operations s (udp_both_operation req) = Some rec \<Longrightarrow> prepare_udp_bidirectional iter os s req now =
     (case rec of OpPrepareUdpBidirectional stored v \<Rightarrow> if stored = req then Ok v else Err operation_conflict
      | _ \<Rightarrow> Err operation_conflict, s)"
  unfolding prepare_udp_bidirectional_def by (erule ssubst, rule option.case(2))

lemma prepare_dpdk_receiver_logged:
  "operations s (dpdk_request_operation req) = Some rec \<Longrightarrow> prepare_dpdk_receiver iter os s req now =
     (case rec of OpPrepareDpdkReceiver stored v \<Rightarrow> if stored = req then Ok v else Err operation_conflict
      | _ \<Rightarrow> Err operation_conflict, s)"
  unfolding prepare_dpdk_receiver_def by (erule ssubst, rule option.case(2))

lemmas prepare_logged = prepare_tcp_logged prepare_tcp_sender_logged prepare_tcp_bidirectional_logged prepare_udp_logged prepare_udp_sender_logged prepare_udp_bidirectional_logged prepare_dpdk_receiver_logged

lemma perform_logged:
  assumes "operation_of c = Some oid" "operations s oid = Some rec"
  shows "perform js sha e c s = (ok_or operation_conflict (logged c rec), s)"
proof -
  have oid: "oid = the (operation_of c)" using assms(1) by simp
  note simps = prepare_logged start_def stop_session_def matching_start_def matching_stop_def
  show ?thesis using assms(1) assms(2) [unfolded oid]
    by (cases c; cases rec; simp add: simps logged_def reply_as_def ok_or_def)
qed

text \<open>A successful operation is in the log.\<close>

lemma record_operation_lookup [simp]: "operations (record_operation oid rec s) oid = Some rec"
  by (simp add: record_operation_def)

lemma prepare_tcp_records:
  assumes "prepare_tcp iter os s req now = (Ok v, t)" "operations s (tcp_request_operation req) = None"
  shows "operations t (tcp_request_operation req) = Some (OpPrepareTcp req v)"
  using assms(1) unfolding prepare_tcp_def assms(2) option.case Let_def
  by (auto simp: try_with_eq_Ok simp del: put_session.simps split: if_splits)

lemma prepare_tcp_sender_records:
  assumes "prepare_tcp_sender iter os s req now = (Ok v, t)" "operations s (tcp_sender_operation req) = None"
  shows "operations t (tcp_sender_operation req) = Some (OpPrepareTcpSender req v)"
  using assms(1) unfolding prepare_tcp_sender_def assms(2) option.case Let_def
  by (auto simp: try_with_eq_Ok simp del: put_session.simps split: if_splits)

lemma prepare_tcp_bidirectional_records:
  assumes "prepare_tcp_bidirectional iter os s req now = (Ok v, t)" "operations s (tcp_both_operation req) = None"
  shows "operations t (tcp_both_operation req) = Some (OpPrepareTcpBidirectional req v)"
  using assms(1) unfolding prepare_tcp_bidirectional_def assms(2) option.case Let_def
  by (auto simp: try_with_eq_Ok simp del: put_session.simps split: if_splits)

lemma prepare_udp_records:
  assumes "prepare_udp iter os s req now = (Ok v, t)" "operations s (udp_request_operation req) = None"
  shows "operations t (udp_request_operation req) = Some (OpPrepareUdp req v)"
  using assms(1) unfolding prepare_udp_def assms(2) option.case Let_def
  by (auto simp: try_with_eq_Ok simp del: put_session.simps split: if_splits)

lemma prepare_udp_sender_records:
  assumes "prepare_udp_sender iter os s req now = (Ok v, t)" "operations s (udp_sender_operation req) = None"
  shows "operations t (udp_sender_operation req) = Some (OpPrepareUdpSender req v)"
  using assms(1) unfolding prepare_udp_sender_def assms(2) option.case Let_def
  by (auto simp: try_with_eq_Ok simp del: put_session.simps split: if_splits)

lemma prepare_udp_bidirectional_records:
  assumes "prepare_udp_bidirectional iter os s req now = (Ok v, t)" "operations s (udp_both_operation req) = None"
  shows "operations t (udp_both_operation req) = Some (OpPrepareUdpBidirectional req v)"
  using assms(1) unfolding prepare_udp_bidirectional_def assms(2) option.case Let_def
  by (auto simp: try_with_eq_Ok simp del: put_session.simps split: if_splits)

lemma prepare_dpdk_receiver_records:
  assumes "prepare_dpdk_receiver iter os s req now = (Ok v, t)" "operations s (dpdk_request_operation req) = None"
  shows "operations t (dpdk_request_operation req) = Some (OpPrepareDpdkReceiver req v)"
  using assms(1) unfolding prepare_dpdk_receiver_def assms(2) option.case Let_def
  by (auto simp: try_with_eq_Ok simp del: put_session.simps split: if_splits)

lemmas prepare_records = prepare_tcp_records prepare_tcp_sender_records prepare_tcp_bidirectional_records prepare_udp_records prepare_udp_sender_records prepare_udp_bidirectional_records prepare_dpdk_receiver_records

lemma start_stop_records:
  "start s sid oid start_at now = (Ok v, t) \<Longrightarrow> operations s oid = None \<Longrightarrow> operations t oid = Some (OpStart sid start_at v)"
  "stop_session s sid oid = (Ok v, t) \<Longrightarrow> operations s oid = None \<Longrightarrow> operations t oid = Some (OpStop sid v)"
  unfolding start_def stop_session_def
  by (auto simp: try_with_eq_Ok Let_def split: option.splits if_splits)

lemma perform_records:
  assumes "perform js sha e c s = (Ok v, t)" "operation_of c = Some oid"
  shows "\<exists>rec. operations t oid = Some rec \<and> logged c rec = Some v"
proof (cases "operations s oid")
  case (Some rec)
  then show ?thesis
    using assms perform_logged [OF assms(2) Some, of js sha e] by (auto simp: ok_or_def split: option.splits)
next
  case None
  have oid: "oid = the (operation_of c)" using assms(2) by simp
  show ?thesis
    using assms None [unfolded oid]
    by (cases c) (auto simp: reply_as_Ok logged_def dest!: prepare_records start_stop_records)
qed

text \<open>The call a record is about.\<close>

definition recorded_call :: "string \<Rightarrow> operation_record \<Rightarrow> session_call" where
  "recorded_call oid rec =
     (case rec of
        OpPrepareTcp req _ \<Rightarrow> PrepareTcpCall req
      | OpPrepareTcpSender req _ \<Rightarrow> PrepareTcpSenderCall req
      | OpPrepareTcpBidirectional req _ \<Rightarrow> PrepareTcpBidirectionalCall req
      | OpPrepareUdpSender req _ \<Rightarrow> PrepareUdpSenderCall req
      | OpPrepareUdpBidirectional req _ \<Rightarrow> PrepareUdpBidirectionalCall req
      | OpPrepareUdp req _ \<Rightarrow> PrepareUdpCall req
      | OpPrepareDpdkReceiver req _ \<Rightarrow> PrepareDpdkCall req
      | OpStart sid start_at _ \<Rightarrow> StartCall sid oid start_at
      | OpStop sid _ \<Rightarrow> StopCall sid oid)"

lemma logged_recorded: "logged c rec = Some v \<Longrightarrow> operation_of c = Some oid \<Longrightarrow> c = recorded_call oid rec"
  by (cases c; cases rec; simp add: logged_def recorded_call_def split: if_splits)

lemma perform_step:
  "iteration_order (env_iter e) \<Longrightarrow> call_typed c \<Longrightarrow> perform js sha e c s = (r, t) \<Longrightarrow> coordinator_step js sha s (e, c) t"
  by (simp add: coordinator_step_def)

text \<open>
  C21.  Repeating an operation is harmless: once a prepare, start or stop call has succeeded under an
  operation ID, then at any later time, whatever was called in between and whatever the operating
  system and the clock would say now, the same call returns the same answer, any other call under that
  ID is refused with an operation conflict, and neither changes the coordinator.
\<close>

theorem replay_idempotent:
  fixes s :: "'h session_coordinator"
  assumes "reachable coordinator_init (coordinator_step js sha) s"
    and "iteration_order (env_iter e)" "call_typed c" "operation_of c = Some oid"
    and "perform js sha e c s = (Ok v, t)" "later js sha t u" "operation_of c' = Some oid"
  shows "perform js sha e' c' u = (if c' = c then Ok v else Err operation_conflict, u)"
proof -
  have inv: "coordinator_inv s" by (rule coordinator.reachable_inv [OF assms(1)])
  obtain rec where rec: "operations t oid = Some rec" "logged c rec = Some v"
    using perform_records [OF assms(5,4)] by blast
  have "coordinator_inv t" by (rule coordinator.inv_step [OF inv perform_step [OF assms(2,3,5)]])
  then have "extends t u" by (rule later_extends [OF assms(6)])
  then have log: "operations u oid = Some rec" by (rule extends_lookup(1)) (rule rec(1))
  have "(logged c' rec :: 'h session_reply option) = None" if "c' \<noteq> c"
    using logged_recorded [OF _ assms(7), of rec] logged_recorded [OF rec(2) assms(4)] that by fastforce
  then show ?thesis using perform_logged [OF assms(7) log, of js sha e'] rec(2) by (auto simp: ok_or_def)
qed

section \<open>Results\<close>

lemma publish_result_Ok:
  assumes "publish_result s sid res rid st = (Ok v, t)"
  shows "v = res \<and> results t sid = Some res \<and> session_state t sid = Some st"
proof -
  obtain self x where x: "session_mut self sid = Some x"
    and t: "t = (put_session self sid (set_state st (close_endpoint x)))
      \<lparr>pending_results := (pending_results self)(sid := None), results := (results self)(sid \<mapsto> res)\<rparr>" and v: "v = res"
    using assms by (auto simp: publish_result_def try_with_eq_Ok Let_def simp del: put_session.simps split: option.splits)
  have "session_mut (put_session self sid (set_state st (close_endpoint x))) sid = Some (set_state st (close_endpoint x))"
    by (simp add: session_mut_put [OF x])
  then show ?thesis by (simp add: t v session_state_mut)
qed

lemma finish_call_Ok:
  assumes inv: "coordinator_inv s"
    and c: "c = CompleteCall sid json \<and> st = Completed \<or> c = FailCall sid json \<and> st = Failed"
    and ok: "perform js sha e c s = (Ok v, t)"
  shows "\<exists>res. v = ResultReply res \<and> result_json res = json \<and> results t sid = Some res
    \<and> (results s sid = None \<longrightarrow>
         res = \<lparr>result_session = sid, result_json = json, result_checksum = sha json\<rparr> \<and> session_state t sid = Some st)"
  using c ok
  by (auto simp: reply_as_Ok complete_def fail_session_def try_with_eq_Ok Let_def simp del: put_session.simps
      split: option.splits if_splits dest!: publish_result_Ok)

text \<open>
  C22.  Results are immutable: when completing or failing a session with a result document succeeds, the
  document is stored under the session, and after any further calls the stored result is still the
  same, completing or failing the session again returns it exactly if the bytes are the same and is an
  operation conflict otherwise, and the session keeps its final state.  The first success stores the
  document with its SHA-256 checksum.
\<close>

theorem results_immutable:
  assumes "reachable coordinator_init (coordinator_step js sha) s" "iteration_order (env_iter e)"
    and "c = CompleteCall sid json \<and> st = Completed \<or> c = FailCall sid json \<and> st = Failed"
    and "perform js sha e c s = (Ok v, t)" "later js sha t u" "validate_result_json js json' = Ok ()"
  shows "\<exists>res. v = ResultReply res \<and> result_session res = sid \<and> result_json res = json
    \<and> test_result_of u sid = Ok res
    \<and> (results s sid = None \<longrightarrow> result_checksum res = sha json \<and> session_state u sid = Some st)
    \<and> perform js sha e' (CompleteCall sid json') u =
        (if json' = json then Ok (ResultReply res) else Err operation_conflict, u)
    \<and> perform js sha e' (FailCall sid json') u =
        (if json' = json then Ok (ResultReply res) else Err operation_conflict, u)"
proof -
  have inv: "coordinator_inv s" by (rule coordinator.reachable_inv [OF assms(1)])
  from finish_call_Ok [OF inv assms(3,4)]
  obtain res where stored: "v = ResultReply res \<and> result_json res = json \<and> results t sid = Some res
    \<and> (results s sid = None \<longrightarrow>
      res = \<lparr>result_session = sid, result_json = json, result_checksum = sha json\<rparr> \<and> session_state t sid = Some st)" ..
  then have res: "v = ResultReply res" "result_json res = json" "results t sid = Some res"
    and new: "results s sid = None \<longrightarrow> result_checksum res = sha json \<and> session_state t sid = Some st" by auto
  have "call_typed c" using assms(3) by auto
  then have inv_t: "coordinator_inv t"
    by (rule coordinator.inv_step [OF inv perform_step [OF assms(2) _ assms(4)]])
  have ext: "extends t u" by (rule later_extends [OF assms(5) inv_t])
  have u: "results u sid = Some res" by (rule extends_lookup(2) [OF ext res(3)])
  have own: "result_session res = sid" using inv_t res(3) by (simp add: coordinator_inv_def)
  have "session_state u sid = Some st" if state: "session_state t sid = Some st"
  proof -
    obtain x where x: "session_mut t sid = Some x" "state_of x = st" using state by (auto simp: session_state_mut)
    then obtain y where "session_mut u sid = Some y" "state_rank st = 2 \<longrightarrow> state_of y = st"
      using ext unfolding extends_def by blast
    then show ?thesis using assms(3) by (auto simp: session_state_mut)
  qed
  then show ?thesis
    using res new own u assms(6)
    by (auto simp: test_result_of_def complete_def fail_session_def reply_as_def intro!: exI [of _ res])
qed

section \<open>A sample run\<close>

definition sample_session :: bytes where
  "sample_session = replicate 16 7"

definition sample_os :: "nat session_os" where
  "sample_os = \<lparr>bind_tcp = (\<lambda>_. Inr 5), bind_udp = (\<lambda>_. Inr 6),
     local_addr = (\<lambda>_. Inr (SocketV4 0x7F000001 40000)), random_fill = Inr (replicate 32 0xAB)\<rparr>"

definition sample_env :: "u64 \<Rightarrow> nat session_env" where
  "sample_env now = \<lparr>env_iter = id, env_os = sample_os, env_now = now\<rparr>"

definition sample_prepare :: prepare_tcp_request where
  "sample_prepare = \<lparr>tcp_request_session = sample_session, tcp_request_operation = ''p'',
     tcp_request_source_node = replicate 16 9, tcp_request_source = V4 0x7F000001,
     tcp_request_bind = SocketV4 0x7F000001 0,
     tcp_request_config = \<lparr>tcp_streams = 2, payload_bytes = 65536, tcp_warmup_milliseconds = 0,
       tcp_measurement_milliseconds = 1000\<rparr>, tcp_request_ttl = 60\<rparr>"

definition sample_json :: "bytes \<Rightarrow> string + unit json" where
  "sample_json _ = Inr (JObject [(''schema_version'', JString ''1'')])"

definition sample_sha :: "bytes \<Rightarrow> bytes" where
  "sample_sha bs = [of_nat (length bs)]"

abbreviation sample_step :: "u64 \<Rightarrow> session_call \<Rightarrow> nat session_coordinator \<Rightarrow> nat session_coordinator" where
  "sample_step now c s \<equiv> snd (perform sample_json sample_sha (sample_env now) c s)"

definition prepared :: "nat session_coordinator" where
  "prepared = sample_step 100 (PrepareTcpCall sample_prepare) new_coordinator"

definition scheduled :: "nat session_coordinator" where
  "scheduled = sample_step 101000000000 (StartCall sample_session ''s'' 102000000000) prepared"

definition started :: "nat session_coordinator" where
  "started = sample_step 102000000000 (BeginReceiverCall sample_session) scheduled"

lemma sample_step_reachable:
  assumes "reachable coordinator_init (coordinator_step sample_json sample_sha) s" "call_typed c"
  shows "reachable coordinator_init (coordinator_step sample_json sample_sha) (sample_step now c s)"
  using assms(1)
  by (rule reachable_step [where l = "(sample_env now, c)"])
    (use assms(2) in \<open>simp add: coordinator_step_def sample_env_def iteration_order_def\<close>)

lemma sample_reachable:
  "reachable coordinator_init (coordinator_step sample_json sample_sha) new_coordinator"
  "reachable coordinator_init (coordinator_step sample_json sample_sha) prepared"
  "reachable coordinator_init (coordinator_step sample_json sample_sha) scheduled"
  "reachable coordinator_init (coordinator_step sample_json sample_sha) started"
proof -
  show new: "reachable coordinator_init (coordinator_step sample_json sample_sha) new_coordinator"
    by (rule reachable_init) (simp add: coordinator_init_def)
  show p: "reachable coordinator_init (coordinator_step sample_json sample_sha) prepared"
    unfolding prepared_def by (rule sample_step_reachable [OF new]) (simp add: sample_prepare_def sample_session_def)
  show s: "reachable coordinator_init (coordinator_step sample_json sample_sha) scheduled"
    unfolding scheduled_def by (rule sample_step_reachable [OF p]) simp
  show "reachable coordinator_init (coordinator_step sample_json sample_sha) started"
    unfolding started_def by (rule sample_step_reachable [OF s]) simp
qed

lemma sample_ok:
  "is_ok (fst (perform sample_json sample_sha (sample_env 100) (PrepareTcpCall sample_prepare) new_coordinator))"
  "is_ok (fst (perform sample_json sample_sha (sample_env 102000000000) (BeginReceiverCall sample_session) scheduled))"
  "is_ok (fst (perform sample_json sample_sha (sample_env 103000000000) (CompleteCall sample_session [1, 2]) started))"
  "map_option state_of (session_mut started sample_session) = Some Running"
  "results started sample_session = None"
  by code_simp+

lemma is_ok_pair: "is_ok (fst m) \<Longrightarrow> \<exists>v. m = (Ok v, snd m)"
  by (cases m; cases "fst m") auto


theorem session_owns_resources_witness:
  "\<exists>x r. session_mut started sample_session = Some x \<and> state_of x = Running
    \<and> get_reservation (resources started) (reservation_of x) = Some r \<and> reservation_state r = Active
    \<and> results started sample_session = None"
proof -
  obtain x where x: "session_mut started sample_session = Some x" "state_of x = Running"
    using sample_ok(4) by auto
  show ?thesis using session_owns_resources [OF sample_reachable(4) x(1)] x by auto
qed

theorem replay_idempotent_witness:
  "\<exists>v. perform sample_json sample_sha (sample_env 999) (PrepareTcpCall sample_prepare) started = (Ok v, started)
    \<and> perform sample_json sample_sha (sample_env 999) (StopCall sample_session ''p'') started
        = (Err operation_conflict, started)"
proof -
  obtain v where v: "perform sample_json sample_sha (sample_env 100) (PrepareTcpCall sample_prepare)
      new_coordinator = (Ok v, prepared)"
    using is_ok_pair [OF sample_ok(1)] unfolding prepared_def by blast
  have iter: "iteration_order (env_iter (sample_env now))" for now by (simp add: sample_env_def iteration_order_def)
  have typed: "call_typed (PrepareTcpCall sample_prepare)" by (simp add: sample_prepare_def sample_session_def)
  have op: "operation_of (PrepareTcpCall sample_prepare) = Some ''p''" by (simp add: sample_prepare_def)
  have steps: "coordinator_step sample_json sample_sha prepared (sample_env 101000000000, StartCall sample_session ''s'' 102000000000) scheduled"
    "coordinator_step sample_json sample_sha scheduled (sample_env 102000000000, BeginReceiverCall sample_session) started"
    by (simp_all add: coordinator_step_def iter scheduled_def started_def)
  have later: "later sample_json sample_sha prepared started"
    unfolding later_def
    by (rule rtranclp.rtrancl_into_rtrancl [OF r_into_rtranclp]) (rule exI, rule steps)+
  show ?thesis
    using replay_idempotent [OF sample_reachable(1) iter typed op v later, of "PrepareTcpCall sample_prepare" "sample_env 999"]
      replay_idempotent [OF sample_reachable(1) iter typed op v later, of "StopCall sample_session ''p''" "sample_env 999"]
    by (simp add: sample_prepare_def)
qed

theorem results_immutable_witness:
  "\<exists>res t. perform sample_json sample_sha (sample_env 103000000000) (CompleteCall sample_session [1, 2]) started
      = (Ok (ResultReply res), t)
    \<and> result_checksum res = sample_sha [1, 2] \<and> test_result_of t sample_session = Ok res
    \<and> session_state t sample_session = Some Completed
    \<and> perform sample_json sample_sha (sample_env 0) (FailCall sample_session [3]) t = (Err operation_conflict, t)"
proof -
  obtain v t where v: "perform sample_json sample_sha (sample_env 103000000000) (CompleteCall sample_session [1, 2])
      started = (Ok v, t)"
    using is_ok_pair [OF sample_ok(3)] by blast
  have iter: "iteration_order (env_iter (sample_env 103000000000))" by (simp add: sample_env_def iteration_order_def)
  have json: "validate_result_json sample_json [3] = Ok ()"
    by (simp add: validate_result_json_def sample_json_def MAX_CONTROL_PAYLOAD_BYTES_def)
  have "later sample_json sample_sha t t" by (simp add: later_def)
  then show ?thesis
    using results_immutable [OF sample_reachable(4) iter _ v _ json, of sample_session "[1, 2]" Completed t "sample_env 0"]
      v sample_ok(5) by auto
qed

end
