(* ===== verification/Session_Authorization.thy ===== *)
theory Session_Authorization
  imports Session_Safety "HOL-Library.Code_Target_Numeral"
begin

text \<open>
  What a prepared session authorizes: the comparison of an attempt with the stored context is exact,
  and the context and the tag a prepare call creates are what the data plane will accept.  The last
  section has the two places where an error leaves a session or a resource behind.
\<close>

section \<open>The comparison\<close>

lemma constant_time_eq_iff: "constant_time_eq a b \<longleftrightarrow> a = b"
proof -
  have "length a = length b \<Longrightarrow> (\<forall>(x, y) \<in> set (zip a b). x = y) \<longleftrightarrow> a = b"
    by (auto simp: list_eq_iff_zip_eq)
  then show ?thesis by (auto simp: constant_time_eq_def fold_difference)
qed

text \<open>
  The check of a data-plane connection is exact: it accepts an attempt precisely when the session,
  the source node, the source address, the destination address and port, the protocol and the tag are
  those of the authorization, the source port is the authorized one if one is fixed, and the
  authorization has not expired; the comparison of the tags that looks at every byte is equality.
\<close>

theorem authorize_data_plane_exact:
  "authorize_data_plane a attempt \<longleftrightarrow>
     attempt_session attempt = auth_session a \<and> attempt_source_node attempt = auth_source_node a
     \<and> socket_ip (attempt_source attempt) = auth_source a
     \<and> auth_source_port a \<in> {None, Some (socket_port (attempt_source attempt))}
     \<and> socket_ip (attempt_destination attempt) = auth_destination a
     \<and> socket_port (attempt_destination attempt) = auth_destination_port a
     \<and> attempt_protocol attempt = auth_protocol a \<and> attempt_tag attempt = auth_tag a
     \<and> unat (attempt_now attempt) \<le> unat (auth_expires a)"
  by (cases "auth_source_port a")
    (auto simp: authorize_data_plane_def constant_time_eq_iff word_le_nat_alt)

section \<open>The tag\<close>

lemma hex_char_code: "d < 16 \<Longrightarrow> of_char (hex_char d) \<in> {48..57} \<union> {97..102 :: nat}"
  by (auto simp: hex_char_def)

lemma utf8_chars_ascii: "list_all (\<lambda>c. (of_char c :: nat) < 128) s \<Longrightarrow> utf8_chars s = map of_char s"
  by (induction s) (auto simp: utf8_chars_def)

lemma hex_bytes_code:
  assumes "c \<in> set (hex_bytes bs)"
  shows "of_char c \<in> {48..57} \<union> {97..102 :: nat}"
proof -
  obtain b where "c = hex_char (unat b div 16) \<or> c = hex_char (unat (b :: u8) mod 16)"
    using assms by (auto simp: hex_bytes_def)
  then show ?thesis using hex_char_code [of "unat b div 16"] hex_char_code [of "unat b mod 16"] unat_u8_div [of b] by auto
qed

lemma hex_tag_valid:
  assumes "length bs = 32"
  shows "validate_authorization_tag (hex_bytes bs) = Ok ()"
proof -
  have ascii: "utf8_chars (hex_bytes bs) = map of_char (hex_bytes bs)"
    by (rule utf8_chars_ascii) (auto simp: list_all_iff dest!: hex_bytes_code)
  have "\<not> list_ex char_is_control (utf8_chars (hex_bytes bs))"
    unfolding ascii by (auto simp: list_ex_iff char_is_control_def dest!: hex_bytes_code)
  then show ?thesis
    using assms by (simp add: validate_authorization_tag_def MIN_AUTHORIZATION_TAG_BYTES_def MAX_AUTHORIZATION_TAG_BYTES_def)
qed

lemma prepare_tcp_new:
  assumes "prepare_tcp iter os s req now = (Ok response, t)" "operations s (tcp_request_operation req) = None"
  shows "\<exists>listener bound expires bs. validate_prepare req = Ok ()
    \<and> checked_add now (tcp_request_ttl req) = Some expires
    \<and> bind_tcp os (tcp_request_bind req) = Inr listener \<and> local_addr os listener = Inr bound
    \<and> random_fill os = Inr bs
    \<and> response = \<lparr>tcp_response_session = tcp_request_session req, tcp_response_port = socket_port bound,
        tcp_response_tag = hex_bytes bs, tcp_response_expires = expires, tcp_response_state = TestReady\<rparr>
    \<and> authorization_for t (tcp_request_session req) = Some
        \<lparr>auth_session = tcp_request_session req, auth_source_node = tcp_request_source_node req,
         auth_source = tcp_request_source req, auth_source_port = None,
         auth_destination = socket_ip bound, auth_protocol = ''tcp'',
         auth_destination_port = socket_port bound, auth_tag = hex_bytes bs, auth_expires = expires\<rparr>"
proof -
  have result: "map_err f (from_result r) = Ok x \<longleftrightarrow> r = Inr x" for f :: "string \<Rightarrow> nettool_error" and r :: "string + 'b" and x
    by (cases r) auto
  have tag: "random_tag os = Ok v \<longleftrightarrow> (\<exists>bs. random_fill os = Inr bs \<and> v = hex_bytes bs)" for v
    by (cases "random_fill os") (auto simp: random_tag_def)
  show ?thesis
    using assms(1) unfolding prepare_tcp_def assms(2) option.case Let_def
    by (auto simp: try_with_eq_Ok ok_or_def result tag authorization_for_def record_operation_def
        split: if_splits option.splits)
qed

text \<open>
  C40.  What a successful TCP prepare hands out is well formed: the tag is the hexadecimal form of the
  32 random bytes and passes the data plane's own validation, the expiry is the current time plus a
  lifetime between ten seconds and an hour and does not wrap, and the session's authorization accepts
  exactly the connections from the requested node and address to the bound port that present this tag
  in time.
\<close>

theorem prepare_tcp_authorizes:
  assumes "prepare_tcp iter os s req now = (Ok response, t)" "operations s (tcp_request_operation req) = None"
    and "random_fill os = Inr bs" "length bs = 32"
  shows "validate_authorization_tag (tcp_response_tag response) = Ok ()
    \<and> tcp_response_tag response = hex_bytes bs \<and> tcp_response_state response = TestReady
    \<and> unat now + 10 \<le> unat (tcp_response_expires response)
    \<and> unat (tcp_response_expires response) \<le> unat now + 3600
    \<and> (\<exists>a bound listener. authorization_for t (tcp_request_session req) = Some a
         \<and> bind_tcp os (tcp_request_bind req) = Inr listener \<and> local_addr os listener = Inr bound
         \<and> tcp_response_port response = socket_port bound
         \<and> (\<forall>attempt. authorize_data_plane a attempt \<longleftrightarrow>
              attempt_session attempt = tcp_request_session req
              \<and> attempt_source_node attempt = tcp_request_source_node req
              \<and> socket_ip (attempt_source attempt) = tcp_request_source req
              \<and> socket_ip (attempt_destination attempt) = socket_ip bound
              \<and> socket_port (attempt_destination attempt) = tcp_response_port response
              \<and> attempt_protocol attempt = ''tcp'' \<and> attempt_tag attempt = tcp_response_tag response
              \<and> attempt_now attempt \<le> tcp_response_expires response))"
proof -
  obtain listener bound expires where new: "validate_prepare req = Ok ()"
    "checked_add now (tcp_request_ttl req) = Some expires"
    "bind_tcp os (tcp_request_bind req) = Inr listener" "local_addr os listener = Inr bound"
    and response: "response = \<lparr>tcp_response_session = tcp_request_session req, tcp_response_port = socket_port bound,
        tcp_response_tag = hex_bytes bs, tcp_response_expires = expires, tcp_response_state = TestReady\<rparr>"
    and auth: "authorization_for t (tcp_request_session req) = Some
        \<lparr>auth_session = tcp_request_session req, auth_source_node = tcp_request_source_node req,
         auth_source = tcp_request_source req, auth_source_port = None,
         auth_destination = socket_ip bound, auth_protocol = ''tcp'',
         auth_destination_port = socket_port bound, auth_tag = hex_bytes bs, auth_expires = expires\<rparr>"
    using prepare_tcp_new [OF assms(1,2)] assms(3) by auto
  have ttl: "10 \<le> tcp_request_ttl req" "tcp_request_ttl req \<le> 3600"
    using new(1) by (auto simp: validate_prepare_def split: if_splits)
  have "unat expires = unat now + unat (tcp_request_ttl req)"
    by (rule conjunct1 [OF checked_add_SomeD [OF new(2)]])
  then have "unat now + 10 \<le> unat expires \<and> unat expires \<le> unat now + 3600"
    using ttl by (simp add: word_le_nat_alt)
  then show ?thesis
    using new(3,4) auth hex_tag_valid [OF assms(4)]
    by (auto simp: response authorize_data_plane_def constant_time_eq_iff)
qed

definition example_os :: "nat session_os" where
  "example_os = \<lparr>bind_tcp = (\<lambda>_. Inr 5), bind_udp = (\<lambda>_. Inr 6),
     local_addr = (\<lambda>_. Inr (SocketV4 0x7F000001 40000)), random_fill = Inr (replicate 32 0xAB)\<rparr>"

definition example_request :: prepare_tcp_request where
  "example_request = \<lparr>tcp_request_session = replicate 16 7, tcp_request_operation = ''p'',
     tcp_request_source_node = replicate 16 9, tcp_request_source = V4 0x7F000001,
     tcp_request_bind = SocketV4 0x7F000001 0,
     tcp_request_config = \<lparr>tcp_streams = 2, payload_bytes = 65536, tcp_warmup_milliseconds = 0,
       tcp_measurement_milliseconds = 1000\<rparr>, tcp_request_ttl = 60\<rparr>"

lemma example_prepared: "is_ok (fst (prepare_tcp id example_os new_coordinator example_request 100))"
  by code_simp

theorem prepare_tcp_authorizes_witness:
  "\<exists>response t. prepare_tcp id example_os new_coordinator example_request 100 = (Ok response, t)
    \<and> validate_authorization_tag (tcp_response_tag response) = Ok ()
    \<and> 110 \<le> unat (tcp_response_expires response) \<and> unat (tcp_response_expires response) \<le> 3700"
proof -
  obtain response t where r: "prepare_tcp id example_os new_coordinator example_request 100 = (Ok response, t)"
    using example_prepared by (cases "prepare_tcp id example_os new_coordinator example_request 100";
        cases "fst (prepare_tcp id example_os new_coordinator example_request 100)") auto
  have none: "operations (new_coordinator :: nat session_coordinator) (tcp_request_operation example_request) = None"
    by (simp add: new_coordinator_def)
  have fill: "random_fill example_os = Inr (replicate 32 0xAB)" by (simp add: example_os_def)
  show ?thesis using prepare_tcp_authorizes [OF r none fill] r by auto
qed

section \<open>What an error leaves behind\<close>

text \<open>
  A DPDK prepare reserves the device before it draws the tag.  If the random source fails, the call
  returns an error and no session exists, but the device stays reserved: no call can release it, and
  another session cannot use it.
\<close>

definition dpdk_request :: "bytes \<Rightarrow> string \<Rightarrow> prepare_dpdk_receiver_request" where
  "dpdk_request sid oid = \<lparr>dpdk_request_session = sid, dpdk_request_operation = oid,
     dpdk_request_source_node = replicate 16 9, dpdk_request_pci = ''0000:01:00.0'',
     dpdk_request_duration = 1000, dpdk_request_mac = ''02:00:00:00:00:01'', dpdk_request_ttl = 60\<rparr>"

definition after_random_failure :: "nat session_coordinator" where
  "after_random_failure = snd (prepare_dpdk_receiver id (example_os\<lparr>random_fill := Inl ''entropy''\<rparr>)
     new_coordinator (dpdk_request (replicate 16 7) ''a'') 100)"

lemma dpdk_random_failure_leaks:
  "\<not> is_ok (fst (prepare_dpdk_receiver id (example_os\<lparr>random_fill := Inl ''entropy''\<rparr>)
      new_coordinator (dpdk_request (replicate 16 7) ''a'') 100))"
  "\<not> session_exists after_random_failure (replicate 16 7)"
  "map_option reservation_state (get_reservation (resources after_random_failure)
      (''dpdk-rx-'' @ hex_session_id (replicate 16 7))) = Some Active"
  "\<not> is_ok (fst (stop_session after_random_failure (replicate 16 7) ''b''))"
  "\<not> is_ok (fst (prepare_dpdk_receiver id example_os after_random_failure (dpdk_request (replicate 16 8) ''c'') 100))"
  by code_simp+

text \<open>
  Taking the sender of a bidirectional TCP session starts the session and only then refuses: the call
  returns an error, but the session is running and can no longer be started as a bidirectional one.
\<close>

lemma sender_of_bidirectional_starts:
  assumes x: "tcp_sessions s sid = Some x" "tcp_destination x = Some target" "tcp_sender_config x = Some run"
    and ok: "begin_scheduled s sid now = (Ok st, t)"
  shows "begin_and_take_sender s sid now = (Err (session_invalid_state ''session is bidirectional''), t)"
    and "session_state t sid = Some Running"
    and "fst (begin_and_take_bidirectional t sid now') \<noteq> Ok v"
proof -
  have mut: "session_mut s sid = Some (TcpMut x)" using x(1) by (simp add: session_mut_def)
  obtain l where t: "t = put_session s sid (set_state Running (set_lifecycle l (TcpMut x)))"
    using begin_scheduled_Ok [OF ok] mut by auto
  show "begin_and_take_sender s sid now = (Err (session_invalid_state ''session is bidirectional''), t)"
    using x ok by (simp add: begin_and_take_sender_def has_tcp_destination_def t take_tcp_sender_def)
  show "session_state t sid = Some Running" by (simp add: t session_state_def)
  then show "fst (begin_and_take_bidirectional t sid now') \<noteq> Ok v"
    by (auto simp: begin_and_take_bidirectional_def begin_scheduled_def session_state_mut Let_def)
qed

end
