(* ===== verification/Node_Control.thy ===== *)
theory Node_Control
  imports Node_Service Session_Calls Session_Authorization
begin

text \<open>
  The theorems of the control plane: what the dispatcher lets through, that serving a connection is a
  run of the coordinator, and what the orchestrator holds after it has prepared a session on this
  repository's own server.
\<close>

section \<open>No panic\<close>























section \<open>The guard of the dispatcher\<close>





section \<open>Serving a connection is a run of the coordinator\<close>














section \<open>Preparing a session on a remote node\<close>







text \<open>What a prepare leaves in the coordinator when its operation is new.\<close>

lemma reserve_active_keeps:
  assumes "reserve_active iter s rid sid key mode = (Ok r, t)"
  shows "tcp_sessions t = tcp_sessions s \<and> udp_sessions t = udp_sessions s \<and> dpdk_sessions t = dpdk_sessions s"
proof -
  obtain m where "t = s\<lparr>resources := m\<rparr>"
    using snd_reserve_active [of iter s rid sid key mode] assms by auto
  then show ?thesis by simp
qed

definition prepared_with :: "'h session_coordinator \<Rightarrow> bytes \<Rightarrow> data_plane_authorization \<Rightarrow> bool" where
  "prepared_with c sid a \<longleftrightarrow> session_state c sid = Some TestReady \<and> authorization_for c sid = Some a"

lemmas prepared_simps = prepared_with_def session_state_def authorization_for_def session_exists_def
  record_operation_def try_with_eq_Ok

lemma prepare_tcp_ready:
  assumes "prepare_tcp iter os s req now = (Ok response, t)" "operations s (tcp_request_operation req) = None"
  shows "\<exists>a. prepared_with t (tcp_request_session req) a
    \<and> auth_session a = tcp_request_session req \<and> auth_source_node a = tcp_request_source_node req
    \<and> auth_source a = tcp_request_source req \<and> auth_destination_port a = tcp_response_port response
    \<and> auth_tag a = tcp_response_tag response"
  using assms(1) unfolding prepare_tcp_def assms(2) option.case Let_def
  by (auto simp: prepared_simps dest!: reserve_active_keeps split: if_splits)

lemma prepare_tcp_sender_ready:
  assumes "prepare_tcp_sender iter os s req now = (Ok response, t)" "operations s (tcp_sender_operation req) = None"
  shows "\<exists>a. prepared_with t (tcp_sender_session req) a
    \<and> auth_session a = tcp_sender_session req \<and> auth_source_node a = tcp_sender_source_node req
    \<and> auth_destination a = socket_ip (tcp_sender_target req)
    \<and> auth_destination_port a = socket_port (tcp_sender_target req)
    \<and> auth_tag a = tcp_response_tag response"
  using assms(1) unfolding prepare_tcp_sender_def assms(2) option.case Let_def
  by (auto simp: prepared_simps dest!: reserve_active_keeps split: if_splits)

lemma prepare_udp_ready:
  assumes "prepare_udp iter os s req now = (Ok response, t)" "operations s (udp_request_operation req) = None"
  shows "\<exists>a. prepared_with t (udp_request_session req) a
    \<and> auth_session a = udp_request_session req \<and> auth_source_node a = udp_request_source_node req
    \<and> auth_source a = socket_ip (udp_request_source req)
    \<and> auth_source_port a = Some (socket_port (udp_request_source req))
    \<and> auth_destination_port a = udp_response_port response \<and> auth_tag a = udp_response_tag response"
  using assms(1) unfolding prepare_udp_def assms(2) option.case Let_def
  by (auto simp: prepared_simps dest!: reserve_active_keeps split: if_splits)

lemma prepare_udp_sender_ready:
  assumes "prepare_udp_sender iter os s req now = (Ok response, t)" "operations s (udp_sender_operation req) = None"
  shows "\<exists>a p. prepared_with t (udp_sender_session req) a
    \<and> auth_session a = udp_sender_session req \<and> auth_source_node a = udp_sender_source_node req
    \<and> auth_source_port a = Some p
    \<and> auth_destination a = socket_ip (udp_sender_target req)
    \<and> auth_destination_port a = socket_port (udp_sender_target req)
    \<and> auth_tag a = udp_response_tag response"
  using assms(1) unfolding prepare_udp_sender_def assms(2) option.case Let_def
  by (auto simp: prepared_simps dest!: reserve_active_keeps split: if_splits)

lemma prepare_dpdk_unauthorized:
  assumes "prepare_dpdk_receiver iter os s req now = (Ok plan, t)" "operations s (dpdk_request_operation req) = None"
  shows "authorization_for t (dpdk_request_session req) = None
    \<and> session_state t (dpdk_request_session req) = Some TestReady"
  using assms(1) unfolding prepare_dpdk_receiver_def assms(2) option.case Let_def
  by (auto simp: prepared_simps dest!: reserve_active_keeps split: if_splits)

lemma socket_new_parts [simp]: "socket_port (socket_new a p) = p" "socket_ip (socket_new a p) = a"
  by (cases a; simp)+

text \<open>
  What an authorization \<open>a\<close> says of a prepare request and of its answer: for an upload the peer sends
  to the port in the answer, for a download this node sends to the port in the request.
\<close>

definition answers_prepare ::
  "node_control_service \<Rightarrow> prepare_test \<Rightarrow> prepare_test_response \<Rightarrow> data_plane_authorization \<Rightarrow> bool" where
  "answers_prepare self prepare response a \<longleftrightarrow>
     auth_session a = wire_session_id prepare \<and> auth_tag a = response_tag response
     \<and> (wire_direction prepare = ''upload'' \<longrightarrow>
          auth_source_node a = expected_peer_node_id self \<and> auth_source a = peer_address self
          \<and> response_data_port response = ucast (auth_destination_port a)
          \<and> (wire_test_type prepare = ''udp'' \<longrightarrow>
               (\<exists>p. auth_source_port a = Some p \<and> unat p = unat (wire_source_port prepare))))
     \<and> (wire_direction prepare = ''download'' \<longrightarrow>
          auth_source_node a = identity_node_id (service_local self)
          \<and> auth_destination a = peer_address self
          \<and> unat (auth_destination_port a) = unat (wire_receive_port prepare)
          \<and> (wire_test_type prepare = ''udp'' \<longrightarrow>
               (\<exists>p. auth_source_port a = Some p \<and> response_source_port response = ucast p)))"

lemma handle_tcp_ready:
  assumes "handle_tcp_prepare iter os self c prepare (wire_session_id prepare) now ttl = (Ok response, c')"
    and "operations c (wire_operation_id prepare) = None"
    and "wire_direction prepare \<in> {''upload'', ''download''}" "wire_test_type prepare = ''tcp''"
  shows "\<exists>a. prepared_with c' (wire_session_id prepare) a
    \<and> answers_prepare self prepare \<lparr>response_ready = True, response_data_port = ucast (tcp_response_port response),
        response_tag = tcp_response_tag response, response_source_port = 0\<rparr> a"
  using assms unfolding handle_tcp_prepare_def Let_def
  by (auto simp: try_with_eq_Ok ok_or_eq_Ok answers_prepare_def split: if_splits
      dest!: prepare_tcp_ready prepare_tcp_sender_ready try_from_nat_SomeD)

lemma handle_udp_ready:
  assumes "handle_udp_prepare iter os self c prepare (wire_session_id prepare) now ttl
      = (Ok (PrepareTestResponse response), c')"
    and "operations c (wire_operation_id prepare) = None"
    and "wire_direction prepare \<in> {''upload'', ''download''}" "wire_test_type prepare = ''udp''"
  shows "\<exists>a. prepared_with c' (wire_session_id prepare) a \<and> answers_prepare self prepare response a"
  using assms unfolding handle_udp_prepare_def Let_def
  by (auto simp: try_with_eq_Ok ok_or_eq_Ok answers_prepare_def prepare_response_def prepared_with_def
      split: if_splits dest!: prepare_udp_ready prepare_udp_sender_ready try_from_nat_SomeD)

text \<open>A DPDK session is not among those whose authorization is read back, so its answer has no tag.\<close>

lemma handle_prepare_ready:
  assumes "handle_prepare iter os self c prepare now = (Ok (PrepareTestResponse response), c')"
    and "operations c (wire_operation_id prepare) = None"
    and "wire_direction prepare \<noteq> ''bidirectional''" "response_tag response \<noteq> []"
  shows "wire_test_type prepare \<in> {''tcp'', ''udp''}
    \<and> (\<exists>a. prepared_with c' (wire_session_id prepare) a \<and> answers_prepare self prepare response a)"
proof -
  have dir: "wire_direction prepare \<in> {''upload'', ''download''}"
    and sid: "parse_session_id (wire_session_id prepare) = Ok (wire_session_id prepare)"
    using assms(1,3) unfolding handle_prepare_def Let_def
    by (auto simp: try_with_eq_Ok parse_session_id_def split: if_splits)
  obtain ttl where ttl: "authorization_ttl prepare = Ok ttl"
    using assms(1) unfolding handle_prepare_def Let_def by (auto simp: try_with_eq_Ok split: if_splits)
  let ?now = "now div nanoseconds_per_second"
  consider (dpdk) t r where "prepare_dpdk_receiver iter os c t ?now = (Ok r, c')"
      "dpdk_request_session t = wire_session_id prepare" "dpdk_request_operation t = wire_operation_id prepare"
      "response_tag response = unwrap_or_default (map_option auth_tag (authorization_for c' (wire_session_id prepare)))"
    | (tcp) r where "wire_test_type prepare = ''tcp''"
      "handle_tcp_prepare iter os self c prepare (wire_session_id prepare) ?now ttl = (Ok r, c')"
      "response = \<lparr>response_ready = True, response_data_port = ucast (tcp_response_port r),
        response_tag = tcp_response_tag r, response_source_port = 0\<rparr>"
    | (udp) "wire_test_type prepare = ''udp''"
      "handle_udp_prepare iter os self c prepare (wire_session_id prepare) ?now ttl
        = (Ok (PrepareTestResponse response), c')"
    using assms(1) unfolding handle_prepare_def sid ttl try_with.simps Let_def
    by (fastforce simp: try_with_eq_Ok prepare_response_def split: if_splits)
  then show ?thesis
  proof cases
    case dpdk
    then have "authorization_for c' (wire_session_id prepare) = None"
      using prepare_dpdk_unauthorized [OF dpdk(1)] assms(2) by simp
    then show ?thesis using dpdk(4) assms(4) by (simp add: unwrap_or_default_def)
  next
    case tcp
    from handle_tcp_ready [OF tcp(2) assms(2) dir tcp(1)] tcp show ?thesis by simp
  next
    case udp
    from handle_udp_ready [OF udp(2) assms(2) dir udp(1)] udp show ?thesis by simp
  qed
qed

lemma raw_prepare_has_no_tag:
  assumes "handle_prepare iter os self c prepare now = (Ok (PrepareTestResponse response), c')"
    and "operations c (wire_operation_id prepare) = None"
    and "wire_direction prepare \<noteq> ''bidirectional''" "wire_test_type prepare = ''raw''"
  shows "response_tag response = []"
  using handle_prepare_ready [OF assms(1-3)] assms(4) by fastforce




text \<open>The redraw loop returns with fuel for the draws before the first one that is not zero.\<close>

lemma random_session_id_returns:
  assumes "draws (i + k) \<noteq> Inr (replicate 16 0)" "k < fuel"
  shows "\<exists>r. random_session_id fuel draws i = Some r \<and> r \<noteq> Ok (replicate 16 0) \<and> r \<noteq> Panic"
  using assms
proof (induction fuel arbitrary: i k)
  case (Suc fuel)
  show ?case
  proof (cases k)
    case 0
    then show ?thesis using Suc.prems by (cases "draws i") auto
  next
    case (Suc j)
    then have "\<exists>r. random_session_id fuel draws (Suc i) = Some r \<and> r \<noteq> Ok (replicate 16 0) \<and> r \<noteq> Panic"
      using Suc.IH [of "Suc i" j] Suc.prems by simp
    then show ?thesis by (cases "draws i") auto
  qed
qed simp

section \<open>A concrete exchange\<close>











end
