(* ===== verification/Spec2Isabelle.thy ===== *)
theory Spec2Isabelle
  imports Node_Protocol Tcp_Analysis Pcap_Backend Packet_Worker Resource_Manager Hosts_File Safe_Apply Generator
    Speed_Engine Speed_Tcp Node_Control
begin

text \<open>
  \<^bold>\<open>Verification of the Network Engineering Toolkit.\<close>  The toolkit is a Rust workspace: an agent, a
  privileged helper, a data plane and user interfaces over a set of library crates.  This development
  models the library crates that decide something from their inputs, and states what makes them
  correct.  Paths below are relative to \<^verbatim>\<open>src/\<close>.

  \<^bold>\<open>Conventions\<close> (\<open>Nettool_Prelude\<close>).  A Rust integer is a word of its width; \<open>+\<close> wraps, and
  \<open>sat_add\<close>, \<open>checked_add\<close>, \<open>try_from_nat\<close> and so on are the library calls the source makes; lengths
  and indices (\<^verbatim>\<open>usize\<close>) are \<^typ>\<open>nat\<close>.  A fallible function returns an outcome: \<open>Ok\<close>, \<open>Err\<close> with the
  crate's error value, or \<open>Panic\<close> for an index or slice out of range, so that the absence of panics is a
  theorem and not an assumption; \<open>and_then\<close> is the question mark operator.  A method on \<^verbatim>\<open>&mut self\<close>
  returns the result together with the new state, also when it fails.  Records have the fields of the
  structs and datatypes the variants of the enums.  A hash map is an association list or a map, and where
  the source iterates over one the order is an argument constrained only to be a permutation
  (\<open>iteration_order\<close>).  Code outside the workspace and the operating system are arguments of the
  definitions: the Protobuf, JSON and hash functions, the random source, sockets, clocks, the results of
  file operations and the allocator.  \<open>reachable\<close> and the locale \<open>invariant_system\<close> carry every
  invariant proof over sequences of operations, and each component interprets the locale on its own step
  relation.

  \<^bold>\<open>The parts and their theories.\<close>

  \<^item> \<open>Error_Model\<close>: \<^verbatim>\<open>crates/error\<close>, the error codes with their stable names.

  \<^item> \<open>Net_Types\<close>, \<open>Ip_Text\<close>: the standard library's address types and their text form, as far as the
  workspace uses them.

  \<^item> \<open>Packet_Parser\<close>, \<open>Flow\<close>, \<open>Tcp_Analysis\<close>, \<open>Packet_Stats\<close>, \<open>Capture\<close>, \<open>Packet_Worker\<close>, \<open>Generator\<close>:
  \<^verbatim>\<open>crates/packet\<close>, and \<open>Pcap_Backend\<close>: \<^verbatim>\<open>crates/backend-pcap\<close>.  A worker takes bursts from a source,
  counts, filters, captures, samples and analyzes each packet, and analysis parses the frame and updates
  the flow table.  Shown: the parser never panics and its payload views are parts of the frame; frames
  the generator builds are parsed back to their profile; the flow table stays within its bound and evicts
  only idle or least recently seen flows; gap-free TCP streams are in order across wrap-around; the
  capture queue loses no packet unaccounted; rotation keeps exactly the retained files; the file reader
  is safe on every input and reads back what the writer wrote; a replay through a worker ends within
  the burst budget with exact counts.

  \<^item> \<open>Resource_Manager\<close>: \<^verbatim>\<open>crates/resource\<close>.  Exclusive claims exclude all others, a request is granted as
  a whole or changes nothing, and a release restores what was held before.

  \<^item> \<open>Helper_Protocol\<close>, \<open>Hosts_File\<close>, \<open>Safe_Apply\<close>: \<^verbatim>\<open>crates/helper-protocol\<close> and the platform-independent
  part of \<^verbatim>\<open>crates/helper-core\<close>.  Validation is exact; replacing the managed section of a hosts file
  changes only that section; a change is on disk before the platform is touched and is rolled back at
  its deadline after a crash at any point, unless it was confirmed in time.

  \<^item> \<open>Speed_Udp\<close>, \<open>Speed_Session\<close>, \<open>Speed_Engine\<close>, \<open>Speed_Tcp\<close>: \<^verbatim>\<open>crates/speed\<close>.  The ring tracker refines the
  exact one inside its window; the pacer keeps the rate; the test life cycle is ordered; the UDP sender
  returns, and its stream is reported exactly by a receiver that gets it in order; a successful TCP
  receiver heard every authorized stream once.

  \<^item> \<open>Node_Protocol\<close>, \<open>Node_Wire\<close>: \<^verbatim>\<open>crates/node-protocol\<close>: frames, negotiation, the connection state
  machine, trust and the control messages; \<open>Node_Wire\<close> also holds \<^verbatim>\<open>crates/node/src/planner.rs\<close>.

  \<^item> \<open>Node_Session\<close>, \<open>Session_Safety\<close>, \<open>Session_Calls\<close>, \<open>Session_Authorization\<close>: the session coordinator of
  \<^verbatim>\<open>crates/node\<close>.  \<open>Node_Session\<close> has the operations, built on the resource manager and the test life
  cycle; \<open>Session_Safety\<close> abstracts each of them to a run of a small relation and proves the invariant
  there once; \<open>Session_Calls\<close> states what holds over every sequence of calls: a worker is handed out at
  most once, a live session owns its resources, an operation replayed is idempotent, a result never
  changes; \<open>Session_Authorization\<close> has the data-plane authorization.

  \<^item> \<open>Node_Service\<close>, \<open>Node_Control\<close>: the dispatcher (\<^verbatim>\<open>server.rs\<close>), the client (\<^verbatim>\<open>client.rs\<close>) and the
  orchestrator (\<^verbatim>\<open>orchestrator.rs\<close>) of \<^verbatim>\<open>crates/node\<close>.  The dispatcher answers every request, lets nothing
  through before an accepted Hello and makes at most one call of the coordinator, so the theorems of
  \<open>Session_Calls\<close> hold behind it; with the dispatcher as the client's peer, a session the client has
  prepared is one the server holds, with the same tag and ports.

  \<^bold>\<open>Helpers.\<close>  Small constants and helper definitions that have no entry of their own in the manifest's
  map model lines inside a function that has one, or a one-line constant next to it.

  \<^bold>\<open>Bounds and fuel.\<close>  Loops over data are structural or have a termination proof.  The loops bounded by
  the clock (\<open>sender_loop\<close>, \<open>rounds_until\<close>) are partial functions whose value None is not returning, and
  the sender is shown to return once the clock stays past its deadline.  The UDP receiver runs over the
  list of its socket's events, None when they end before it does; the worker loop has the source's own
  burst budget.  \<open>random_session_id\<close> redraws while the value is zero and has fuel: it returns when the fuel
  exceeds the number of zero draws (\<open>random_session_id_returns\<close>).

  \<^bold>\<open>What the model leaves out in the modelled parts.\<close>  A request of the control plane is one atomic step.
  The source takes the coordinator's lock once for the call that changes it and, for UDP and DPDK
  prepares, once more to read the authorization back; a call of another connection between the two is
  not modelled.  Threads of the TCP engine are the outcomes they join with.  Doubles are real numbers
  or not finite, with the rounding as an argument.  Operating system errors while writing a capture file or reading one are
  not modelled, nor are the TLS connection, its time limits and the pairing flow of \<^verbatim>\<open>client.rs\<close>, where the
  peer is an argument.

  \<^bold>\<open>Not modelled.\<close>  \<^verbatim>\<open>crates/dpdk-sys\<close>, \<^verbatim>\<open>dpdk-safe\<close>, \<^verbatim>\<open>backend-af-xdp\<close>, \<^verbatim>\<open>backend-rio\<close>, \<^verbatim>\<open>platform-auth\<close> and
  \<^verbatim>\<open>platform-affinity\<close> are bindings to kernel and device interfaces whose behaviour is not in the source.
  \<^verbatim>\<open>crates/storage\<close> is SQL over SQLite, and \<^verbatim>\<open>crates/identity\<close> key generation and the platform's key store.
  The platform executors of \<^verbatim>\<open>helper-core\<close> run system commands and edit system files; they are the
  executor argument of \<open>Safe_Apply\<close>.  \<^verbatim>\<open>crates/node/src/lib.rs\<close> configures TLS and moves frames over a
  stream; the frames are in \<open>Node_Protocol\<close>.  \<^verbatim>\<open>crates/agent-protocol\<close>, \<^verbatim>\<open>agent-client\<close> and
  \<^verbatim>\<open>helper-server\<close> are local transports.  \<^verbatim>\<open>crates/action\<close> and \<^verbatim>\<open>domain\<close> are tables and serialized data
  types; the types the modelled code uses are in the theories that use them.  \<^verbatim>\<open>crates/benchmark\<close> and
  the environment probes and queue planning of \<^verbatim>\<open>backend-dpdk\<close> evaluate measurements of a machine; their
  logic is separate from the parts above and not covered yet.  The programs under \<^verbatim>\<open>apps/\<close> parse
  arguments, serve local connections and connect the crates.
\<close>

end
